(* ===== verification/Prelude.thy ===== *)
theory Prelude
  imports Main "HOL-Library.Word"
begin

text \<open>
  Shared ground of the development: machine integers, the panic results of the Rust code,
  the result type with its bind, the trait-object loops that several components share, and
  the generic notion of a step system with its invariants.

  \<^item> \<open>usize\<close> and \<open>u64\<close> are 64-bit words (the 64-bit targets of the crate).
  \<^item> \<open>panic\<close> has one constructor per panic of the source; a computation that may panic
    returns \<open>panic + 'a\<close> with \<open>Inl\<close> for the panic.
  \<^item> \<open>debug_assert\<close> takes the build's \<open>debug_assertions\<close> flag, so that every
    definition models both the debug and the release build.
\<close>

type_synonym usize = "64 word"
type_synonym u64 = "64 word"

datatype panic =
    DebugAssertion
  | UnwrapNone
  | IndexOutOfBounds
  | OutsideCoroutine
  | ChannelClosed
  | ChannelIoError
  | QueueFull
  | RegisterFailed
  | ReregisterFailed
  | DeregisterFailed
  | TimeoutFailed
  | RunOutOfSlab
  | AttachFailed
  | EmptyEventSet
  | ArithmeticOverflow
  | CouldNotSpawnThread
  | ResumedDeadContext
  | WrongSource
  | UserPanic nat
  | KilledUnwind

type_synonym 'a res = "panic + 'a"

definition debug_assert :: "bool \<Rightarrow> bool \<Rightarrow> unit res" where
  "debug_assert dbg p = (if dbg \<and> \<not> p then Inl DebugAssertion else Inr ())"

definition unwrap :: "'a option \<Rightarrow> 'a res" where
  "unwrap x = (case x of None \<Rightarrow> Inl UnwrapNone | Some y \<Rightarrow> Inr y)"

fun bindR :: "'a res \<Rightarrow> ('a \<Rightarrow> 'b res) \<Rightarrow> 'b res" where
  "bindR (Inl p) f = Inl p"
| "bindR (Inr x) f = f x"

text \<open>A fold whose body may panic: the \<open>for\<close> loops over vectors.\<close>

fun foldR :: "('a \<Rightarrow> 's \<Rightarrow> 's res) \<Rightarrow> 'a list \<Rightarrow> 's \<Rightarrow> 's res" where
  "foldR f [] s = Inr s"
| "foldR f (x # xs) s = bindR (f x s) (foldR f xs)"

text \<open>
  Rust's \<open>loop\<close>: a round either leaves the loop with a result (\<open>Inl\<close>) or goes on from a new
  state (\<open>Inr\<close>). A loop that never leaves has the value \<open>None\<close>. \<open>rounds\<close> is the state after a
  number of rounds that all went on.
\<close>

partial_function (option) rust_loop :: "('s \<Rightarrow> 'r + 's) \<Rightarrow> 's \<Rightarrow> 'r option" where
  "rust_loop body s = (case body s of Inl r \<Rightarrow> Some r | Inr s' \<Rightarrow> rust_loop body s')"

fun rounds :: "('s \<Rightarrow> 'r + 's) \<Rightarrow> nat \<Rightarrow> 's \<Rightarrow> 's option" where
  "rounds body 0 s = Some s"
| "rounds body (Suc n) s = (case body s of Inl r \<Rightarrow> None | Inr s' \<Rightarrow> rounds body n s')"

text \<open>States reachable from an initial state by steps.\<close>

inductive reach :: "('s \<Rightarrow> bool) \<Rightarrow> ('s \<Rightarrow> 's \<Rightarrow> bool) \<Rightarrow> 's \<Rightarrow> bool"
  for init :: "'s \<Rightarrow> bool" and step :: "'s \<Rightarrow> 's \<Rightarrow> bool" where
  reach_init: "init s \<Longrightarrow> reach init step s"
| reach_step: "reach init step s \<Longrightarrow> step s t \<Longrightarrow> reach init step t"

text \<open>
  The collections the component proofs draw on: \<open>op_defs\<close> unfolds the operations of a
  component, \<open>frame\<close> holds what an operation leaves unchanged, and \<open>inv_pres\<close> holds the
  preservation lemmas of the invariants.
\<close>

named_theorems op_defs
named_theorems frame
named_theorems inv_pres

lemma usize_of_nat_eq_0: "n < 2 ^ 64 \<Longrightarrow> (of_nat n :: usize) = 0 \<longleftrightarrow> n = 0"
  using nat_dvd_not_less [of n "2 ^ 64"] by (auto simp: word_of_nat_eq_0_iff)

lemma usize_unat_of_nat: "n < 2 ^ 64 \<Longrightarrow> unat (of_nat n :: usize) = n"
  by (rule of_nat_inverse [OF refl]) simp

lemma usize_of_nat_inject:
  "m < 2 ^ 64 \<Longrightarrow> n < 2 ^ 64 \<Longrightarrow> (of_nat m :: usize) = of_nat n \<longleftrightarrow> m = n"
  by (simp add: word_of_nat_eq_iff take_bit_nat_eq_self)

lemma bindR_eq_Inr: "bindR m f = Inr y \<longleftrightarrow> (\<exists>x. m = Inr x \<and> f x = Inr y)"
  by (cases m) auto

lemma bindR_eq_Inl: "bindR m f = Inl p \<longleftrightarrow> m = Inl p \<or> (\<exists>x. m = Inr x \<and> f x = Inl p)"
  by (cases m) auto

lemma bindR_assoc: "bindR (bindR m f) g = bindR m (\<lambda>x. bindR (f x) g)"
  by (cases m) auto

lemma bindR_Inr [simp]: "bindR m Inr = m"
  by (cases m) auto

lemma debug_assert_Inr [simp]: "debug_assert dbg p = Inr u \<longleftrightarrow> (dbg \<longrightarrow> p)"
  by (simp add: debug_assert_def)

lemma debug_assert_True [simp]: "debug_assert dbg True = Inr ()"
  by (simp add: debug_assert_def)

lemma debug_assert_release [simp]: "debug_assert False p = Inr ()"
  by (simp add: debug_assert_def)

lemma unwrap_Some [simp]: "unwrap (Some x) = Inr x"
  by (simp add: unwrap_def)

lemma unwrap_None [simp]: "unwrap None = Inl UnwrapNone"
  by (simp add: unwrap_def)

lemma unwrap_eq_Inr [simp]: "unwrap x = Inr y \<longleftrightarrow> x = Some y"
  by (simp add: unwrap_def split: option.splits)

lemma foldR_append: "foldR f (xs @ ys) s = bindR (foldR f xs s) (foldR f ys)"
proof (induction xs arbitrary: s)
  case (Cons x xs)
  show ?case by (cases "f x s") (simp_all add: Cons.IH)
qed simp

text \<open>The loop rule for \<open>foldR\<close>: what every round keeps holds at the end.\<close>

lemma foldR_inv:
  assumes "foldR f xs s = Inr t" and "P s"
    and "\<And>x u v. x \<in> set xs \<Longrightarrow> P u \<Longrightarrow> f x u = Inr v \<Longrightarrow> P v"
  shows "P t"
  using assms
proof (induction xs arbitrary: s)
  case Nil
  then show ?case by simp
next
  case (Cons x xs)
  from Cons.prems(1) obtain u where u: "f x s = Inr u" and rest: "foldR f xs u = Inr t"
    by (auto simp: bindR_eq_Inr)
  have "P u" using Cons.prems(3) [OF _ Cons.prems(2) u] by simp
  with rest show ?case using Cons.prems(3) by (auto intro: Cons.IH)
qed

lemma foldR_cong_inv:
  assumes "foldR f xs s = Inr t"
    and "\<And>x u v. x \<in> set xs \<Longrightarrow> f x u = Inr v \<Longrightarrow> g v = g u"
  shows "g t = g s"
  by (rule foldR_inv [OF assms(1), where P = "\<lambda>u. g u = g s"]) (auto dest: assms(2))

text \<open>A loop whose body never panics on states that satisfy an invariant does not panic.\<close>

lemma foldR_total:
  assumes "P s" and "\<And>x u. x \<in> set xs \<Longrightarrow> P u \<Longrightarrow> \<exists>v. f x u = Inr v \<and> P v"
  shows "\<exists>t. foldR f xs s = Inr t \<and> P t"
  using assms
proof (induction xs arbitrary: s)
  case Nil
  then show ?case by simp
next
  case (Cons x xs)
  from Cons.prems obtain v where v: "f x s = Inr v" "P v" by auto
  with Cons.prems(2) Cons.IH [of v] show ?case by auto
qed

lemma rust_loop_rounds:
  "rounds body n s = Some s' \<Longrightarrow> rust_loop body s = rust_loop body s'"
proof (induction n arbitrary: s)
  case 0
  then show ?case by simp
next
  case (Suc n)
  then show ?case by (cases "body s") (simp_all add: rust_loop.simps [of body s])
qed

lemma rust_loop_returns:
  assumes "rounds body n s = Some s'" and "body s' = Inl r"
  shows "rust_loop body s = Some r"
  using rust_loop_rounds [OF assms(1)] assms(2) by (simp add: rust_loop.simps [of body s'])

lemma rust_loop_returned:
  fixes body :: "'s \<Rightarrow> 'r + 's"
  assumes ret: "rust_loop body s = Some r"
  shows "\<exists>n s'. rounds body n s = Some s' \<and> body s' = Inl r"
proof (rule rust_loop.raw_induct [where P = "\<lambda>body s r. \<exists>n s'. rounds body n s = Some s' \<and> body s' = Inl r",
      OF _ ret])
  fix f and body :: "'s \<Rightarrow> 'r + 's" and s r
  assume IH: "\<And>body s r. f body s = Some r \<Longrightarrow> \<exists>n s'. rounds body n s = Some s' \<and> body s' = Inl r"
    and eq: "(case body s of Inl r \<Rightarrow> Some r | Inr s' \<Rightarrow> f body s') = Some r"
  show "\<exists>n s'. rounds body n s = Some s' \<and> body s' = Inl r"
  proof (cases "body s")
    case (Inl x)
    with eq show ?thesis by (intro exI [of _ 0]) simp
  next
    case (Inr s1)
    with eq IH [of body s1 r] obtain n s' where "rounds body n s1 = Some s'" "body s' = Inl r" by auto
    with Inr show ?thesis by (intro exI [of _ "Suc n"]) simp
  qed
qed

lemma rust_loop_first: "body s = Inl r \<Longrightarrow> rust_loop body s = Some r"
  by (rule rust_loop_returns [where n = 0]) simp_all

lemma rust_loop_again: "body s = Inr s' \<Longrightarrow> rust_loop body s = rust_loop body s'"
  by (rule rust_loop_rounds [where n = 1]) simp

text \<open>A loop returns exactly the result of its first round that leaves.\<close>

lemma rust_loop_Some_iff:
  "rust_loop body s = Some r \<longleftrightarrow> (\<exists>n s'. rounds body n s = Some s' \<and> body s' = Inl r)"
  using rust_loop_returns rust_loop_returned by metis

lemma rust_loop_None_iff:
  "rust_loop body s = None \<longleftrightarrow> (\<forall>n s'. rounds body n s = Some s' \<longrightarrow> (\<exists>s''. body s' = Inr s''))"
proof
  assume n: "rust_loop body s = None"
  show "\<forall>n s'. rounds body n s = Some s' \<longrightarrow> (\<exists>s''. body s' = Inr s'')"
  proof (intro allI impI)
    fix n s'
    assume "rounds body n s = Some s'"
    with n show "\<exists>s''. body s' = Inr s''"
      by (cases "body s'") (auto dest: rust_loop_returns)
  qed
next
  assume "\<forall>n s'. rounds body n s = Some s' \<longrightarrow> (\<exists>s''. body s' = Inr s'')"
  then show "rust_loop body s = None"
    using rust_loop_returned [of body s] by (cases "rust_loop body s") fastforce+
qed

text \<open>An invariant of the rounds holds where the loop leaves.\<close>

lemma rounds_inv:
  assumes "rounds body n s = Some s'" and "P s" and "\<And>u v. P u \<Longrightarrow> body u = Inr v \<Longrightarrow> P v"
  shows "P s'"
  using assms by (induction n arbitrary: s) (auto split: sum.splits)

lemma rust_loop_inv:
  assumes "rust_loop body s = Some r" and "P s" and "\<And>u v. P u \<Longrightarrow> body u = Inr v \<Longrightarrow> P v"
  shows "\<exists>s'. P s' \<and> body s' = Inl r"
  using rust_loop_returned [OF assms(1)] rounds_inv [of body _ s _ P] assms(2,3) by blast

text \<open>A round that always goes on while an invariant holds makes the loop run forever.\<close>

lemma rust_loop_diverges:
  assumes "P s" and "\<And>u. P u \<Longrightarrow> \<exists>v. body u = Inr v \<and> P v"
  shows "rust_loop body s = None"
proof -
  have "\<And>u v. P u \<Longrightarrow> body u = Inr v \<Longrightarrow> P v" using assms(2) by fastforce
  then have "rounds body n s = Some s' \<Longrightarrow> P s'" for n s' using rounds_inv [of body n s s' P] assms(1) by blast
  with assms(2) show ?thesis unfolding rust_loop_None_iff by blast
qed

text \<open>
  An inductive invariant of a step system. Each protocol of the development interprets this
  locale on its own initial states, steps and invariant.
\<close>

locale invariant_system =
  fixes init :: "'s \<Rightarrow> bool" and step :: "'s \<Rightarrow> 's \<Rightarrow> bool" and inv :: "'s \<Rightarrow> bool"
  assumes inv_init: "init s \<Longrightarrow> inv s"
    and inv_step: "inv s \<Longrightarrow> step s t \<Longrightarrow> inv t"
begin

lemma reach_inv: "reach init step s \<Longrightarrow> inv s"
  by (induction rule: reach.induct) (auto intro: inv_init inv_step)

lemma reach_step_inv: "reach init step s \<Longrightarrow> step s t \<Longrightarrow> inv s \<and> inv t"
  using reach_inv inv_step by blast

end

end
