(* ===== verification/Tokens.thy ===== *)
theory Tokens
  imports Prelude
begin

text \<open>
  Identifiers and events of \<^verbatim>\<open>src/src/mod.rs\<close> and \<^verbatim>\<open>src/src/coroutine.rs\<close>: \<open>RW\<close>, \<open>Event\<close>,
  \<open>EventSourceId\<close>, \<open>coroutine::Id\<close>, and the packing of a coroutine id and an event source id
  into one mio token. The token codec is stated as an interface (locale \<open>token_codec\<close>) and
  interpreted on the code's \<open>token_from_ids\<close> and \<open>token_to_ids\<close>.
\<close>

unbundle bit_operations_syntax

record RW =
  rw_read :: bool
  rw_write :: bool

definition RW_read :: RW where
  "RW_read = \<lparr>rw_read = True, rw_write = False\<rparr>"

definition RW_write :: RW where
  "RW_write = \<lparr>rw_read = False, rw_write = True\<rparr>"

definition RW_both :: RW where
  "RW_both = \<lparr>rw_read = True, rw_write = True\<rparr>"

definition RW_none :: RW where
  "RW_none = \<lparr>rw_read = False, rw_write = False\<rparr>"

definition has_read :: "RW \<Rightarrow> bool" where
  "has_read rw = rw_read rw"

definition has_write :: "RW \<Rightarrow> bool" where
  "has_write rw = rw_write rw"

datatype EventSourceId = EventSourceId (source_usize: usize)

datatype co_id = Id (co_usize: usize)

record Event =
  event_id :: EventSourceId
  event_rw :: RW

definition Event_id :: "Event \<Rightarrow> EventSourceId" where
  [simp]: "Event_id e = event_id e"

definition Event_has_read :: "Event \<Rightarrow> bool" where
  "Event_has_read e = has_read (event_rw e)"

definition Event_has_write :: "Event \<Rightarrow> bool" where
  "Event_has_write e = has_write (event_rw e)"

type_synonym token = usize

text \<open>\<open>coroutine::SPECIAL_ID\<close>, \<open>SPECIAL_ID_SCHED_TIMEOUT\<close> and \<open>STARTING_ID\<close>.\<close>

definition SPECIAL_ID :: co_id where
  "SPECIAL_ID = Id 0"

definition SPECIAL_ID_SCHED_TIMEOUT :: EventSourceId where
  "SPECIAL_ID_SCHED_TIMEOUT = EventSourceId 0"

definition STARTING_ID :: co_id where
  "STARTING_ID = Id 1"

definition EVENT_SOURCE_TOKEN_SHIFT :: nat where
  "EVENT_SOURCE_TOKEN_SHIFT = 10"

definition EVENT_SOURCE_TOKEN_MASK :: usize where
  "EVENT_SOURCE_TOKEN_MASK = push_bit EVENT_SOURCE_TOKEN_SHIFT 1 - 1"

definition token_to_ids :: "token \<Rightarrow> co_id \<times> EventSourceId" where
  "token_to_ids val =
     (Id (drop_bit EVENT_SOURCE_TOKEN_SHIFT val), EventSourceId (val AND EVENT_SOURCE_TOKEN_MASK))"

definition token_from_ids :: "bool \<Rightarrow> co_id \<Rightarrow> EventSourceId \<Rightarrow> token res" where
  "token_from_ids dbg co io =
     bindR (debug_assert dbg (source_usize io \<le> EVENT_SOURCE_TOKEN_MASK))
       (\<lambda>_. Inr (push_bit EVENT_SOURCE_TOKEN_SHIFT (co_usize co) OR source_usize io))"

text \<open>
  The pairs the packing has room for: 54 bits of coroutine id, 10 bits of event source id.
\<close>

definition ids_fit :: "co_id \<Rightarrow> EventSourceId \<Rightarrow> bool" where
  "ids_fit co io \<longleftrightarrow> co_usize co < 2 ^ 54 \<and> source_usize io \<le> EVENT_SOURCE_TOKEN_MASK"

text \<open>
  What the clients of the token packing rely on: a token made from ids that fit is taken apart
  into the same ids, and every token is the token of the ids it is taken apart into.
\<close>

locale token_codec =
  fixes enc :: "'c \<Rightarrow> 'i \<Rightarrow> 't res"
    and dec :: "'t \<Rightarrow> 'c \<times> 'i"
    and fits :: "'c \<Rightarrow> 'i \<Rightarrow> bool"
  assumes enc_dec: "fits c i \<Longrightarrow> \<exists>t. enc c i = Inr t \<and> dec t = (c, i)"
    and dec_enc: "enc (fst (dec t)) (snd (dec t)) = Inr t"
    and dec_fits: "fits (fst (dec t)) (snd (dec t))"
begin

lemma enc_total: "fits c i \<Longrightarrow> \<exists>t. enc c i = Inr t"
  using enc_dec by blast

lemma enc_inj:
  assumes "fits c i" and "fits c' i'" and "enc c i = enc c' i'"
  shows "c = c' \<and> i = i'"
  using enc_dec [OF assms(1)] enc_dec [OF assms(2)] assms(3) by auto

lemma dec_eqI: "fits c i \<Longrightarrow> enc c i = Inr t \<Longrightarrow> dec t = (c, i)"
  using enc_dec by fastforce

lemma dec_inj:
  assumes "dec t = dec t'"
  shows "t = t'"
proof -
  have "Inr t = enc (fst (dec t)) (snd (dec t))" by (simp only: dec_enc)
  also have "\<dots> = enc (fst (dec t')) (snd (dec t'))" by (simp only: assms)
  also have "\<dots> = Inr t'" by (simp only: dec_enc)
  finally show ?thesis by simp
qed

end

lemmas rw_defs [op_defs] = RW_read_def RW_write_def RW_both_def RW_none_def has_read_def has_write_def

lemma token_mask_1023 [simp]: "EVENT_SOURCE_TOKEN_MASK = 1023"
  by (simp add: EVENT_SOURCE_TOKEN_MASK_def EVENT_SOURCE_TOKEN_SHIFT_def)

lemma and_token_mask: "(w :: usize) AND EVENT_SOURCE_TOKEN_MASK = take_bit 10 w"
  by (simp add: take_bit_eq_mask mask_numeral)

lemma take_bit_small_word:
  assumes "unat (w :: usize) < 2 ^ n"
  shows "take_bit n w = w"
proof -
  have "unat (take_bit n w) = take_bit n (unat w)"
    by transfer (simp add: ac_simps flip: nat_take_bit_eq)
  also have "\<dots> = unat w" using assms by (rule take_bit_nat_eq_self)
  finally show ?thesis by (rule word_unat_eq_iff [THEN iffD2])
qed

lemma drop_bit_small_word:
  assumes "(w :: usize) \<le> 1023"
  shows "drop_bit 10 w = 0"
proof -
  have "unat w \<le> 1023" using assms by (simp add: word_le_nat_alt)
  then have "unat (drop_bit 10 w) = 0"
    by (subst unat_drop_bit_eq) (simp add: drop_bit_eq_div)
  then show ?thesis by (simp add: unat_eq_0)
qed

lemma drop_push_small_word:
  assumes "(w :: usize) < 2 ^ 54"
  shows "drop_bit 10 (push_bit 10 w) = w"
proof -
  have w: "take_bit 54 w = w"
    using assms by (intro take_bit_small_word) (simp add: word_less_nat_alt)
  have "drop_bit 10 (push_bit 10 w) = take_bit 54 w"
    by (rule bit_eqI) (auto simp: bit_simps)
  with w show ?thesis by simp
qed

lemma token_to_ids_enc:
  assumes "co_usize co < 2 ^ 54" and "source_usize io \<le> 1023"
  shows "token_to_ids (push_bit 10 (co_usize co) OR source_usize io) = (co, io)"
proof -
  have a: "drop_bit 10 (push_bit 10 (co_usize co)) = co_usize co"
    using assms(1) by (rule drop_push_small_word)
  have b: "drop_bit 10 (source_usize io) = 0"
    using assms(2) by (rule drop_bit_small_word)
  have c: "take_bit 10 (source_usize io) = source_usize io"
    using assms(2) by (intro take_bit_small_word) (simp add: word_le_nat_alt)
  have d: "take_bit 10 (push_bit 10 (co_usize co)) = 0"
    by (rule bit_eqI) (auto simp: bit_simps)
  show ?thesis
    unfolding token_to_ids_def and_token_mask EVENT_SOURCE_TOKEN_SHIFT_def
    by (simp add: a b c d)
qed

lemma token_enc_to_ids:
  "push_bit 10 (drop_bit 10 t) OR (t AND 1023) = (t :: token)"
proof -
  have "t AND 1023 = take_bit 10 t" using and_token_mask [of t] by simp
  moreover have "push_bit 10 (drop_bit 10 t) OR take_bit 10 t = t"
    by (rule bit_eqI) (auto simp: bit_simps not_less)
  ultimately show ?thesis by simp
qed

lemma token_from_ids_alt:
  "token_from_ids dbg co io =
     (if dbg \<and> 1023 < source_usize io then Inl DebugAssertion
      else Inr (push_bit 10 (co_usize co) OR source_usize io))"
  by (auto simp: token_from_ids_def EVENT_SOURCE_TOKEN_SHIFT_def debug_assert_def)

lemma token_to_ids_fits: "ids_fit (fst (token_to_ids t)) (snd (token_to_ids t))"
proof -
  have "unat (drop_bit 10 t) < 2 ^ 54"
    using unsigned_less [of t, where ?'a = nat]
    by (subst unat_drop_bit_eq) (simp add: drop_bit_eq_div)
  then have "drop_bit 10 t < 2 ^ 54" by (simp add: word_less_nat_alt)
  moreover have "t AND 1023 \<le> 1023" by (rule word_and_le1)
  ultimately show ?thesis
    by (simp add: ids_fit_def token_to_ids_def EVENT_SOURCE_TOKEN_SHIFT_def)
qed

interpretation tok: token_codec "token_from_ids dbg" token_to_ids ids_fit for dbg
proof unfold_locales
  fix c i
  assume "ids_fit c i"
  then show "\<exists>t. token_from_ids dbg c i = Inr t \<and> token_to_ids t = (c, i)"
    by (simp add: ids_fit_def token_from_ids_alt token_to_ids_enc not_less)
next
  fix t
  have "t AND 1023 \<le> (1023 :: token)" by (rule word_and_le1)
  then show "token_from_ids dbg (fst (token_to_ids t)) (snd (token_to_ids t)) = Inr t"
    by (simp add: token_from_ids_alt token_to_ids_def EVENT_SOURCE_TOKEN_SHIFT_def
        token_enc_to_ids not_less)
next
  fix t
  show "ids_fit (fst (token_to_ids t)) (snd (token_to_ids t))"
    by (rule token_to_ids_fits)
qed

text \<open>
  C33: for a coroutine id below \<open>2 ^ 54\<close> and an event source id of at most ten bits, packing the
  ids into a token succeeds in every build, and taking the token apart gives the ids back.
\<close>

theorem token_round_trip:
  assumes "ids_fit co io"
  shows "\<exists>t. token_from_ids dbg co io = Inr t \<and> token_to_ids t = (co, io)"
  using assms by (rule tok.enc_dec)

theorem token_round_trip_witness:
  "ids_fit (Id 5) (EventSourceId 3)
   \<and> (\<exists>t. token_from_ids True (Id 5) (EventSourceId 3) = Inr t
          \<and> token_to_ids t = (Id 5, EventSourceId 3))"
proof -
  have h: "ids_fit (Id 5) (EventSourceId 3)" by (simp add: ids_fit_def)
  show ?thesis using h token_round_trip [OF h, of True] by simp
qed

text \<open>
  The token of the scheduler timeout is the token of no event source of a coroutine: coroutine
  ids start at \<open>STARTING_ID\<close>, so \<open>Handler::timeout\<close> never mistakes a timer for it.
\<close>

theorem special_token_not_coroutine:
  assumes "ids_fit co io" and "co_usize STARTING_ID \<le> co_usize co"
  shows "token_from_ids dbg co io \<noteq> token_from_ids dbg SPECIAL_ID SPECIAL_ID_SCHED_TIMEOUT"
proof
  assume eq: "token_from_ids dbg co io = token_from_ids dbg SPECIAL_ID SPECIAL_ID_SCHED_TIMEOUT"
  have "ids_fit SPECIAL_ID SPECIAL_ID_SCHED_TIMEOUT"
    by (simp add: ids_fit_def SPECIAL_ID_def SPECIAL_ID_SCHED_TIMEOUT_def)
  from tok.enc_inj [OF assms(1) this eq] have "co = SPECIAL_ID" by simp
  with assms(2) show False by (simp add: SPECIAL_ID_def STARTING_ID_def)
qed

theorem special_token_not_coroutine_witness:
  "ids_fit (Id 1) (EventSourceId 0) \<and> co_usize STARTING_ID \<le> co_usize (Id 1)
   \<and> token_from_ids True (Id 1) (EventSourceId 0)
       \<noteq> token_from_ids True SPECIAL_ID SPECIAL_ID_SCHED_TIMEOUT"
proof -
  have h1: "ids_fit (Id 1) (EventSourceId 0)" by (simp add: ids_fit_def)
  have h2: "co_usize STARTING_ID \<le> co_usize (Id 1)" by (simp add: STARTING_ID_def)
  show ?thesis using h1 h2 special_token_not_coroutine [OF h1 h2, of True] by simp
qed


end
