(* ===== verification/Mio_Api.thy ===== *)
theory Mio_Api
  imports Tokens
begin

text \<open>
  The code that mioco only calls: mio's event loop and channel, and the slab allocator. Both are
  parameters of the model, records of operations over an opaque state, and what the code relies
  on is a named hypothesis (\<open>mio_laws\<close>, \<open>slab_laws\<close>) over an abstraction function. The
  second half is \<open>sender_retry\<close> of \<^verbatim>\<open>src/src/mod.rs\<close>, the only way mioco puts a message
  into an event loop.

  \<^item> \<open>'el\<close> is the state of everything outside mioco: the event loops of all threads, the
    clock, the operating system scheduler. Threads are named by their index in \<open>senders\<close>.
  \<^item> \<open>'sl\<close> is the state of one slab.
\<close>

text \<open>The flags of \<open>mio::EventSet\<close> that mioco sets or tests.\<close>

record EventSet =
  is_readable :: bool
  is_writable :: bool
  is_hup :: bool

definition EventSet_none :: EventSet where
  "EventSet_none = \<lparr>is_readable = False, is_writable = False, is_hup = False\<rparr>"

definition EventSet_readable :: EventSet where
  "EventSet_readable = \<lparr>is_readable = True, is_writable = False, is_hup = False\<rparr>"

definition EventSet_writable :: EventSet where
  "EventSet_writable = \<lparr>is_readable = False, is_writable = True, is_hup = False\<rparr>"

definition EventSet_hup :: EventSet where
  "EventSet_hup = \<lparr>is_readable = False, is_writable = False, is_hup = True\<rparr>"

definition EventSet_or :: "EventSet \<Rightarrow> EventSet \<Rightarrow> EventSet" where
  "EventSet_or a b = \<lparr>is_readable = (is_readable a \<or> is_readable b),
     is_writable = (is_writable a \<or> is_writable b), is_hup = (is_hup a \<or> is_hup b)\<rparr>"

text \<open>Outcome of \<open>mio::Sender::send\<close>: \<open>Ok\<close> or one of the \<open>NotifyError\<close> cases.\<close>

datatype 'm send_result = SendOk | SendClosed | SendIo | SendFull 'm

type_synonym thread_id = nat
type_synonym raw_io = nat
type_synonym mio_timeout = nat
type_synonym instant = nat

record ('el, 'm) mio =
  mio_register :: "thread_id \<Rightarrow> raw_io \<Rightarrow> token \<Rightarrow> EventSet \<Rightarrow> 'el \<Rightarrow> bool \<times> 'el"
  mio_reregister :: "thread_id \<Rightarrow> raw_io \<Rightarrow> token \<Rightarrow> EventSet \<Rightarrow> 'el \<Rightarrow> bool \<times> 'el"
  mio_deregister :: "thread_id \<Rightarrow> raw_io \<Rightarrow> 'el \<Rightarrow> bool \<times> 'el"
  mio_timeout_ms :: "thread_id \<Rightarrow> token \<Rightarrow> u64 \<Rightarrow> 'el \<Rightarrow> mio_timeout option \<times> 'el"
  mio_clear_timeout :: "thread_id \<Rightarrow> mio_timeout \<Rightarrow> 'el \<Rightarrow> 'el"
  mio_send :: "thread_id \<Rightarrow> 'm \<Rightarrow> 'el \<Rightarrow> 'm send_result \<times> 'el"
  mio_shutdown :: "thread_id \<Rightarrow> 'el \<Rightarrow> 'el"
  thread_yield :: "'el \<Rightarrow> 'el"
  instant_now :: "'el \<Rightarrow> instant \<times> 'el"

record ('sl, 'a) slab =
  slab_new_starting_at :: "co_id \<Rightarrow> nat \<Rightarrow> 'sl"
  slab_has_remaining :: "'sl \<Rightarrow> bool"
  slab_count :: "'sl \<Rightarrow> nat"
  slab_remaining :: "'sl \<Rightarrow> nat"
  slab_grow :: "nat \<Rightarrow> 'sl \<Rightarrow> 'sl"
  slab_insert_with :: "(co_id \<Rightarrow> 'a) \<Rightarrow> 'sl \<Rightarrow> (co_id \<times> 'sl) option"
  slab_insert :: "'a \<Rightarrow> 'sl \<Rightarrow> (co_id \<times> 'sl) option"
  slab_remove :: "co_id \<Rightarrow> 'sl \<Rightarrow> ('a \<times> 'sl) option"
  slab_get :: "co_id \<Rightarrow> 'sl \<Rightarrow> 'a option"
  slab_contains :: "co_id \<Rightarrow> 'sl \<Rightarrow> bool"

text \<open>
  What the code relies on of mio, over the messages waiting in each event loop: a successful send
  appends the message to the mailbox of its thread, a full mailbox gives the message back, and
  no other operation touches a mailbox.
\<close>

definition mio_laws :: "('el, 'm) mio \<Rightarrow> ('el \<Rightarrow> thread_id \<Rightarrow> 'm list) \<Rightarrow> bool" where
  "mio_laws mio mail \<longleftrightarrow>
     (\<forall>t m e e'. mio_send mio t m e = (SendOk, e') \<longrightarrow> mail e' = (mail e)(t := mail e t @ [m]))
   \<and> (\<forall>t m m' e e'. mio_send mio t m e = (SendFull m', e') \<longrightarrow> m' = m \<and> mail e' = mail e)
   \<and> (\<forall>t r tk i e. mail (snd (mio_register mio t r tk i e)) = mail e)
   \<and> (\<forall>t r tk i e. mail (snd (mio_reregister mio t r tk i e)) = mail e)
   \<and> (\<forall>t r e. mail (snd (mio_deregister mio t r e)) = mail e)
   \<and> (\<forall>t tk d e. mail (snd (mio_timeout_ms mio t tk d e)) = mail e)
   \<and> (\<forall>t h e. mail (mio_clear_timeout mio t h e) = mail e)
   \<and> (\<forall>t e. mail (mio_shutdown mio t e) = mail e)
   \<and> (\<forall>e. mail (thread_yield mio e) = mail e)
   \<and> (\<forall>e. mail (snd (instant_now mio e)) = mail e)"

text \<open>
  What the code relies on of the slab, for the slabs that satisfy its own invariant \<open>ok\<close>: an
  insertion stores at an index that was free, a removal frees the index it is given, and every
  stored index lies in the range that \<open>Handler::shutdown\<close> walks.
\<close>

definition slab_laws :: "('sl, 'a) slab \<Rightarrow> ('sl \<Rightarrow> bool) \<Rightarrow> bool" where
  "slab_laws sl ok \<longleftrightarrow>
     (\<forall>n. ok (slab_new_starting_at sl STARTING_ID n)
          \<and> (\<forall>i. slab_get sl i (slab_new_starting_at sl STARTING_ID n) = None))
   \<and> (\<forall>n s. ok s \<longrightarrow> ok (slab_grow sl n s) \<and> (\<forall>i. slab_get sl i (slab_grow sl n s) = slab_get sl i s))
   \<and> (\<forall>x s i s'. ok s \<longrightarrow> slab_insert sl x s = Some (i, s') \<longrightarrow>
          ok s' \<and> slab_get sl i s = None
          \<and> (\<forall>j. slab_get sl j s' = (if j = i then Some x else slab_get sl j s)))
   \<and> (\<forall>f s i s'. ok s \<longrightarrow> slab_insert_with sl f s = Some (i, s') \<longrightarrow>
          ok s' \<and> slab_get sl i s = None
          \<and> (\<forall>j. slab_get sl j s' = (if j = i then Some (f i) else slab_get sl j s)))
   \<and> (\<forall>s. ok s \<longrightarrow> slab_has_remaining sl s \<longrightarrow>
          (\<forall>x. slab_insert sl x s \<noteq> None) \<and> (\<forall>f. slab_insert_with sl f s \<noteq> None))
   \<and> (\<forall>i s. ok s \<longrightarrow> slab_get sl i s = None \<longrightarrow> slab_remove sl i s = None)
   \<and> (\<forall>i s x. ok s \<longrightarrow> slab_get sl i s = Some x \<longrightarrow>
          (\<exists>s'. slab_remove sl i s = Some (x, s') \<and> ok s'
             \<and> (\<forall>j. slab_get sl j s' = (if j = i then None else slab_get sl j s))
             \<and> slab_count sl s' + slab_remaining sl s' = slab_count sl s + slab_remaining sl s))
   \<and> (\<forall>i s. ok s \<longrightarrow> slab_contains sl i s = (slab_get sl i s \<noteq> None))
   \<and> (\<forall>i s. ok s \<longrightarrow> slab_get sl i s \<noteq> None \<longrightarrow>
          (\<exists>k < slab_count sl s + slab_remaining sl s. i = Id (co_usize STARTING_ID + of_nat k)))"

text \<open>
  \<open>sender_retry\<close>: send until the event loop takes the message, giving up with a panic when the
  mailbox was full more than 20000 times. Each round either ends the loop or raises \<open>counter\<close>,
  which the guard bounds.
\<close>

function sender_retry_loop ::
  "('m \<Rightarrow> 'el \<Rightarrow> 'm send_result \<times> 'el) \<Rightarrow> ('el \<Rightarrow> 'el) \<Rightarrow> nat \<Rightarrow> 'm \<Rightarrow> 'el \<Rightarrow> 'el res" where
  "sender_retry_loop send yld counter msg e =
     (case send msg e of
        (SendOk, e') \<Rightarrow> Inr e'
      | (SendClosed, e') \<Rightarrow> Inl ChannelClosed
      | (SendIo, e') \<Rightarrow> Inl ChannelIoError
      | (SendFull retry_msg, e') \<Rightarrow>
          if counter + 1 > 20000 then Inl QueueFull
          else sender_retry_loop send yld (counter + 1) retry_msg (yld e'))"
  by pat_completeness auto
termination
  by (relation "measure (\<lambda>(send, yld, counter, msg, e). 20001 - counter)") auto

definition sender_retry :: "('el, 'm) mio \<Rightarrow> thread_id \<Rightarrow> 'm \<Rightarrow> 'el \<Rightarrow> 'el res" where
  "sender_retry mio t msg e = sender_retry_loop (mio_send mio t) (thread_yield mio) 0 msg e"

text \<open>The state after \<open>k\<close> rounds that all found the mailbox full, if there were that many.\<close>

fun full_rounds ::
  "('m \<Rightarrow> 'el \<Rightarrow> 'm send_result \<times> 'el) \<Rightarrow> ('el \<Rightarrow> 'el) \<Rightarrow> nat \<Rightarrow> 'm \<Rightarrow> 'el \<Rightarrow> ('m \<times> 'el) option" where
  "full_rounds send yld 0 msg e = Some (msg, e)"
| "full_rounds send yld (Suc k) msg e =
     (case send msg e of (SendFull m, e') \<Rightarrow> full_rounds send yld k m (yld e') | _ \<Rightarrow> None)"

declare sender_retry_loop.simps [simp del]

lemmas EventSet_defs [op_defs] = EventSet_none_def EventSet_readable_def EventSet_writable_def
  EventSet_hup_def EventSet_or_def

lemma sender_retry_loop_full:
  "send m e = (SendFull m1, e1) \<Longrightarrow>
   sender_retry_loop send yld c m e =
     (if c + 1 > 20000 then Inl QueueFull else sender_retry_loop send yld (c + 1) m1 (yld e1))"
  by (subst sender_retry_loop.simps) simp

lemma sender_retry_loop_done:
  "fst (send m e) \<in> {SendOk, SendClosed, SendIo} \<Longrightarrow>
   sender_retry_loop send yld c m e =
     (case fst (send m e) of SendOk \<Rightarrow> Inr (snd (send m e)) | SendClosed \<Rightarrow> Inl ChannelClosed
      | _ \<Rightarrow> Inl ChannelIoError)"
  by (subst sender_retry_loop.simps) (auto split: prod.splits)

lemma full_rounds_Suc_Some:
  "full_rounds send yld (Suc k) m e = Some r \<longleftrightarrow>
   (\<exists>m1 e1. send m e = (SendFull m1, e1) \<and> full_rounds send yld k m1 (yld e1) = Some r)"
  by (auto split: prod.splits send_result.splits)

lemma sender_retry_loop_rounds:
  assumes "full_rounds send yld k m e = Some (m1, e1)" and "c + k \<le> 20000"
  shows "sender_retry_loop send yld c m e = sender_retry_loop send yld (c + k) m1 e1"
  using assms
proof (induction k arbitrary: c m e)
  case 0
  then show ?case by simp
next
  case (Suc k)
  from Suc.prems(1) obtain m2 e2 where s: "send m e = (SendFull m2, e2)"
    and r: "full_rounds send yld k m2 (yld e2) = Some (m1, e1)"
    by (auto simp only: full_rounds_Suc_Some)
  from Suc.IH [OF r, of "c + 1"] Suc.prems(2) s show ?case
    by (simp add: sender_retry_loop_full)
qed

lemma sender_retry_loop_ok_rounds:
  assumes "sender_retry_loop send yld c m e = Inr e'" and "c \<le> 20000"
  shows "\<exists>k m1 e1. c + k \<le> 20000 \<and> full_rounds send yld k m e = Some (m1, e1)
           \<and> send m1 e1 = (SendOk, e')"
  using assms
proof (induction send yld c m e rule: sender_retry_loop.induct)
  case (1 send yld c m e)
  obtain r e1 where s: "send m e = (r, e1)" by (cases "send m e")
  show ?case
  proof (cases r)
    case SendOk
    with s "1.prems" have "send m e = (SendOk, e')" by (simp add: sender_retry_loop_done)
    with "1.prems"(2) show ?thesis
      by (intro exI [of _ 0] exI [of _ m] exI [of _ e]) simp
  next
    case (SendFull m1)
    with s "1.prems" have c: "c + 1 \<le> 20000"
      and l: "sender_retry_loop send yld (c + 1) m1 (yld e1) = Inr e'"
      by (auto simp: sender_retry_loop_full split: if_splits)
    from c have "\<not> c + 1 > 20000" by simp
    from "1.IH" [OF s [symmetric] SendFull this l c] obtain k m2 e2
      where "c + 1 + k \<le> 20000" "full_rounds send yld k m1 (yld e1) = Some (m2, e2)"
        "send m2 e2 = (SendOk, e')" by blast
    with s SendFull show ?thesis
      by (intro exI [of _ "Suc k"] exI [of _ m2] exI [of _ e2]) (simp add: full_rounds_Suc_Some)
  qed (use s "1.prems" in \<open>simp_all add: sender_retry_loop_done\<close>)
qed

lemma mio_laws_full: "mio_laws mio mail \<Longrightarrow> mio_send mio t m e = (SendFull m', e') \<Longrightarrow> m' = m \<and> mail e' = mail e"
  by (simp add: mio_laws_def)

lemma mio_laws_ok:
  "mio_laws mio mail \<Longrightarrow> mio_send mio t m e = (SendOk, e') \<Longrightarrow> mail e' = (mail e)(t := mail e t @ [m])"
  by (simp add: mio_laws_def)

lemma mio_laws_frame:
  assumes "mio_laws mio mail"
  shows "mail (snd (mio_register mio t r tk i e)) = mail e"
    and "mail (snd (mio_reregister mio t r tk i e)) = mail e"
    and "mail (snd (mio_deregister mio t r e)) = mail e"
    and "mail (snd (mio_timeout_ms mio t tk d e)) = mail e"
    and "mail (mio_clear_timeout mio t h e) = mail e"
    and "mail (mio_shutdown mio t e) = mail e"
    and "mail (thread_yield mio e) = mail e"
    and "mail (snd (instant_now mio e)) = mail e"
  using assms by (simp_all add: mio_laws_def)

lemma full_rounds_mail:
  assumes "mio_laws mio mail" and "full_rounds (mio_send mio t) (thread_yield mio) k m e = Some (m1, e1)"
  shows "m1 = m \<and> mail e1 = mail e"
  using assms(2)
proof (induction k arbitrary: m e)
  case 0
  then show ?case by simp
next
  case (Suc k)
  then obtain m2 e2 where s: "mio_send mio t m e = (SendFull m2, e2)"
    and r: "full_rounds (mio_send mio t) (thread_yield mio) k m2 (thread_yield mio e2) = Some (m1, e1)"
    by (auto simp only: full_rounds_Suc_Some)
  from mio_laws_full [OF assms(1) s] Suc.IH [OF r] show ?case
    by (simp add: mio_laws_frame [OF assms(1)])
qed

text \<open>What the clients of \<open>sender_retry\<close> use: it returns only when the message was delivered once.\<close>

lemma sender_retry_mail [frame]:
  assumes "mio_laws mio mail" and "sender_retry mio t m e = Inr e'"
  shows "mail e' = (mail e)(t := mail e t @ [m])"
proof -
  from assms(2) obtain k m1 e1
    where r: "full_rounds (mio_send mio t) (thread_yield mio) k m e = Some (m1, e1)"
      and s: "mio_send mio t m1 e1 = (SendOk, e')"
    unfolding sender_retry_def by (blast dest: sender_retry_loop_ok_rounds)
  from full_rounds_mail [OF assms(1) r] mio_laws_ok [OF assms(1) s] show ?thesis by simp
qed

text \<open>
  C37: \<open>sender_retry\<close> returns exactly when the event loop takes the message after at most 20000
  attempts that found its queue full.
\<close>

theorem sender_retry_ok_iff:
  "sender_retry mio t m e = Inr e' \<longleftrightarrow>
   (\<exists>k m1 e1. k \<le> 20000 \<and> full_rounds (mio_send mio t) (thread_yield mio) k m e = Some (m1, e1)
      \<and> mio_send mio t m1 e1 = (SendOk, e'))"
proof
  assume "sender_retry mio t m e = Inr e'"
  from sender_retry_loop_ok_rounds [OF this [unfolded sender_retry_def]]
  show "\<exists>k m1 e1. k \<le> 20000 \<and> full_rounds (mio_send mio t) (thread_yield mio) k m e = Some (m1, e1)
      \<and> mio_send mio t m1 e1 = (SendOk, e')" by simp
next
  assume "\<exists>k m1 e1. k \<le> 20000 \<and> full_rounds (mio_send mio t) (thread_yield mio) k m e = Some (m1, e1)
      \<and> mio_send mio t m1 e1 = (SendOk, e')"
  then show "sender_retry mio t m e = Inr e'"
    by (auto simp: sender_retry_def sender_retry_loop_rounds [where c = 0] sender_retry_loop_done)
qed

end
