(* ===== verification/Mpsc.thy ===== *)
theory Mpsc
  imports Mio_Api
begin

text \<open>
  The channels of \<^verbatim>\<open>src/src/sync/mpsc.rs\<close>. A channel couples a \<open>std::sync::mpsc\<close> queue with
  what wakes a blocked receiver: the token and event loop it registered (\<open>ChannelShared\<close>) and a
  counter of the messages sent. Every operation takes the channel and returns it updated; the
  operations that may wake the receiver take \<open>notify\<close>, the sending of a \<open>ChannelMsg\<close> to an event
  loop (\<open>sender_retry\<close> in the rest of the development), and thread the outside state \<open>'e\<close>.

  \<open>ch_arc\<close> counts the clones of \<open>Arc<SenderShared>\<close> and \<open>ch_std\<close> those of the native sender;
  a \<open>Sender\<close> holds one of each and drops them in that order.
\<close>

record 'v chan =
  ch_token :: "token option"
  ch_sender :: "thread_id option"
  ch_counter :: usize
  ch_queue :: "'v list"
  ch_bound :: "nat option"
  ch_arc :: nat
  ch_std :: nat
  ch_rx :: bool

datatype 'v send_ret = SendDone | SendError 'v

datatype 'v try_recv_ret = RecvOk 'v | RecvEmpty | RecvDisconnected

definition channel :: "'v chan" where
  "channel = \<lparr>ch_token = None, ch_sender = None, ch_counter = 0, ch_queue = [], ch_bound = None,
     ch_arc = 1, ch_std = 1, ch_rx = True\<rparr>"

definition sync_channel :: "nat \<Rightarrow> 'v chan" where
  "sync_channel bound = \<lparr>ch_token = None, ch_sender = None, ch_counter = 0, ch_queue = [],
     ch_bound = Some bound, ch_arc = 1, ch_std = 1, ch_rx = True\<rparr>"

text \<open>The native channel: push, and whether a bounded queue has no room.\<close>

definition std_push :: "'v \<Rightarrow> 'v chan \<Rightarrow> 'v chan" where
  "std_push t ch = ch\<lparr>ch_queue := ch_queue ch @ [t]\<rparr>"

definition std_full :: "'v chan \<Rightarrow> bool" where
  "std_full ch = (case ch_bound ch of None \<Rightarrow> False | Some b \<Rightarrow> b \<le> length (ch_queue ch))"

definition std_try_recv :: "'v chan \<Rightarrow> 'v try_recv_ret \<times> 'v chan" where
  "std_try_recv ch =
     (case ch_queue ch of
        t # q \<Rightarrow> (RecvOk t, ch\<lparr>ch_queue := q\<rparr>)
      | [] \<Rightarrow> (if ch_std ch = 0 then RecvDisconnected else RecvEmpty, ch))"

definition counter_fetch_add :: "'v chan \<Rightarrow> usize \<times> 'v chan" where
  "counter_fetch_add ch = (ch_counter ch, ch\<lparr>ch_counter := ch_counter ch + 1\<rparr>)"

definition counter_fetch_sub :: "'v chan \<Rightarrow> 'v chan" where
  "counter_fetch_sub ch = ch\<lparr>ch_counter := ch_counter ch - 1\<rparr>"

definition maybe_notify_receiver ::
  "(thread_id \<Rightarrow> token \<Rightarrow> 'e \<Rightarrow> 'e res) \<Rightarrow> 'v chan \<Rightarrow> 'e \<Rightarrow> 'e res" where
  "maybe_notify_receiver notify ch e =
     (case ch_token ch of
        Some token \<Rightarrow> bindR (unwrap (ch_sender ch)) (\<lambda>sender. notify sender token e)
      | None \<Rightarrow> Inr e)"

text \<open>The increment every send and the last drop of a sender end with.\<close>

definition count_and_notify ::
  "(thread_id \<Rightarrow> token \<Rightarrow> 'e \<Rightarrow> 'e res) \<Rightarrow> 'v chan \<Rightarrow> 'e \<Rightarrow> ('v chan \<times> 'e) res" where
  "count_and_notify notify ch e =
     (let (prev_counter, ch') = counter_fetch_add ch
      in if prev_counter = 0 then bindR (maybe_notify_receiver notify ch' e) (\<lambda>e'. Inr (ch', e'))
         else Inr (ch', e))"

definition Sender_send ::
  "(thread_id \<Rightarrow> token \<Rightarrow> 'e \<Rightarrow> 'e res) \<Rightarrow> 'v \<Rightarrow> 'v chan \<Rightarrow> 'e \<Rightarrow> ('v send_ret \<times> 'v chan \<times> 'e) res" where
  "Sender_send notify t ch e =
     (if \<not> ch_rx ch then Inr (SendError t, ch, e)
      else bindR (count_and_notify notify (std_push t ch) e) (\<lambda>(ch', e'). Inr (SendDone, ch', e')))"

text \<open>
  One round of \<open>SyncSender::send\<close>. \<open>pause\<close> is what happens between two attempts on a full channel:
  inside a coroutine \<open>yield_now\<close>, outside the native blocking wait. It is everything the other
  coroutines and threads do meanwhile, and it panics when the coroutine is killed.
\<close>

definition SyncSender_round ::
  "(thread_id \<Rightarrow> token \<Rightarrow> 'e \<Rightarrow> 'e res) \<Rightarrow> ('v chan \<Rightarrow> 'e \<Rightarrow> ('v chan \<times> 'e) res) \<Rightarrow> 'v \<Rightarrow>
   'v chan \<times> 'e \<Rightarrow> ('v send_ret \<times> 'v chan \<times> 'e) res + ('v chan \<times> 'e)" where
  "SyncSender_round notify pause t = (\<lambda>(ch, e).
     if \<not> ch_rx ch then Inl (Inr (SendError t, ch, e))
     else if std_full ch then
       (case pause ch e of Inl p \<Rightarrow> Inl (Inl p) | Inr (ch', e') \<Rightarrow> Inr (ch', e'))
     else Inl (bindR (count_and_notify notify (std_push t ch) e) (\<lambda>(ch', e'). Inr (SendDone, ch', e'))))"

definition SyncSender_send ::
  "bool \<Rightarrow> (thread_id \<Rightarrow> token \<Rightarrow> 'e \<Rightarrow> 'e res) \<Rightarrow> ('v chan \<Rightarrow> 'e \<Rightarrow> ('v chan \<times> 'e) res) \<Rightarrow>
   ('v chan \<Rightarrow> 'e \<Rightarrow> ('v chan \<times> 'e) res) \<Rightarrow> 'v \<Rightarrow> 'v chan \<Rightarrow> 'e \<Rightarrow>
   ('v send_ret \<times> 'v chan \<times> 'e) res option" where
  "SyncSender_send in_co notify yield_now native_wait t ch e =
     rust_loop (SyncSender_round notify (if in_co then yield_now else native_wait) t) (ch, e)"

definition Sender_clone :: "'v chan \<Rightarrow> 'v chan" where
  "Sender_clone ch = ch\<lparr>ch_arc := ch_arc ch + 1, ch_std := ch_std ch + 1\<rparr>"

text \<open>
  Dropping one \<open>Sender\<close>: first its \<open>Arc<SenderShared>\<close>, whose last owner runs
  \<open>SenderShared::drop\<close>, then the native sender.
\<close>

definition drop_shared ::
  "(thread_id \<Rightarrow> token \<Rightarrow> 'e \<Rightarrow> 'e res) \<Rightarrow> 'v chan \<Rightarrow> 'e \<Rightarrow> ('v chan \<times> 'e) res" where
  "drop_shared notify ch e =
     (let ch' = ch\<lparr>ch_arc := ch_arc ch - 1\<rparr>
      in if ch_arc ch = 1 then count_and_notify notify ch' e else Inr (ch', e))"

definition drop_std :: "'v chan \<Rightarrow> 'v chan" where
  "drop_std ch = ch\<lparr>ch_std := ch_std ch - 1\<rparr>"

definition Sender_drop ::
  "(thread_id \<Rightarrow> token \<Rightarrow> 'e \<Rightarrow> 'e res) \<Rightarrow> 'v chan \<Rightarrow> 'e \<Rightarrow> ('v chan \<times> 'e) res" where
  "Sender_drop notify ch e = bindR (drop_shared notify ch e) (\<lambda>(ch', e'). Inr (drop_std ch', e'))"

text \<open>Dropping the \<open>Receiver\<close> drops the native receiver: later sends fail.\<close>

definition Receiver_drop :: "'v chan \<Rightarrow> 'v chan" where
  "Receiver_drop ch = ch\<lparr>ch_rx := False\<rparr>"

definition try_recv :: "'v chan \<Rightarrow> 'v try_recv_ret \<times> 'v chan" where
  "try_recv ch =
     (let (res, ch') = std_try_recv ch
      in case res of RecvOk t \<Rightarrow> (res, counter_fetch_sub ch') | _ \<Rightarrow> (res, ch'))"

definition empty_shared_token :: "'v chan \<Rightarrow> bool" where
  "empty_shared_token ch = (ch_token ch = None)"

text \<open>
  One round of \<open>Receiver::recv\<close> inside a coroutine, and of the native blocking receive it falls
  back to outside one; the result \<open>None\<close> is \<open>RecvError\<close>.
\<close>

definition recv_round ::
  "bool \<Rightarrow> ('v chan \<Rightarrow> 'e \<Rightarrow> ('v chan \<times> 'e) res) \<Rightarrow>
   'v chan \<times> 'e \<Rightarrow> ('v option \<times> 'v chan \<times> 'e) res + ('v chan \<times> 'e)" where
  "recv_round dbg block_on = (\<lambda>(ch, e).
     case try_recv ch of
       (RecvEmpty, ch') \<Rightarrow>
         (case bindR (block_on ch' e) (\<lambda>(ch'', e'').
             bindR (debug_assert dbg (empty_shared_token ch'')) (\<lambda>_. Inr (ch'', e''))) of
            Inl p \<Rightarrow> Inl (Inl p) | Inr s \<Rightarrow> Inr s)
     | (RecvDisconnected, ch') \<Rightarrow> Inl (Inr (None, ch', e))
     | (RecvOk t, ch') \<Rightarrow> Inl (Inr (Some t, ch', e)))"

definition native_recv_round ::
  "('v chan \<Rightarrow> 'e \<Rightarrow> ('v chan \<times> 'e) res) \<Rightarrow>
   'v chan \<times> 'e \<Rightarrow> ('v option \<times> 'v chan \<times> 'e) res + ('v chan \<times> 'e)" where
  "native_recv_round native_wait = (\<lambda>(ch, e).
     case std_try_recv ch of
       (RecvEmpty, ch') \<Rightarrow> (case native_wait ch' e of Inl p \<Rightarrow> Inl (Inl p) | Inr s \<Rightarrow> Inr s)
     | (RecvDisconnected, ch') \<Rightarrow> Inl (Inr (None, ch', e))
     | (RecvOk t, ch') \<Rightarrow> Inl (Inr (Some t, ch', e)))"

definition Receiver_recv ::
  "bool \<Rightarrow> bool \<Rightarrow> ('v chan \<Rightarrow> 'e \<Rightarrow> ('v chan \<times> 'e) res) \<Rightarrow> ('v chan \<Rightarrow> 'e \<Rightarrow> ('v chan \<times> 'e) res) \<Rightarrow>
   'v chan \<Rightarrow> 'e \<Rightarrow> ('v option \<times> 'v chan \<times> 'e) res option" where
  "Receiver_recv dbg in_co block_on native_wait ch e =
     (if in_co then rust_loop (recv_round dbg block_on) (ch, e)
      else rust_loop (native_recv_round native_wait) (ch, e))"

text \<open>\<open>EventSourceTrait\<close> for \<open>ReceiverCore\<close>; \<open>thread\<close> is the event loop's own channel.\<close>

definition Receiver_register ::
  "bool \<Rightarrow> thread_id \<Rightarrow> token \<Rightarrow> EventSet \<Rightarrow> 'v chan \<Rightarrow> (bool \<times> 'v chan) res" where
  "Receiver_register dbg thread token interest ch =
     bindR (debug_assert dbg (is_readable interest)) (\<lambda>_.
       let lock = ch\<lparr>ch_token := Some token, ch_sender := Some thread\<rparr>
       in if ch_counter ch \<noteq> 0 then Inr (True, lock\<lparr>ch_token := None\<rparr>) else Inr (False, lock))"

definition Receiver_reregister ::
  "bool \<Rightarrow> token \<Rightarrow> EventSet \<Rightarrow> 'v chan \<Rightarrow> (bool \<times> 'v chan) res" where
  "Receiver_reregister dbg token interest ch =
     bindR (debug_assert dbg (is_readable interest)) (\<lambda>_.
     bindR (debug_assert dbg (ch_token ch \<noteq> None)) (\<lambda>_.
     bindR (debug_assert dbg (ch_sender ch \<noteq> None)) (\<lambda>_.
       if ch_counter ch \<noteq> 0 then Inr (True, ch\<lparr>ch_token := None\<rparr>) else Inr (False, ch))))"

definition Receiver_deregister :: "'v chan \<Rightarrow> 'v chan" where
  "Receiver_deregister ch = ch\<lparr>ch_token := None, ch_sender := None\<rparr>"

text \<open>
  The invariant the counter is meant to keep while the receiver uses \<open>try_recv\<close> or receives inside
  a coroutine: it counts the queued messages, plus one once the last sender is gone. A registered
  token always comes with the event loop to notify.
\<close>

definition chan_ok :: "'v chan \<Rightarrow> bool" where
  "chan_ok ch \<longleftrightarrow>
     ch_counter ch = of_nat (length (ch_queue ch) + (if ch_arc ch = 0 then 1 else 0))
   \<and> (ch_token ch \<noteq> None \<longrightarrow> ch_sender ch \<noteq> None)"

text \<open>
  What the holders of a channel do with it, what they sent and what they received: a script of
  sends and receives run with any send and receive operation.
\<close>

datatype 'v chan_op = OpSend 'v | OpTryRecv

fun sent :: "'v chan_op list \<Rightarrow> 'v list" where
  "sent [] = []"
| "sent (OpSend v # ops) = v # sent ops"
| "sent (OpTryRecv # ops) = sent ops"

fun run_ops :: "('v \<Rightarrow> 'c \<Rightarrow> 'c) \<Rightarrow> ('c \<Rightarrow> 'v option \<times> 'c) \<Rightarrow> 'v chan_op list \<Rightarrow> 'c \<Rightarrow> 'v list \<times> 'c" where
  "run_ops snd_op rcv_op [] c = ([], c)"
| "run_ops snd_op rcv_op (OpSend v # ops) c = run_ops snd_op rcv_op ops (snd_op v c)"
| "run_ops snd_op rcv_op (OpTryRecv # ops) c =
     (let (r, c') = rcv_op c; (rs, c'') = run_ops snd_op rcv_op ops c'
      in (case r of None \<Rightarrow> rs | Some v \<Rightarrow> v # rs, c''))"

text \<open>The two operations on a channel and the outside state, where the notification succeeds.\<close>

definition chan_send :: "(thread_id \<Rightarrow> token \<Rightarrow> 'e \<Rightarrow> 'e) \<Rightarrow> 'v \<Rightarrow> 'v chan \<times> 'e \<Rightarrow> 'v chan \<times> 'e" where
  "chan_send f v = (\<lambda>(ch, e). case Sender_send (\<lambda>t tk e. Inr (f t tk e)) v ch e of
     Inl p \<Rightarrow> (ch, e) | Inr (r, ch', e') \<Rightarrow> (ch', e'))"

definition chan_recv :: "'v chan \<times> 'e \<Rightarrow> 'v option \<times> ('v chan \<times> 'e)" where
  "chan_recv = (\<lambda>(ch, e). case try_recv ch of
     (RecvOk v, ch') \<Rightarrow> (Some v, (ch', e)) | (_, ch') \<Rightarrow> (None, (ch', e)))"

text \<open>
  A first-in-first-out channel as its clients see it: what is waiting in it, a send that appends,
  a receive that takes from the front. Proved once: whatever the interleaving of sends and
  receives, what was received followed by what is waiting is what was sent.
\<close>

locale fifo_channel =
  fixes contents :: "'c \<Rightarrow> 'v list"
    and ok :: "'c \<Rightarrow> bool"
    and snd_op :: "'v \<Rightarrow> 'c \<Rightarrow> 'c"
    and rcv_op :: "'c \<Rightarrow> 'v option \<times> 'c"
  assumes ok_snd: "ok c \<Longrightarrow> ok (snd_op v c)"
    and ok_rcv: "ok c \<Longrightarrow> ok (snd (rcv_op c))"
    and contents_snd: "ok c \<Longrightarrow> contents (snd_op v c) = contents c @ [v]"
    and rcv_empty: "ok c \<Longrightarrow> contents c = [] \<Longrightarrow> fst (rcv_op c) = None \<and> contents (snd (rcv_op c)) = []"
    and rcv_cons: "ok c \<Longrightarrow> contents c = v # vs \<Longrightarrow>
          fst (rcv_op c) = Some v \<and> contents (snd (rcv_op c)) = vs"
begin

lemma run_fifo: "ok c \<Longrightarrow> fst (run_ops snd_op rcv_op ops c) @ contents (snd (run_ops snd_op rcv_op ops c)) = contents c @ sent ops"
proof (induction ops arbitrary: c)
  case Nil
  then show ?case by simp
next
  case (Cons x ops)
  show ?case
  proof (cases x)
    case (OpSend v)
    with Cons show ?thesis by (simp add: ok_snd contents_snd)
  next
    case OpTryRecv
    note IH = Cons.IH [OF ok_rcv [OF Cons.prems]]
    show ?thesis
    proof (cases "contents c")
      case Nil
      with rcv_empty [OF Cons.prems Nil] IH OpTryRecv show ?thesis by (simp add: split_beta)
    next
      case (Cons v vs)
      from rcv_cons [OF \<open>ok c\<close> this] IH OpTryRecv Cons show ?thesis by (simp add: split_beta)
    qed
  qed
qed

lemma run_received_prefix: "ok c \<Longrightarrow> contents c = [] \<Longrightarrow> \<exists>rest. sent ops = fst (run_ops snd_op rcv_op ops c) @ rest"
  using run_fifo [of c ops] by (intro exI [of _ "contents (snd (run_ops snd_op rcv_op ops c))"]) simp

end

lemmas chan_op_defs [op_defs] = std_push_def counter_fetch_add_def counter_fetch_sub_def
  count_and_notify_def maybe_notify_receiver_def Sender_clone_def drop_shared_def drop_std_def
  Receiver_deregister_def empty_shared_token_def

lemma chan_ok_initial: "chan_ok channel" "chan_ok (sync_channel b)"
  by (simp_all add: chan_ok_def channel_def sync_channel_def)

lemma chan_ok_clone: "chan_ok ch \<Longrightarrow> 0 < ch_arc ch \<Longrightarrow> chan_ok (Sender_clone ch)"
  by (simp add: chan_ok_def Sender_clone_def)

lemma count_and_notify_chan:
  "count_and_notify notify ch e = Inr (ch', e') \<Longrightarrow> ch' = ch\<lparr>ch_counter := ch_counter ch + 1\<rparr>"
  by (auto simp: count_and_notify_def counter_fetch_add_def bindR_eq_Inr split: if_splits)

lemma Sender_send_chan:
  "Sender_send notify t ch e = Inr (r, ch', e') \<Longrightarrow>
   (if ch_rx ch then r = SendDone \<and> ch' = ch\<lparr>ch_queue := ch_queue ch @ [t], ch_counter := ch_counter ch + 1\<rparr>
    else r = SendError t \<and> ch' = ch \<and> e' = e)"
  by (auto simp: Sender_send_def std_push_def bindR_eq_Inr dest!: count_and_notify_chan)

lemma chan_ok_send [inv_pres]:
  "chan_ok ch \<Longrightarrow> Sender_send notify t ch e = Inr (r, ch', e') \<Longrightarrow> chan_ok ch'"
  by (drule Sender_send_chan) (auto simp: chan_ok_def algebra_simps split: if_splits)

lemma chan_ok_drop_shared [inv_pres]:
  "chan_ok ch \<Longrightarrow> drop_shared notify ch e = Inr (ch', e') \<Longrightarrow> chan_ok ch'"
  by (auto simp: drop_shared_def chan_ok_def Let_def dest!: count_and_notify_chan split: if_splits)

lemma chan_ok_drop_std [inv_pres]: "chan_ok ch \<Longrightarrow> chan_ok (drop_std ch)"
  by (simp add: drop_std_def chan_ok_def)

lemma chan_ok_drop [inv_pres]:
  "chan_ok ch \<Longrightarrow> Sender_drop notify ch e = Inr (ch', e') \<Longrightarrow> chan_ok ch'"
  by (auto simp: Sender_drop_def bindR_eq_Inr dest: chan_ok_drop_shared chan_ok_drop_std)

lemma try_recv_cases:
  "try_recv ch =
     (case ch_queue ch of
        t # q \<Rightarrow> (RecvOk t, ch\<lparr>ch_queue := q, ch_counter := ch_counter ch - 1\<rparr>)
      | [] \<Rightarrow> (if ch_std ch = 0 then RecvDisconnected else RecvEmpty, ch))"
  by (auto simp: try_recv_def std_try_recv_def counter_fetch_sub_def split: list.splits)

lemma chan_ok_try_recv [inv_pres]: "chan_ok ch \<Longrightarrow> chan_ok (snd (try_recv ch))"
  by (auto simp: try_recv_cases chan_ok_def split: list.splits)

lemma chan_ok_register [inv_pres]:
  "chan_ok ch \<Longrightarrow> Receiver_register dbg th tk i ch = Inr (b, ch') \<Longrightarrow> chan_ok ch'"
  by (auto simp: Receiver_register_def chan_ok_def bindR_eq_Inr Let_def split: if_splits)

lemma chan_ok_deregister [inv_pres]: "chan_ok ch \<Longrightarrow> chan_ok (Receiver_deregister ch)"
  by (simp add: chan_ok_def Receiver_deregister_def)

lemma chan_ok_counter_zero:
  assumes "chan_ok ch" and "length (ch_queue ch) < 2 ^ 64 - 1"
  shows "ch_counter ch = 0 \<longleftrightarrow> ch_queue ch = [] \<and> ch_arc ch \<noteq> 0"
proof -
  let ?n = "length (ch_queue ch) + (if ch_arc ch = 0 then 1 else 0)"
  have "?n < 2 ^ 64" using assms(2) by simp
  then have "(of_nat ?n :: usize) = 0 \<longleftrightarrow> ?n = 0"
    by (rule usize_of_nat_eq_0)
  with assms(1) show ?thesis by (simp add: chan_ok_def)
qed

lemma Sender_send_total:
  "chan_ok ch \<Longrightarrow> ch_rx ch \<Longrightarrow>
   \<exists>e'. Sender_send (\<lambda>t tk e. Inr (f t tk e)) v ch e =
     Inr (SendDone, ch\<lparr>ch_queue := ch_queue ch @ [v], ch_counter := ch_counter ch + 1\<rparr>, e')"
  by (auto simp: Sender_send_def count_and_notify_def counter_fetch_add_def std_push_def
      maybe_notify_receiver_def chan_ok_def split: option.splits)

lemma chan_send_eq:
  "chan_ok ch \<Longrightarrow> ch_rx ch \<Longrightarrow>
   fst (chan_send f v (ch, e)) = ch\<lparr>ch_queue := ch_queue ch @ [v], ch_counter := ch_counter ch + 1\<rparr>"
  using Sender_send_total [of ch f v e] by (auto simp: chan_send_def)

lemma chan_recv_eq:
  "chan_recv (ch, e) = (case ch_queue ch of [] \<Rightarrow> (None, (ch, e))
     | v # q \<Rightarrow> (Some v, (ch\<lparr>ch_queue := q, ch_counter := ch_counter ch - 1\<rparr>, e)))"
  by (simp add: chan_recv_def try_recv_cases split: list.splits)

lemma chan_send_ok:
  "chan_ok (fst c) \<and> ch_rx (fst c) \<Longrightarrow>
   chan_ok (fst (chan_send f v c)) \<and> ch_rx (fst (chan_send f v c))"
  by (cases c) (auto simp: chan_send_eq, simp add: chan_ok_def algebra_simps)

lemma chan_send_queue:
  "chan_ok (fst c) \<and> ch_rx (fst c) \<Longrightarrow> ch_queue (fst (chan_send f v c)) = ch_queue (fst c) @ [v]"
  by (cases c) (simp add: chan_send_eq)

lemma chan_recv_ok:
  "chan_ok (fst c) \<and> ch_rx (fst c) \<Longrightarrow>
   chan_ok (fst (snd (chan_recv c))) \<and> ch_rx (fst (snd (chan_recv c)))"
  by (cases c) (auto simp: chan_recv_eq chan_ok_def split: list.splits)

text \<open>
  The channel of the code is a first-in-first-out channel: the interface's laws for the code's own
  send and receive, on channels whose counter is right and whose receiver is alive.
\<close>

interpretation chan: fifo_channel "\<lambda>c. ch_queue (fst c)" "\<lambda>c. chan_ok (fst c) \<and> ch_rx (fst c)"
  "chan_send f" chan_recv for f
proof (unfold_locales, goal_cases)
  case 1
  then show ?case by (rule chan_send_ok)
next
  case 2
  then show ?case by (rule chan_recv_ok)
next
  case 3
  then show ?case by (rule chan_send_queue)
qed (auto simp: chan_recv_eq)

text \<open>
  C20: whatever the interleaving of sends and receives on a channel, the messages received are, in
  order, the messages sent: what was received followed by what is still queued is what was queued
  at the start followed by what was sent.
\<close>

theorem channel_fifo:
  assumes "chan_ok ch" and "ch_rx ch"
  shows "fst (run_ops (chan_send f) chan_recv ops (ch, e))
           @ ch_queue (fst (snd (run_ops (chan_send f) chan_recv ops (ch, e))))
         = ch_queue ch @ sent ops"
  using chan.run_fifo [of "(ch, e)" f ops] assms by simp

theorem channel_fifo_witness:
  "chan_ok (channel :: nat chan) \<and> ch_rx (channel :: nat chan)
   \<and> fst (run_ops (chan_send (\<lambda>t tk e. e)) chan_recv [OpSend 4, OpTryRecv, OpSend 5] (channel, ()))
       @ ch_queue (fst (snd (run_ops (chan_send (\<lambda>t tk e. e)) chan_recv
            [OpSend 4, OpTryRecv, OpSend 5] (channel :: nat chan, ()))))
       = [4, 5]"
proof -
  have h: "chan_ok (channel :: nat chan)" "ch_rx (channel :: nat chan)"
    by (rule chan_ok_initial, simp add: channel_def)
  show ?thesis
    using h channel_fifo [OF h, of "\<lambda>t tk e. e" "[OpSend 4, OpTryRecv, OpSend 5]" "()"]
    by (simp add: channel_def)
qed

text \<open>
  A receiver that registers is told to wake at once exactly when a receive would not block: when
  a message is queued or the last sender is gone. In the first case its token is withdrawn again;
  otherwise the token and the event loop to notify are left for the senders.
\<close>

theorem register_ready_iff:
  assumes "chan_ok ch" and "length (ch_queue ch) < 2 ^ 64 - 1"
    and "Receiver_register dbg th tk interest ch = Inr (ready, ch')"
  shows "(ready \<longleftrightarrow> ch_queue ch \<noteq> [] \<or> ch_arc ch = 0)
    \<and> ch_token ch' = (if ready then None else Some tk) \<and> ch_sender ch' = Some th
    \<and> ch_queue ch' = ch_queue ch \<and> ch_counter ch' = ch_counter ch"
  using assms(3) chan_ok_counter_zero [OF assms(1,2)]
  by (auto simp: Receiver_register_def bindR_eq_Inr Let_def split: if_splits)

theorem register_ready_iff_witness:
  "\<exists>ch'. Receiver_register True 0 1024 EventSet_readable (std_push (7 :: nat) (channel\<lparr>ch_counter := 1\<rparr>))
      = Inr (True, ch')
    \<and> ch_token ch' = None \<and> ch_queue ch' = [7]"
proof -
  let ?c = "std_push (7 :: nat) (channel\<lparr>ch_counter := 1\<rparr>)"
  let ?d = "?c\<lparr>ch_sender := Some 0\<rparr>"
  have a: "chan_ok ?c" by (simp add: chan_ok_def std_push_def channel_def)
  have b: "length (ch_queue ?c) < 2 ^ 64 - 1" by (simp add: std_push_def channel_def)
  have c: "Receiver_register True 0 1024 EventSet_readable ?c = Inr (True, ?d)"
    by (simp add: Receiver_register_def std_push_def channel_def EventSet_readable_def)
  show ?thesis
    using register_ready_iff [OF a b c] c by (auto simp: std_push_def channel_def)
qed

text \<open>
  Inside a coroutine, \<open>recv\<close> on a channel with a queued message returns its first message without
  blocking, and on a drained channel whose senders are all gone it reports the disconnection.
\<close>

theorem recv_immediate:
  "(ch_queue ch = t # q \<longrightarrow>
      Receiver_recv dbg True block_on native_wait ch e =
        Some (Inr (Some t, ch\<lparr>ch_queue := q, ch_counter := ch_counter ch - 1\<rparr>, e)))
   \<and> (ch_queue ch = [] \<and> ch_std ch = 0 \<longrightarrow>
      Receiver_recv dbg True block_on native_wait ch e = Some (Inr (None, ch, e)))"
  by (simp add: Receiver_recv_def rust_loop.simps [of _ "(ch, e)"] recv_round_def try_recv_cases)

theorem recv_immediate_witness:
  "Receiver_recv True True (\<lambda>c e. Inr (c, e)) (\<lambda>c e. Inr (c, e)) (std_push (7 :: nat) channel) ()
     = Some (Inr (Some 7, (std_push 7 channel)\<lparr>ch_queue := [], ch_counter := - 1\<rparr>, ()))"
  using recv_immediate [of "std_push (7 :: nat) channel" 7 "[]" True "\<lambda>c e. Inr (c, e)" "\<lambda>c e. Inr (c, e)" "()"]
  by (simp add: std_push_def channel_def)

text \<open>
  What \<open>recv\<close> inside a coroutine returns was the front of the queue in a state it reached by
  blocking; nothing is lost or reordered on the way, and the rest of the queue stays.
\<close>

theorem recv_takes_front:
  assumes "Receiver_recv dbg True block_on native_wait ch e = Some (Inr (Some t, ch', e'))"
  shows "\<exists>n ch0. rounds (recv_round dbg block_on) n (ch, e) = Some (ch0, e')
    \<and> ch_queue ch0 = t # ch_queue ch' \<and> ch_counter ch' = ch_counter ch0 - 1"
proof -
  from assms obtain n s where r: "rounds (recv_round dbg block_on) n (ch, e) = Some s"
    and b: "recv_round dbg block_on s = Inl (Inr (Some t, ch', e'))"
    by (auto simp: Receiver_recv_def rust_loop_Some_iff)
  obtain ch0 e0 where s: "s = (ch0, e0)" by (cases s)
  from b s have "e0 = e' \<and> ch_queue ch0 = t # ch_queue ch' \<and> ch_counter ch' = ch_counter ch0 - 1"
    by (auto simp: recv_round_def try_recv_cases split: list.splits if_splits sum.splits)
  with r s show ?thesis by blast
qed

theorem recv_takes_front_witness:
  "\<exists>n ch0. rounds (recv_round True (\<lambda>c e. Inr (std_push 9 c, e))) n (channel :: nat chan, ()) = Some (ch0, ())
    \<and> ch_queue ch0 = [9]"
proof -
  let ?b = "\<lambda>(c :: nat chan) (e :: unit). (Inr (std_push 9 c, e) :: (nat chan \<times> unit) res)"
  have "Receiver_recv True True ?b ?b channel () =
      Some (Inr (Some 9, channel\<lparr>ch_counter := - 1\<rparr>, ()))"
    by (simp add: Receiver_recv_def rust_loop.simps recv_round_def try_recv_cases std_push_def
        empty_shared_token_def channel_def)
  from recv_takes_front [OF this] show ?thesis by (auto simp: channel_def)
qed

text \<open>
  C36: a message taken by the native receive (\<open>recv\<close> outside a coroutine) is not taken off the
  counter. A later registration of the drained receiver is then told to wake at once although a
  receive finds the channel empty: inside a coroutine such a receiver spins instead of blocking.
\<close>

theorem native_recv_keeps_counter:
  assumes "chan_ok ch" and "ch_queue ch = [t]" and "0 < ch_arc ch" and "0 < ch_std ch"
    and "is_readable interest"
  shows "\<exists>ch1 ch2. Receiver_recv dbg False block_on native_wait ch e = Some (Inr (Some t, ch1, e))
    \<and> fst (try_recv ch1) = RecvEmpty
    \<and> Receiver_register dbg th tk interest ch1 = Inr (True, ch2)"
proof -
  let ?ch1 = "ch\<lparr>ch_queue := []\<rparr>"
  have "Receiver_recv dbg False block_on native_wait ch e = Some (Inr (Some t, ?ch1, e))"
    using assms(2) by (simp add: Receiver_recv_def rust_loop.simps [of _ "(ch, e)"]
        native_recv_round_def std_try_recv_def)
  moreover have "fst (try_recv ?ch1) = RecvEmpty"
    using assms(4) by (simp add: try_recv_cases)
  moreover have "\<exists>ch2. Receiver_register dbg th tk interest ?ch1 = Inr (True, ch2)"
    using assms by (simp add: Receiver_register_def chan_ok_def)
  ultimately show ?thesis by blast
qed

theorem native_recv_keeps_counter_witness:
  "\<exists>ch1 ch2. Receiver_recv True False (\<lambda>c e. Inr (c, e)) (\<lambda>c e. Inr (c, e))
        (std_push (7 :: nat) (channel\<lparr>ch_counter := 1\<rparr>)) () = Some (Inr (Some 7, ch1, ()))
    \<and> fst (try_recv ch1) = RecvEmpty
    \<and> Receiver_register True 0 1024 EventSet_readable ch1 = Inr (True, ch2)"
  by (rule native_recv_keeps_counter)
    (simp_all add: chan_ok_def std_push_def channel_def EventSet_readable_def)



text \<open>
  On a bounded channel with room, \<open>SyncSender::send\<close> delivers at once, and the queue never holds
  more than the bound.
\<close>

theorem sync_send_bounded:
  assumes "SyncSender_send in_co notify yield_now native_wait t ch e = Some (Inr (SendDone, ch', e'))"
    and "ch_bound ch = Some b" and "length (ch_queue ch) \<le> b"
    and "\<And>c x c' x'. yield_now c x = Inr (c', x') \<Longrightarrow> ch_bound c = Some b \<Longrightarrow> length (ch_queue c) \<le> b
           \<Longrightarrow> ch_bound c' = Some b \<and> length (ch_queue c') \<le> b"
    and "\<And>c x c' x'. native_wait c x = Inr (c', x') \<Longrightarrow> ch_bound c = Some b \<Longrightarrow> length (ch_queue c) \<le> b
           \<Longrightarrow> ch_bound c' = Some b \<and> length (ch_queue c') \<le> b"
  shows "length (ch_queue ch') \<le> b \<and> ch_queue ch' \<noteq> [] \<and> last (ch_queue ch') = t"
proof -
  let ?P = "\<lambda>(c :: 'a chan, x :: 'b). ch_bound c = Some b \<and> length (ch_queue c) \<le> b"
  let ?pause = "if in_co then yield_now else native_wait"
  let ?r = "SyncSender_round notify ?pause t"
  have pause: "ch_bound c' = Some b \<and> length (ch_queue c') \<le> b"
    if "?pause c x = Inr (c', x')" "ch_bound c = Some b" "length (ch_queue c) \<le> b" for c x c' x'
    using that assms(4,5) by (cases in_co) auto
  have pres: "?P v" if "?P u" "?r u = Inr v" for u v
    using that pause by (cases u) (auto simp: SyncSender_round_def split: if_splits sum.splits prod.splits)
  from rust_loop_inv [OF assms(1) [unfolded SyncSender_send_def], of ?P] assms(2,3) pres
  obtain u where u: "?P u" "?r u = Inl (Inr (SendDone, ch', e'))" by auto
  then show ?thesis
    by (cases u) (auto simp: SyncSender_round_def std_full_def std_push_def bindR_eq_Inr
        split: if_splits sum.splits prod.splits dest!: count_and_notify_chan)
qed

theorem sync_send_bounded_witness:
  "length (ch_queue ((std_push (1 :: nat) (sync_channel 2))\<lparr>ch_counter := 1\<rparr>)) \<le> 2
   \<and> last (ch_queue ((std_push (1 :: nat) (sync_channel 2))\<lparr>ch_counter := 1\<rparr>)) = 1"
proof -
  let ?w = "\<lambda>(c :: nat chan) (e :: unit). (Inl KilledUnwind :: (nat chan \<times> unit) res)"
  have r: "SyncSender_send True (\<lambda>t tk e. Inr e) ?w ?w 1 (sync_channel 2) () =
      Some (Inr (SendDone, (std_push 1 (sync_channel 2))\<lparr>ch_counter := 1\<rparr>, ()))"
    unfolding SyncSender_send_def
    by (rule rust_loop_returns [where n = 0, OF rounds.simps(1)])
      (simp add: SyncSender_round_def std_full_def std_push_def sync_channel_def
        count_and_notify_def counter_fetch_add_def maybe_notify_receiver_def)
  let ?ch = "(std_push (1 :: nat) (sync_channel 2))\<lparr>ch_counter := 1\<rparr>"
  have "length (ch_queue ?ch) \<le> 2 \<and> ch_queue ?ch \<noteq> [] \<and> last (ch_queue ?ch) = 1"
    by (rule sync_send_bounded [OF r]) (simp_all add: sync_channel_def)
  then show ?thesis by blast
qed

end
