(* ===== verification/Timer.thy ===== *)
theory Timer
  imports Mio_Api
begin

text \<open>
  Timers (\<^verbatim>\<open>src/src/timer.rs\<close>) and the two sleeping functions of \<^verbatim>\<open>src/src/mod.rs\<close>. An \<open>Instant\<close> is a
  number of nanoseconds; every \<open>Instant::now()\<close> of the code is one reading of the clock of the
  outside state (\<open>instant_now\<close>). Milliseconds are \<open>u64\<close> words, and the multiplication that makes
  them can overflow: a debug build panics, a release build wraps around.

  That the clock does not run backwards is the hypothesis \<open>clock_laws\<close>.
\<close>

record timer_core =
  tc_timeout :: instant
  tc_mio_timeout :: "mio_timeout option"

definition NANOS_PER_MILLI :: nat where
  "NANOS_PER_MILLI = 1000000"

definition NANOS_PER_SEC :: nat where
  "NANOS_PER_SEC = 1000000000"

text \<open>\<open>secs * 1000 + nanos / 1_000_000\<close> in \<open>u64\<close> arithmetic.\<close>

definition duration_ms :: "bool \<Rightarrow> u64 \<Rightarrow> nat \<Rightarrow> u64 res" where
  "duration_ms dbg secs nanos =
     (if dbg \<and> 2 ^ 64 \<le> unat secs * 1000 + nanos div NANOS_PER_MILLI then Inl ArithmeticOverflow
      else Inr (secs * 1000 + of_nat (nanos div NANOS_PER_MILLI)))"

definition Timer_new :: "('el, 'm) mio \<Rightarrow> 'el \<Rightarrow> timer_core \<times> 'el" where
  "Timer_new mio e = (let (now, e') = instant_now mio e
     in (\<lparr>tc_timeout = now, tc_mio_timeout = None\<rparr>, e'))"

definition should_resume :: "('el, 'm) mio \<Rightarrow> timer_core \<Rightarrow> 'el \<Rightarrow> bool \<times> 'el" where
  "should_resume mio t e = (let (now, e') = instant_now mio e in (tc_timeout t \<le> now, e'))"

definition Timer_is_done :: "('el, 'm) mio \<Rightarrow> timer_core \<Rightarrow> 'el \<Rightarrow> bool \<times> 'el" where
  [simp]: "Timer_is_done mio t e = should_resume mio t e"

definition Timer_try_read :: "('el, 'm) mio \<Rightarrow> timer_core \<Rightarrow> 'el \<Rightarrow> instant option \<times> 'el" where
  "Timer_try_read mio t e =
     (let (done, e') = Timer_is_done mio t e
      in if done then (let (now, e'') = instant_now mio e' in (Some now, e'')) else (None, e'))"

text \<open>
  \<open>Timer::read\<close>: try, and block on the timer until it is done. \<open>block_on\<close> is everything that happens
  until the coroutine runs again; it panics when the coroutine is killed.
\<close>

definition Timer_read_round ::
  "('el, 'm) mio \<Rightarrow> (timer_core \<Rightarrow> 'el \<Rightarrow> (timer_core \<times> 'el) res) \<Rightarrow> timer_core \<times> 'el \<Rightarrow>
   (instant \<times> timer_core \<times> 'el) res + (timer_core \<times> 'el)" where
  "Timer_read_round mio block_on = (\<lambda>(t, e).
     case Timer_try_read mio t e of
       (Some now, e') \<Rightarrow> Inl (Inr (now, t, e'))
     | (None, e') \<Rightarrow> (case block_on t e' of Inl p \<Rightarrow> Inl (Inl p) | Inr s \<Rightarrow> Inr s))"

definition Timer_read ::
  "('el, 'm) mio \<Rightarrow> (timer_core \<Rightarrow> 'el \<Rightarrow> (timer_core \<times> 'el) res) \<Rightarrow> timer_core \<Rightarrow> 'el \<Rightarrow>
   (instant \<times> timer_core \<times> 'el) res option" where
  "Timer_read mio block_on t e = rust_loop (Timer_read_round mio block_on) (t, e)"

definition set_timeout :: "('el, 'm) mio \<Rightarrow> u64 \<Rightarrow> timer_core \<Rightarrow> 'el \<Rightarrow> timer_core \<times> 'el" where
  "set_timeout mio delay_ms t e = (let (now, e') = instant_now mio e
     in (t\<lparr>tc_timeout := now + unat delay_ms * NANOS_PER_MILLI\<rparr>, e'))"

definition set_timeout_absolute :: "instant \<Rightarrow> timer_core \<Rightarrow> timer_core" where
  "set_timeout_absolute timeout t = t\<lparr>tc_timeout := timeout\<rparr>"

definition get_timeout_absolute :: "timer_core \<Rightarrow> instant" where
  "get_timeout_absolute t = tc_timeout t"

text \<open>\<open>EventSourceTrait\<close> for \<open>TimerCore\<close> on the event loop of \<open>thread\<close>.\<close>

definition Timer_register ::
  "bool \<Rightarrow> ('el, 'm) mio \<Rightarrow> thread_id \<Rightarrow> token \<Rightarrow> timer_core \<Rightarrow> 'el \<Rightarrow> (bool \<times> timer_core \<times> 'el) res" where
  "Timer_register dbg mio thread token t e =
     (let timeout = tc_timeout t; (now, e') = instant_now mio e
      in if timeout \<le> now then Inr (True, t, e')
         else
           (let elapsed = timeout - now
            in bindR (duration_ms dbg (of_nat (elapsed div NANOS_PER_SEC)) (elapsed mod NANOS_PER_SEC)) (\<lambda>delay.
                 case mio_timeout_ms mio thread token delay e' of
                   (Some h, e'') \<Rightarrow> Inr (False, t\<lparr>tc_mio_timeout := Some h\<rparr>, e'')
                 | (None, e'') \<Rightarrow> Inl TimeoutFailed)))"

definition Timer_deregister :: "('el, 'm) mio \<Rightarrow> thread_id \<Rightarrow> timer_core \<Rightarrow> 'el \<Rightarrow> 'el" where
  "Timer_deregister mio thread t e =
     (case tc_mio_timeout t of Some timeout \<Rightarrow> mio_clear_timeout mio thread timeout e | None \<Rightarrow> e)"

definition Timer_reregister ::
  "bool \<Rightarrow> ('el, 'm) mio \<Rightarrow> thread_id \<Rightarrow> token \<Rightarrow> timer_core \<Rightarrow> 'el \<Rightarrow> (bool \<times> timer_core \<times> 'el) res" where
  "Timer_reregister dbg mio thread token t e =
     Timer_register dbg mio thread token t
       (case tc_mio_timeout t of Some timeout \<Rightarrow> mio_clear_timeout mio thread timeout e | None \<Rightarrow> e)"

text \<open>\<open>let _ = timer.read()\<close>: only the state after the read goes on.\<close>

fun discard_now :: "(instant \<times> timer_core \<times> 'el) res option \<Rightarrow> 'el res option" where
  "discard_now None = None"
| "discard_now (Some (Inl p)) = Some (Inl p)"
| "discard_now (Some (Inr (now, t, e))) = Some (Inr e)"

text \<open>\<open>sleep\<close> and \<open>sleep_ms\<close>; \<open>native_sleep\<close> is \<open>std::thread::sleep\<close>, for a number of nanoseconds.\<close>

definition sleep_ms ::
  "bool \<Rightarrow> ('el, 'm) mio \<Rightarrow> (timer_core \<Rightarrow> 'el \<Rightarrow> (timer_core \<times> 'el) res) \<Rightarrow> (nat \<Rightarrow> 'el \<Rightarrow> 'el) \<Rightarrow>
   u64 \<Rightarrow> 'el \<Rightarrow> 'el res option" where
  "sleep_ms in_co mio block_on native_sleep time_ms e =
     (if in_co then
        (let (timer, e1) = Timer_new mio e; (timer', e2) = set_timeout mio time_ms timer e1
         in discard_now (Timer_read mio block_on timer' e2))
      else Some (Inr (native_sleep (unat time_ms * NANOS_PER_MILLI) e)))"

definition sleep ::
  "bool \<Rightarrow> bool \<Rightarrow> ('el, 'm) mio \<Rightarrow> (timer_core \<Rightarrow> 'el \<Rightarrow> (timer_core \<times> 'el) res) \<Rightarrow> (nat \<Rightarrow> 'el \<Rightarrow> 'el) \<Rightarrow>
   u64 \<Rightarrow> nat \<Rightarrow> 'el \<Rightarrow> 'el res option" where
  "sleep dbg in_co mio block_on native_sleep secs nanos e =
     (if in_co then
        (let (timer, e1) = Timer_new mio e
         in case duration_ms dbg secs nanos of
              Inl p \<Rightarrow> Some (Inl p)
            | Inr dur_ms \<Rightarrow>
                (let (timer', e2) = set_timeout mio dur_ms timer e1
                 in discard_now (Timer_read mio block_on timer' e2)))
      else Some (Inr (native_sleep (unat secs * NANOS_PER_SEC + nanos) e)))"

text \<open>
  The clock: \<open>clk\<close> is the last reading. A reading is not before the last one.
\<close>

definition clock_laws :: "('el, 'm) mio \<Rightarrow> ('el \<Rightarrow> instant) \<Rightarrow> bool" where
  "clock_laws mio clk \<longleftrightarrow>
     (\<forall>e now e'. instant_now mio e = (now, e') \<longrightarrow> clk e \<le> now \<and> clk e' = now)"

definition block_mono :: "('el \<Rightarrow> instant) \<Rightarrow> (timer_core \<Rightarrow> 'el \<Rightarrow> (timer_core \<times> 'el) res) \<Rightarrow> bool" where
  "block_mono clk block_on \<longleftrightarrow>
     (\<forall>t e t' e'. block_on t e = Inr (t', e') \<longrightarrow> clk e \<le> clk e' \<and> tc_timeout t' = tc_timeout t)"

lemmas timer_defs [op_defs] = Timer_new_def should_resume_def Timer_try_read_def set_timeout_def
  Timer_register_def Timer_deregister_def

lemma discard_now_Inr: "discard_now x = Some (Inr e) \<longleftrightarrow> (\<exists>now t. x = Some (Inr (now, t, e)))"
  by (cases x rule: discard_now.cases) auto

lemma clock_lawsD: "clock_laws mio clk \<Longrightarrow> instant_now mio e = (now, e') \<Longrightarrow> clk e \<le> now \<and> clk e' = now"
  by (simp add: clock_laws_def)

lemma Timer_try_read_Some:
  assumes "clock_laws mio clk" and "Timer_try_read mio t e = (Some now, e')"
  shows "tc_timeout t \<le> now \<and> clk e' = now"
proof -
  obtain n1 e1 where r1: "instant_now mio e = (n1, e1)" by (cases "instant_now mio e")
  obtain n2 e2 where r2: "instant_now mio e1 = (n2, e2)" by (cases "instant_now mio e1")
  from assms(2) r1 r2 have "tc_timeout t \<le> n1" "now = n2" "e' = e2"
    by (auto simp: Timer_try_read_def should_resume_def split: if_splits)
  with clock_lawsD [OF assms(1) r1] clock_lawsD [OF assms(1) r2] show ?thesis by simp
qed

lemma Timer_try_read_done:
  assumes "clock_laws mio clk" and "tc_timeout t \<le> clk e"
  shows "\<exists>now e'. Timer_try_read mio t e = (Some now, e')"
proof -
  obtain n1 e1 where r1: "instant_now mio e = (n1, e1)" by (cases "instant_now mio e")
  with clock_lawsD [OF assms(1) r1] assms(2) show ?thesis
    by (simp add: Timer_try_read_def should_resume_def split_beta)
qed

lemma Timer_read_after:
  assumes "clock_laws mio clk" and "block_mono clk block_on"
    and "Timer_read mio block_on t e = Some (Inr (now, t', e'))"
  shows "tc_timeout t \<le> now \<and> clk e' = now \<and> tc_timeout t' = tc_timeout t"
proof -
  have pres: "tc_timeout (fst v) = tc_timeout t"
    if "tc_timeout (fst u) = tc_timeout t" "Timer_read_round mio block_on u = Inr v" for u v
    using that assms(2)
    by (cases u) (auto simp: Timer_read_round_def block_mono_def split: prod.splits option.splits sum.splits)
  have "\<exists>u. tc_timeout (fst u) = tc_timeout t \<and> Timer_read_round mio block_on u = Inl (Inr (now, t', e'))"
    by (rule rust_loop_inv [OF assms(3) [unfolded Timer_read_def]]) (simp, erule pres)
  then obtain u where u: "tc_timeout (fst u) = tc_timeout t"
    and r: "Timer_read_round mio block_on u = Inl (Inr (now, t', e'))" by blast
  from r have "Timer_try_read mio (fst u) (snd u) = (Some now, e')" "t' = fst u"
    by (auto simp: Timer_read_round_def split: prod.splits option.splits sum.splits)
  with Timer_try_read_Some [OF assms(1)] u show ?thesis by metis
qed

lemma Timer_read_at_once:
  assumes "clock_laws mio clk" and "tc_timeout t \<le> clk e"
  shows "\<exists>now e'. Timer_read mio block_on t e = Some (Inr (now, t, e'))"
proof -
  obtain now e' where "Timer_try_read mio t e = (Some now, e')"
    using Timer_try_read_done [OF assms] by blast
  then have "Timer_read_round mio block_on (t, e) = Inl (Inr (now, t, e'))"
    by (simp add: Timer_read_round_def)
  from rust_loop_first [of "Timer_read_round mio block_on", OF this] show ?thesis
    by (auto simp: Timer_read_def)
qed

lemma ms_split:
  "d div NANOS_PER_SEC * 1000 + d mod NANOS_PER_SEC div NANOS_PER_MILLI = d div NANOS_PER_MILLI"
proof -
  let ?q = "d div NANOS_PER_MILLI"
  have p: "NANOS_PER_SEC = NANOS_PER_MILLI * 1000" "0 < NANOS_PER_MILLI"
    by (simp_all add: NANOS_PER_SEC_def NANOS_PER_MILLI_def)
  have "d div NANOS_PER_SEC = ?q div 1000" by (simp only: p(1) div_mult2_eq)
  moreover have "d mod NANOS_PER_SEC div NANOS_PER_MILLI = ?q mod 1000"
    using p(2) by (simp add: p(1) mod_mult2_eq)
  ultimately show ?thesis by simp
qed

text \<open>A clock for the examples: the state is the time, and each reading takes ten nanoseconds.\<close>

definition tick_clock :: "(nat, unit) mio" where
  "tick_clock = \<lparr>mio_register = (\<lambda>t r tk i e. (True, e)), mio_reregister = (\<lambda>t r tk i e. (True, e)),
     mio_deregister = (\<lambda>t r e. (True, e)), mio_timeout_ms = (\<lambda>t tk d e. (Some (unat d), e)),
     mio_clear_timeout = (\<lambda>t h e. e), mio_send = (\<lambda>t m e. (SendOk, e)), mio_shutdown = (\<lambda>t e. e),
     thread_yield = (\<lambda>e. e), instant_now = (\<lambda>e. (e + 10, e + 10))\<rparr>"

definition wait_step :: "nat \<Rightarrow> timer_core \<Rightarrow> nat \<Rightarrow> (timer_core \<times> nat) res" where
  "wait_step d t e = Inr (t, e + d)"

lemma tick_clock_laws: "clock_laws tick_clock id" "block_mono id (wait_step d)"
  by (simp_all add: clock_laws_def tick_clock_def block_mono_def wait_step_def)

text \<open>
  C38: a sleep in milliseconds does not end early. When \<open>sleep_ms\<close> inside a coroutine returns, the
  clock has passed its reading at the start of the sleep by at least the milliseconds asked for.
\<close>

theorem sleep_ms_not_early:
  assumes "clock_laws mio clk" and "block_mono clk block_on"
    and "sleep_ms True mio block_on native_sleep time_ms e = Some (Inr e')"
  shows "clk e + unat time_ms * NANOS_PER_MILLI \<le> clk e'"
proof -
  obtain n1 e1 where r1: "instant_now mio e = (n1, e1)" by (cases "instant_now mio e")
  obtain n2 e2 where r2: "instant_now mio e1 = (n2, e2)" by (cases "instant_now mio e1")
  let ?t = "\<lparr>tc_timeout = n2 + unat time_ms * NANOS_PER_MILLI, tc_mio_timeout = None\<rparr>"
  from assms(3) r1 r2 obtain now t where "Timer_read mio block_on ?t e2 = Some (Inr (now, t, e'))"
    by (auto simp: sleep_ms_def Timer_new_def set_timeout_def discard_now_Inr)
  from Timer_read_after [OF assms(1,2) this]
  have "n2 + unat time_ms * NANOS_PER_MILLI \<le> clk e'" by simp
  with clock_lawsD [OF assms(1) r1] clock_lawsD [OF assms(1) r2] show ?thesis by simp
qed

text \<open>A sleep of one millisecond with waits of half a millisecond: three rounds.\<close>

lemma sleep_ms_example: "sleep_ms True tick_clock (wait_step 500000) (\<lambda>d e. e) 1 0 = Some (Inr 1000060)"
proof -
  let ?t = "\<lparr>tc_timeout = 1000020, tc_mio_timeout = None\<rparr>"
  let ?body = "Timer_read_round tick_clock (wait_step 500000)"
  have r: "?body (?t, 20) = Inr (?t, 500030)" "?body (?t, 500030) = Inr (?t, 1000040)"
    "?body (?t, 1000040) = Inl (Inr (1000060, ?t, 1000060))"
    by (simp_all add: Timer_read_round_def Timer_try_read_def should_resume_def tick_clock_def wait_step_def)
  have "Timer_read tick_clock (wait_step 500000) ?t 20 = Some (Inr (1000060, ?t, 1000060))"
    unfolding Timer_read_def
    by (simp only: rust_loop_again [of ?body, OF r(1)] rust_loop_again [of ?body, OF r(2)]
        rust_loop_first [of ?body, OF r(3)])
  then show ?thesis
    by (simp add: sleep_ms_def Timer_new_def set_timeout_def tick_clock_def NANOS_PER_MILLI_def)
qed

theorem sleep_ms_not_early_witness:
  "sleep_ms True tick_clock (wait_step 500000) (\<lambda>d e. e) 1 0 = Some (Inr 1000060)
   \<and> id (0 :: nat) + unat (1 :: u64) * NANOS_PER_MILLI \<le> id 1000060"
  using sleep_ms_not_early [OF tick_clock_laws sleep_ms_example] sleep_ms_example by blast

text \<open>
  A timer whose time has come reads at once, and a sleep of less than a millisecond is cut down to
  no sleep at all: inside a coroutine \<open>sleep\<close> of such a duration returns without ever blocking,
  whatever blocking would do.
\<close>

theorem sleep_submillisecond_never_blocks:
  assumes "clock_laws mio clk" and "nanos < NANOS_PER_MILLI"
  shows "\<exists>e'. \<forall>block_on. sleep dbg True mio block_on native_sleep 0 nanos e = Some (Inr e')"
proof -
  obtain n1 e1 where r1: "instant_now mio e = (n1, e1)" by (cases "instant_now mio e")
  obtain n2 e2 where r2: "instant_now mio e1 = (n2, e2)" by (cases "instant_now mio e1")
  let ?t = "\<lparr>tc_timeout = n2, tc_mio_timeout = None\<rparr>"
  have "tc_timeout ?t \<le> clk e2" using clock_lawsD [OF assms(1) r2] by simp
  from Timer_try_read_done [OF assms(1) this] obtain now e' where
    "Timer_try_read mio ?t e2 = (Some now, e')" by blast
  then have "Timer_read mio block_on ?t e2 = Some (Inr (now, ?t, e'))" for block_on
    unfolding Timer_read_def by (intro rust_loop_first) (simp add: Timer_read_round_def)
  moreover have "duration_ms dbg 0 nanos = Inr 0" using assms(2) by (simp add: duration_ms_def)
  ultimately show ?thesis using r1 r2
    by (auto simp: sleep_def Timer_new_def set_timeout_def intro!: exI [of _ e'])
qed

theorem sleep_submillisecond_never_blocks_witness:
  "\<exists>e'. \<forall>block_on. sleep True True tick_clock block_on (\<lambda>d e. e) 0 999999 0 = Some (Inr e')"
  by (rule sleep_submillisecond_never_blocks [OF tick_clock_laws(1)]) (simp add: NANOS_PER_MILLI_def)

text \<open>
  The delay a timer asks mio for is the time left, rounded down to milliseconds, and it is exact as
  a \<open>u64\<close> for every time left that fits: in a debug and in a release build registration neither
  panics on the arithmetic nor wraps around.
\<close>

theorem timer_register_delay:
  assumes "instant_now mio e = (now, e')" and "now < tc_timeout t"
    and "tc_timeout t - now < 2 ^ 64 * NANOS_PER_MILLI"
    and "mio_timeout_ms mio thread token (of_nat ((tc_timeout t - now) div NANOS_PER_MILLI)) e' = (Some h, e'')"
  shows "Timer_register dbg mio thread token t e = Inr (False, t\<lparr>tc_mio_timeout := Some h\<rparr>, e'')
    \<and> unat (of_nat ((tc_timeout t - now) div NANOS_PER_MILLI) :: u64) = (tc_timeout t - now) div NANOS_PER_MILLI"
proof -
  let ?d = "tc_timeout t - now"
  let ?s = "?d div NANOS_PER_SEC"
  have ms: "?s * 1000 + ?d mod NANOS_PER_SEC div NANOS_PER_MILLI = ?d div NANOS_PER_MILLI"
    by (rule ms_split)
  have b: "?d div NANOS_PER_MILLI < 2 ^ 64"
    using assms(3) by (simp add: NANOS_PER_MILLI_def div_less_iff_less_mult)
  have "?s < 2 ^ 64" using b ms by linarith
  then have s: "unat (of_nat ?s :: u64) = ?s" by (rule usize_unat_of_nat)
  have "(of_nat ?s :: u64) * 1000 + of_nat (?d mod NANOS_PER_SEC div NANOS_PER_MILLI)
      = of_nat (?s * 1000 + ?d mod NANOS_PER_SEC div NANOS_PER_MILLI)" by simp
  then have "duration_ms dbg (of_nat ?s) (?d mod NANOS_PER_SEC) = Inr (of_nat (?d div NANOS_PER_MILLI))"
    using b unfolding duration_ms_def s ms by simp
  then show ?thesis using assms b
    by (simp add: Timer_register_def Let_def usize_unat_of_nat)
qed

theorem timer_register_delay_witness:
  "Timer_register True tick_clock 0 1024 \<lparr>tc_timeout = 2500010, tc_mio_timeout = None\<rparr> 0
     = Inr (False, \<lparr>tc_timeout = 2500010, tc_mio_timeout = Some 2\<rparr>, 10)"
proof -
  let ?t = "\<lparr>tc_timeout = 2500010, tc_mio_timeout = None\<rparr>"
  have "instant_now tick_clock 0 = (10, 10)" "10 < tc_timeout ?t"
    "tc_timeout ?t - 10 < 2 ^ 64 * NANOS_PER_MILLI"
    "mio_timeout_ms tick_clock 0 1024 (of_nat ((tc_timeout ?t - 10) div NANOS_PER_MILLI)) 10 = (Some 2, 10)"
    by (simp_all add: tick_clock_def NANOS_PER_MILLI_def)
  from timer_register_delay [OF this, of True] show ?thesis by simp
qed

text \<open>
  The timer read ends. If blocking moves the clock on by at least \<open>d > 0\<close> nanoseconds each time and
  keeps the timer, \<open>Timer::read\<close> returns, however far away the timeout is.
\<close>

theorem timer_read_returns:
  assumes "clock_laws mio clk" and "0 < d"
    and "\<And>t e. \<exists>t' e'. block_on t e = Inr (t', e') \<and> clk e + d \<le> clk e' \<and> tc_timeout t' = tc_timeout t"
  shows "\<exists>now t' e'. Timer_read mio block_on t e = Some (Inr (now, t', e'))"
proof (induction "tc_timeout t - clk e" arbitrary: t e rule: less_induct)
  case less
  obtain r e1 where tr: "Timer_try_read mio t e = (r, e1)" by (cases "Timer_try_read mio t e")
  show ?case
  proof (cases r)
    case (Some now)
    with tr have "Timer_read_round mio block_on (t, e) = Inl (Inr (now, t, e1))"
      by (simp add: Timer_read_round_def)
    from rust_loop_first [of "Timer_read_round mio block_on", OF this] show ?thesis
      by (auto simp: Timer_read_def)
  next
    case None
    obtain n2 where n2: "instant_now mio e = (n2, e1)" "\<not> tc_timeout t \<le> n2"
      using tr None by (auto simp: Timer_try_read_def should_resume_def split: prod.splits if_splits)
    obtain t' e' where b: "block_on t e1 = Inr (t', e')" "clk e1 + d \<le> clk e'" "tc_timeout t' = tc_timeout t"
      using assms(3) by blast
    have "tc_timeout t' - clk e' < tc_timeout t - clk e"
      using clock_lawsD [OF assms(1) n2(1)] n2(2) b(2,3) assms(2) by linarith
    from less.hyps [OF this] obtain now t'' e'' where
      r: "Timer_read mio block_on t' e' = Some (Inr (now, t'', e''))" by blast
    have "Timer_read_round mio block_on (t, e) = Inr (t', e')"
      using tr None b(1) by (simp add: Timer_read_round_def)
    from rust_loop_again [of "Timer_read_round mio block_on", OF this] r show ?thesis
      by (auto simp: Timer_read_def)
  qed
qed

theorem timer_read_returns_witness:
  "\<exists>now t' e'. Timer_read tick_clock (wait_step 500000) \<lparr>tc_timeout = 86400000000000, tc_mio_timeout = None\<rparr> 0
     = Some (Inr (now, t', e'))"
  by (rule timer_read_returns [OF tick_clock_laws(1), where d = 500000]) (simp_all add: wait_step_def)

end
