(* ===== verification/Evented.thy ===== *)
theory Evented
  imports Mpsc Timer
begin

text \<open>
  Event sources (\<^verbatim>\<open>src/src/evented.rs\<close>). Everything a coroutine can block on is a cell shared between
  the coroutine and the event loop (\<open>RcEventSource\<close>): common control data and a raw source, which is
  a mio object, a channel receiver or a timer. The cells and the channels live in stores indexed
  by references, as \<open>Rc\<close> and \<open>Arc\<close> allow aliasing; \<open>io_world\<close> is those stores and the outside state.
  The operations are defined on every extension of \<open>io_world\<close>, so they apply unchanged to the
  state of a whole mioco instance.

  The methods of the trait object \<open>RcEventSourceTrait\<close> are \<open>rc_register\<close>, \<open>rc_reregister\<close> and
  \<open>rc_deregister\<close>; those of \<open>EventSourceTrait\<close>, dispatched on the kind of raw source, are
  \<open>io_register\<close>, \<open>io_reregister\<close> and \<open>io_deregister\<close>.
\<close>

type_synonym src_ref = nat
type_synonym chan_ref = nat

record EventSourceCommon =
  ec_id :: "EventSourceId option"
  ec_blocked_on :: RW
  ec_peer_hup :: bool

datatype io = RawIo raw_io | ReceiverIo chan_ref | TimerIo timer_core

record evsource =
  es_common :: EventSourceCommon
  es_io :: io

record ('el, 'v) io_world =
  w_env :: 'el
  w_chans :: "chan_ref \<Rightarrow> 'v chan"
  w_srcs :: "src_ref \<Rightarrow> evsource"

definition RcEventSource_new :: "io \<Rightarrow> evsource" where
  "RcEventSource_new t =
     \<lparr>es_common = \<lparr>ec_id = None, ec_blocked_on = RW_none, ec_peer_hup = False\<rparr>, es_io = t\<rparr>"

text \<open>\<open>MioAdapter\<close> wraps an event source around a mio object.\<close>

definition MioAdapter_new :: "raw_io \<Rightarrow> evsource" where
  "MioAdapter_new mio_type = RcEventSource_new (RawIo mio_type)"

definition MioAdapter_from_raw_fd :: "(nat \<Rightarrow> raw_io) \<Rightarrow> nat \<Rightarrow> evsource" where
  "MioAdapter_from_raw_fd from_raw_fd fd = RcEventSource_new (RawIo (from_raw_fd fd))"

definition set_env :: "'el \<Rightarrow> ('el, 'v, 'z) io_world_scheme \<Rightarrow> ('el, 'v, 'z) io_world_scheme" where
  "set_env e w = w\<lparr>w_env := e\<rparr>"

definition set_chan ::
  "chan_ref \<Rightarrow> 'v chan \<Rightarrow> ('el, 'v, 'z) io_world_scheme \<Rightarrow> ('el, 'v, 'z) io_world_scheme" where
  "set_chan c ch w = w\<lparr>w_chans := (w_chans w)(c := ch)\<rparr>"

definition set_src ::
  "src_ref \<Rightarrow> evsource \<Rightarrow> ('el, 'v, 'z) io_world_scheme \<Rightarrow> ('el, 'v, 'z) io_world_scheme" where
  "set_src s x w = w\<lparr>w_srcs := (w_srcs w)(s := x)\<rparr>"

text \<open>The event set a source is registered for.\<close>

definition interest_of :: "EventSourceCommon \<Rightarrow> EventSet" where
  "interest_of common =
     (let interest = EventSet_none;
          interest = (if \<not> ec_peer_hup common then
                        (let interest = EventSet_or interest EventSet_hup
                         in if has_read (ec_blocked_on common) then EventSet_or interest EventSet_readable
                            else interest)
                      else interest)
      in if has_write (ec_blocked_on common) then EventSet_or interest EventSet_writable else interest)"

text \<open>\<open>EventSourceTrait\<close>, on the event loop of \<open>thread\<close>.\<close>

definition io_register ::
  "bool \<Rightarrow> ('el, 'm) mio \<Rightarrow> thread_id \<Rightarrow> src_ref \<Rightarrow> token \<Rightarrow> EventSet \<Rightarrow>
   ('el, 'v, 'z) io_world_scheme \<Rightarrow> (bool \<times> ('el, 'v, 'z) io_world_scheme) res" where
  "io_register dbg mio thread s token interest w =
     (case es_io (w_srcs w s) of
        RawIo r \<Rightarrow>
          (let (okay, e) = mio_register mio thread r token interest (w_env w)
           in if okay then Inr (False, set_env e w) else Inl RegisterFailed)
      | ReceiverIo c \<Rightarrow>
          bindR (Receiver_register dbg thread token interest (w_chans w c))
            (\<lambda>(ready, ch). Inr (ready, set_chan c ch w))
      | TimerIo t \<Rightarrow>
          bindR (Timer_register dbg mio thread token t (w_env w))
            (\<lambda>(ready, t', e). Inr (ready, set_src s ((w_srcs w s)\<lparr>es_io := TimerIo t'\<rparr>) (set_env e w))))"

definition io_reregister ::
  "bool \<Rightarrow> ('el, 'm) mio \<Rightarrow> thread_id \<Rightarrow> src_ref \<Rightarrow> token \<Rightarrow> EventSet \<Rightarrow>
   ('el, 'v, 'z) io_world_scheme \<Rightarrow> (bool \<times> ('el, 'v, 'z) io_world_scheme) res" where
  "io_reregister dbg mio thread s token interest w =
     (case es_io (w_srcs w s) of
        RawIo r \<Rightarrow>
          (let (okay, e) = mio_reregister mio thread r token interest (w_env w)
           in if okay then Inr (False, set_env e w) else Inl ReregisterFailed)
      | ReceiverIo c \<Rightarrow>
          bindR (Receiver_reregister dbg token interest (w_chans w c))
            (\<lambda>(ready, ch). Inr (ready, set_chan c ch w))
      | TimerIo t \<Rightarrow>
          bindR (Timer_reregister dbg mio thread token t (w_env w))
            (\<lambda>(ready, t', e). Inr (ready, set_src s ((w_srcs w s)\<lparr>es_io := TimerIo t'\<rparr>) (set_env e w))))"

definition io_deregister ::
  "('el, 'm) mio \<Rightarrow> thread_id \<Rightarrow> src_ref \<Rightarrow>
   ('el, 'v, 'z) io_world_scheme \<Rightarrow> ('el, 'v, 'z) io_world_scheme res" where
  "io_deregister mio thread s w =
     (case es_io (w_srcs w s) of
        RawIo r \<Rightarrow>
          (let (okay, e) = mio_deregister mio thread r (w_env w)
           in if okay then Inr (set_env e w) else Inl DeregisterFailed)
      | ReceiverIo c \<Rightarrow> Inr (set_chan c (Receiver_deregister (w_chans w c)) w)
      | TimerIo t \<Rightarrow> Inr (set_env (Timer_deregister mio thread t (w_env w)) w))"

text \<open>\<open>RcEventSourceTrait\<close>.\<close>

definition rc_register ::
  "bool \<Rightarrow> ('el, 'm) mio \<Rightarrow> thread_id \<Rightarrow> co_id \<Rightarrow> src_ref \<Rightarrow>
   ('el, 'v, 'z) io_world_scheme \<Rightarrow> (bool \<times> ('el, 'v, 'z) io_world_scheme) res" where
  "rc_register dbg mio thread co s w =
     (let common = es_common (w_srcs w s)
      in bindR (unwrap (ec_id common)) (\<lambda>id.
         bindR (token_from_ids dbg co id) (\<lambda>token.
           io_register dbg mio thread s token (interest_of common) w)))"

definition rc_reregister ::
  "bool \<Rightarrow> ('el, 'm) mio \<Rightarrow> thread_id \<Rightarrow> co_id \<Rightarrow> src_ref \<Rightarrow>
   ('el, 'v, 'z) io_world_scheme \<Rightarrow> (bool \<times> ('el, 'v, 'z) io_world_scheme) res" where
  "rc_reregister dbg mio thread co s w =
     (let common = es_common (w_srcs w s)
      in bindR (unwrap (ec_id common)) (\<lambda>id.
         bindR (token_from_ids dbg co id) (\<lambda>token.
           io_reregister dbg mio thread s token (interest_of common) w)))"

definition rc_deregister ::
  "bool \<Rightarrow> ('el, 'm) mio \<Rightarrow> thread_id \<Rightarrow> co_id \<Rightarrow> src_ref \<Rightarrow>
   ('el, 'v, 'z) io_world_scheme \<Rightarrow> ('el, 'v, 'z) io_world_scheme res" where
  "rc_deregister dbg mio thread co s w =
     bindR (unwrap (ec_id (es_common (w_srcs w s)))) (\<lambda>id.
     bindR (token_from_ids dbg co id) (\<lambda>token. io_deregister mio thread s w))"

definition rc_hup :: "src_ref \<Rightarrow> ('el, 'v, 'z) io_world_scheme \<Rightarrow> ('el, 'v, 'z) io_world_scheme" where
  "rc_hup s w =
     (let x = w_srcs w s in set_src s (x\<lparr>es_common := (es_common x)\<lparr>ec_peer_hup := True\<rparr>\<rparr>) w)"

text \<open>
  Marking a source as the next one its coroutine blocks on: the part of \<open>Coroutine::block_on\<close> and of
  \<open>EventedImpl::select_add_prv\<close> that writes the source's control data.
\<close>

definition mark_blocked ::
  "src_ref \<Rightarrow> usize \<Rightarrow> RW \<Rightarrow> ('el, 'v, 'z) io_world_scheme \<Rightarrow> ('el, 'v, 'z) io_world_scheme" where
  "mark_blocked s n rw w =
     (let x = w_srcs w s
      in set_src s (x\<lparr>es_common := (es_common x)\<lparr>ec_id := Some (EventSourceId n), ec_blocked_on := rw\<rparr>\<rparr>) w)"

text \<open>
  A call on the mio object inside an adapter, through \<open>io_ref\<close> or \<open>io_mut\<close>; \<open>f\<close> is the method of the mio type.
  The source of an adapter is always a mio object: a reference to another kind has another type.
\<close>

definition with_io ::
  "(raw_io \<Rightarrow> 'el \<Rightarrow> 'r \<times> 'el) \<Rightarrow> src_ref \<Rightarrow> ('el, 'v, 'z) io_world_scheme \<Rightarrow> ('r \<times> ('el, 'v, 'z) io_world_scheme) res" where
  "with_io f s w =
     (case es_io (w_srcs w s) of
        RawIo r \<Rightarrow> (let (x, e) = f r (w_env w) in Inr (x, set_env e w))
      | _ \<Rightarrow> Inl WrongSource)"

definition MioAdapter_try_read where
  "MioAdapter_try_read try_read self buf w = with_io (try_read buf) self w"

definition MioAdapter_try_write where
  "MioAdapter_try_write try_write self buf w = with_io (try_write buf) self w"

definition MioAdapter_flush :: "'e \<Rightarrow> ('err + unit) \<times> 'e" where
  "MioAdapter_flush e = (Inr (), e)"

definition MioAdapter_as_raw_fd where
  "MioAdapter_as_raw_fd as_raw_fd self w = with_io (\<lambda>r e. (as_raw_fd r, e)) self w"

text \<open>The data of a source that the event loop reads through the trait object.\<close>

definition rc_blocked_on :: "src_ref \<Rightarrow> ('el, 'v, 'z) io_world_scheme \<Rightarrow> RW" where
  "rc_blocked_on s w = ec_blocked_on (es_common (w_srcs w s))"

definition rc_id :: "src_ref \<Rightarrow> ('el, 'v, 'z) io_world_scheme \<Rightarrow> EventSourceId option" where
  "rc_id s w = ec_id (es_common (w_srcs w s))"

text \<open>
  The blocking calls of \<open>MioAdapter\<close>: attempt, and on \<open>Ok(None)\<close> block for the next event and attempt
  again. \<open>try_op\<close> is the attempt of the wrapped mio type, \<open>block_on\<close> everything that happens until
  the coroutine is resumed.
\<close>

definition blocking_round ::
  "RW \<Rightarrow> ('e \<Rightarrow> ('err + 'r option) \<times> 'e) \<Rightarrow> (RW \<Rightarrow> 'e \<Rightarrow> 'e res) \<Rightarrow> 'e \<Rightarrow> (('err + 'r) \<times> 'e) res + 'e" where
  "blocking_round rw try_op block_on e =
     (case try_op e of
        (Inr None, e') \<Rightarrow> (case block_on rw e' of Inl p \<Rightarrow> Inl (Inl p) | Inr e'' \<Rightarrow> Inr e'')
      | (Inr (Some r), e') \<Rightarrow> Inl (Inr (Inr r, e'))
      | (Inl err, e') \<Rightarrow> Inl (Inr (Inl err, e')))"

definition MioAdapter_read ::
  "('e \<Rightarrow> ('err + usize option) \<times> 'e) \<Rightarrow> (RW \<Rightarrow> 'e \<Rightarrow> 'e res) \<Rightarrow> 'e \<Rightarrow> (('err + usize) \<times> 'e) res option" where
  "MioAdapter_read try_read block_on e = rust_loop (blocking_round RW_read try_read block_on) e"

definition MioAdapter_write ::
  "('e \<Rightarrow> ('err + usize option) \<times> 'e) \<Rightarrow> (RW \<Rightarrow> 'e \<Rightarrow> 'e res) \<Rightarrow> 'e \<Rightarrow> (('err + usize) \<times> 'e) res option" where
  "MioAdapter_write try_write block_on e = rust_loop (blocking_round RW_write try_write block_on) e"

definition MioAdapter_try_accept ::
  "('e \<Rightarrow> ('err + raw_io option) \<times> 'e) \<Rightarrow> 'e \<Rightarrow> ('err + evsource option) \<times> 'e" where
  "MioAdapter_try_accept accept e =
     (case accept e of
        (Inl err, e') \<Rightarrow> (Inl err, e')
      | (Inr t, e') \<Rightarrow> (Inr (map_option MioAdapter_new t), e'))"

definition MioAdapter_accept ::
  "('e \<Rightarrow> ('err + raw_io option) \<times> 'e) \<Rightarrow> (RW \<Rightarrow> 'e \<Rightarrow> 'e res) \<Rightarrow> 'e \<Rightarrow>
   (('err + evsource) \<times> 'e) res option" where
  "MioAdapter_accept accept block_on e =
     rust_loop (blocking_round RW_read (MioAdapter_try_accept accept) block_on) e"

text \<open>
  Registration is transparent: what a source holds for its owner is the same after any sequence of
  registrations and deregistrations by the event loop. The interface is stated over one
  registration and one deregistration; \<open>view\<close> is what the owner can see.
\<close>

locale transparent_source =
  fixes reg :: "'a \<Rightarrow> 's \<Rightarrow> (bool \<times> 's) res"
    and dereg :: "'a \<Rightarrow> 's \<Rightarrow> 's res"
    and view :: "'s \<Rightarrow> 'd"
  assumes reg_view: "reg a s = Inr (b, s') \<Longrightarrow> view s' = view s"
    and dereg_view: "dereg a s = Inr s' \<Longrightarrow> view s' = view s"
begin

lemma regs_view: "foldR (\<lambda>a s. bindR (reg a s) (\<lambda>(b, s'). Inr s')) as s = Inr t \<Longrightarrow> view t = view s"
  by (rule foldR_cong_inv [where g = view]) (auto simp: bindR_eq_Inr dest: reg_view)

lemma deregs_view: "foldR dereg as s = Inr t \<Longrightarrow> view t = view s"
  by (rule foldR_cong_inv [where g = view]) (auto dest: dereg_view)

end

lemmas io_world_defs [op_defs] = set_env_def set_chan_def set_src_def

text \<open>What the owner of a source sees of it: the mio object, the messages, the time it is set to.\<close>

datatype 'v source_view = RawView raw_io | ReceiverView chan_ref | TimerView instant

definition src_view :: "('el, 'v, 'z) io_world_scheme \<Rightarrow> src_ref \<Rightarrow> 'v source_view" where
  "src_view w s = (case es_io (w_srcs w s) of
     RawIo r \<Rightarrow> RawView r | ReceiverIo c \<Rightarrow> ReceiverView c | TimerIo t \<Rightarrow> TimerView (tc_timeout t))"

definition chan_view :: "('el, 'v, 'z) io_world_scheme \<Rightarrow> chan_ref \<Rightarrow> 'v list \<times> usize \<times> nat \<times> nat \<times> bool" where
  "chan_view w c = (let ch = w_chans w c
     in (ch_queue ch, ch_counter ch, ch_arc ch, ch_std ch, ch_rx ch))"

definition io_view where
  "io_view w = (src_view w, chan_view w, \<lambda>s. es_common (w_srcs w s), io_world.more w)"

lemma Receiver_register_view:
  "Receiver_register dbg th tk i ch = Inr (b, ch') \<Longrightarrow>
   ch_queue ch' = ch_queue ch \<and> ch_counter ch' = ch_counter ch \<and> ch_arc ch' = ch_arc ch
   \<and> ch_std ch' = ch_std ch \<and> ch_rx ch' = ch_rx ch \<and> ch_bound ch' = ch_bound ch"
  by (auto simp: Receiver_register_def bindR_eq_Inr Let_def split: if_splits)

lemma Timer_register_view:
  assumes "Timer_register dbg mio th tk t e = Inr (b, t', e')"
  shows "tc_timeout t' = tc_timeout t"
proof -
  obtain now e1 where "instant_now mio e = (now, e1)" by (cases "instant_now mio e")
  with assms show ?thesis
    by (auto simp: Timer_register_def bindR_eq_Inr Let_def split: if_splits)
      (auto simp: case_prod_beta split: option.splits)
qed

lemma io_register_view:
  assumes "io_register dbg mio th s tk i w = Inr (b, w')"
  shows "io_view w' = io_view w"
  using assms
  by (auto simp: io_register_def io_view_def src_view_def chan_view_def set_env_def set_chan_def
      set_src_def bindR_eq_Inr fun_eq_iff Let_def split: io.splits if_splits prod.splits
      dest!: Receiver_register_view Timer_register_view)

lemma io_deregister_view:
  assumes "io_deregister mio th s w = Inr w'"
  shows "io_view w' = io_view w"
  using assms
  by (auto simp: io_deregister_def io_view_def src_view_def chan_view_def set_env_def set_chan_def
      Receiver_deregister_def fun_eq_iff Let_def split: io.splits if_splits prod.splits)

lemma rc_register_view: "rc_register dbg mio th co s w = Inr (b, w') \<Longrightarrow> io_view w' = io_view w"
  by (auto simp: rc_register_def bindR_eq_Inr Let_def dest: io_register_view)

lemma rc_deregister_view: "rc_deregister dbg mio th co s w = Inr w' \<Longrightarrow> io_view w' = io_view w"
  by (auto simp: rc_deregister_def bindR_eq_Inr dest: io_deregister_view)

text \<open>Nor does a call on a mio object touch them, whatever it does outside.\<close>

lemma with_io_view: "with_io f s w = Inr (x, w') \<Longrightarrow> io_view w' = io_view w"
  by (auto simp: with_io_def io_view_def src_view_def chan_view_def set_env_def case_prod_beta Let_def split: io.splits)

interpretation rcsrc: transparent_source "rc_register dbg mio th co" "rc_deregister dbg mio th co" io_view
  for dbg mio th co
  by unfold_locales (auto dest: rc_register_view rc_deregister_view)

text \<open>
  The attempts of a blocking call: \<open>attempts n\<close> is the state after \<open>n\<close> attempts that all found the
  operation would block, each followed by a wait that resumed the coroutine.
\<close>

fun attempts ::
  "RW \<Rightarrow> ('e \<Rightarrow> ('err + 'r option) \<times> 'e) \<Rightarrow> (RW \<Rightarrow> 'e \<Rightarrow> 'e res) \<Rightarrow> nat \<Rightarrow> 'e \<Rightarrow> 'e option" where
  "attempts rw try_op block_on 0 e = Some e"
| "attempts rw try_op block_on (Suc n) e =
     (case try_op e of
        (Inr None, e1) \<Rightarrow> (case block_on rw e1 of Inr e2 \<Rightarrow> attempts rw try_op block_on n e2 | Inl p \<Rightarrow> None)
      | _ \<Rightarrow> None)"

lemma rounds_attempts:
  "rounds (blocking_round rw try_op block_on) n e = attempts rw try_op block_on n e"
  by (induction n arbitrary: e)
    (auto simp: blocking_round_def split: prod.splits sum.splits option.splits)

lemma blocking_round_done:
  "blocking_round rw try_op block_on e = Inl (Inr (x, e')) \<longleftrightarrow>
   (\<exists>r. x = Inr r \<and> try_op e = (Inr (Some r), e')) \<or> (\<exists>err. x = Inl err \<and> try_op e = (Inl err, e'))"
  by (auto simp: blocking_round_def split: prod.splits sum.splits option.splits)

lemma blocking_loop_iff:
  "rust_loop (blocking_round rw try_op block_on) e = Some (Inr (x, e')) \<longleftrightarrow>
   (\<exists>n e1. attempts rw try_op block_on n e = Some e1 \<and>
      ((\<exists>r. x = Inr r \<and> try_op e1 = (Inr (Some r), e')) \<or> (\<exists>err. x = Inl err \<and> try_op e1 = (Inl err, e'))))"
  by (simp add: rust_loop_Some_iff rounds_attempts blocking_round_done)

text \<open>
  A blocking \<open>read\<close> returns exactly the first outcome of \<open>try_read\<close> that is not \<open>Ok(None)\<close>: it
  returns with a result and a state if and only if a number of attempts would have blocked, each
  was followed by one wait for a read event, and the next attempt gave that result (data or error).
\<close>

theorem read_first_ready:
  "MioAdapter_read try_read block_on e = Some (Inr (x, e')) \<longleftrightarrow>
   (\<exists>n e1. attempts RW_read try_read block_on n e = Some e1 \<and>
      ((\<exists>r. x = Inr r \<and> try_read e1 = (Inr (Some r), e')) \<or> (\<exists>err. x = Inl err \<and> try_read e1 = (Inl err, e'))))"
  unfolding MioAdapter_read_def by (rule blocking_loop_iff)

lemma try_accept_Some:
  "MioAdapter_try_accept accept e = (Inr (Some x), e') \<longleftrightarrow>
   (\<exists>r. accept e = (Inr (Some r), e')
      \<and> x = \<lparr>es_common = \<lparr>ec_id = None, ec_blocked_on = RW_none, ec_peer_hup = False\<rparr>, es_io = RawIo r\<rparr>)"
  by (cases "accept e") (auto simp: MioAdapter_try_accept_def MioAdapter_new_def RcEventSource_new_def split: sum.splits)

text \<open>
  A blocking \<open>accept\<close> that returns a connection wraps the mio object of the first attempt
  that found one in a fresh event source: no id, blocked on nothing, peer not hung up.
\<close>

theorem accept_fresh_source:
  "MioAdapter_accept accept block_on e = Some (Inr (Inr x, e')) \<longleftrightarrow>
   (\<exists>n e1 r. attempts RW_read (MioAdapter_try_accept accept) block_on n e = Some e1
      \<and> accept e1 = (Inr (Some r), e')
      \<and> x = \<lparr>es_common = \<lparr>ec_id = None, ec_blocked_on = RW_none, ec_peer_hup = False\<rparr>, es_io = RawIo r\<rparr>)"
  unfolding MioAdapter_accept_def blocking_loop_iff by (simp add: try_accept_Some)

lemma interest_of_flags:
  "interest_of c = \<lparr>is_readable = (\<not> ec_peer_hup c \<and> has_read (ec_blocked_on c)),
     is_writable = has_write (ec_blocked_on c), is_hup = (\<not> ec_peer_hup c)\<rparr>"
  by (simp add: interest_of_def EventSet_defs Let_def)

text \<open>
  What reaches mio when a mio source of a coroutine is registered. The token names exactly
  that coroutine and that source, so the event it carries back is delivered to them; hup is
  asked for until the peer hung up, readable only before it hung up and when the coroutine
  waits to read, writable exactly when it waits to write; and mio's refusal is a panic.
\<close>

theorem raw_registration:
  assumes "es_io (w_srcs w s) = RawIo r" and "ec_id (es_common (w_srcs w s)) = Some io_id"
    and "ids_fit co io_id" and "ec_blocked_on (es_common (w_srcs w s)) = rw"
    and "ec_peer_hup (es_common (w_srcs w s)) = hup"
  shows "\<exists>token. token_to_ids token = (co, io_id) \<and>
           rc_register dbg mio th co s w =
             (let (okay, e) = mio_register mio th r token
                    \<lparr>is_readable = (\<not> hup \<and> has_read rw), is_writable = has_write rw, is_hup = (\<not> hup)\<rparr>
                    (w_env w)
              in if okay then Inr (False, w\<lparr>w_env := e\<rparr>) else Inl RegisterFailed)"
proof -
  from tok.enc_dec [OF assms(3), of dbg] obtain token
    where "token_from_ids dbg co io_id = Inr token" "token_to_ids token = (co, io_id)" by blast
  with assms show ?thesis
    by (intro exI [of _ token])
      (simp add: rc_register_def io_register_def set_env_def interest_of_flags Let_def split: prod.split)
qed

text \<open>A world with one mio source, waited on for reading, and one empty channel.\<close>

definition one_source :: "(nat, nat) io_world" where
  "one_source = \<lparr>w_env = 0, w_chans = (\<lambda>c. channel),
     w_srcs = (\<lambda>s. (RcEventSource_new (if s = 1 then ReceiverIo 0 else RawIo 4))
                 \<lparr>es_common := \<lparr>ec_id = Some (EventSourceId 3), ec_blocked_on = RW_read, ec_peer_hup = False\<rparr>\<rparr>)\<rparr>"

theorem raw_registration_witness:
  "\<exists>token. token_to_ids token = (Id 5, EventSourceId 3)
     \<and> rc_register True tick_clock 0 (Id 5) 0 one_source = Inr (False, one_source)"
proof -
  have fits: "ids_fit (Id 5) (EventSourceId 3)" by (simp add: ids_fit_def)
  show ?thesis
    using raw_registration [of one_source 0 4 "EventSourceId 3" "Id 5" RW_read False True tick_clock 0] fits
    by (auto simp: one_source_def RcEventSource_new_def tick_clock_def)
qed

text \<open>
  Registrations and deregistrations are invisible to the coroutine: after the event loop
  registered and deregistered any sources, every queue, counter and handle count of every channel,
  every timer's deadline, the control data of every source and the rest of the state are the same.
\<close>

theorem registration_transparent:
  assumes "foldR (\<lambda>s w. bindR (rc_register dbg mio th co s w) (\<lambda>(b, w'). Inr w')) ss w = Inr w1"
    and "foldR (rc_deregister dbg mio th co) ss' w1 = Inr w2"
  shows "io_view w2 = io_view w"
  using rcsrc.regs_view [OF assms(1)] rcsrc.deregs_view [OF assms(2)] by simp

theorem registration_transparent_witness:
  "\<exists>w1 w2. foldR (\<lambda>s w. bindR (rc_register True tick_clock 0 (Id 5) s w) (\<lambda>(b, w'). Inr w')) [0, 1] one_source = Inr w1
     \<and> foldR (rc_deregister True tick_clock 0 (Id 5)) [0, 1] w1 = Inr w2 \<and> io_view w2 = io_view one_source"
proof -
  have token: "\<exists>token. token_from_ids True (Id 5) (EventSourceId 3) = Inr token"
    using tok.enc_total [of "Id 5" "EventSourceId 3"] by (simp add: ids_fit_def)
  then obtain w1 w2
    where reg: "foldR (\<lambda>s w. bindR (rc_register True tick_clock 0 (Id 5) s w) (\<lambda>(b, w'). Inr w')) [0, 1] one_source = Inr w1"
      and dereg: "foldR (rc_deregister True tick_clock 0 (Id 5)) [0, 1] w1 = Inr w2"
    by (auto simp: one_source_def RcEventSource_new_def tick_clock_def rc_register_def rc_deregister_def
        io_register_def io_deregister_def set_env_def set_chan_def Receiver_register_def channel_def
        interest_of_flags EventSet_readable_def has_read_def RW_read_def Let_def)
  with registration_transparent [OF reg dereg] show ?thesis by blast
qed

end
