(* ===== verification/Scheduler.thy ===== *)
theory Scheduler
  imports Mio_Api "HOL-Library.Multiset"
begin

text \<open>
  Scheduling (\<^verbatim>\<open>src/src/mod.rs\<close>): \<open>CoroutineControl\<close>, the handle through which a scheduler acts on
  a coroutine, and the default \<open>FifoScheduler\<close>. A scheduler callback returns the actions it takes
  on the controls, in order, and its own new state: resuming or migrating a coroutine runs code
  that cannot reach the scheduler (it is borrowed for the call), so performing the actions after
  the callback gives the same run. The event loop performs them (theory \<open>Handler\<close>).

  The traits are the record \<open>scheduler\<close>, a parameter of the whole instance. Their law is the locale
  \<open>scheduler_thread\<close>: each control handed to the scheduler is resumed, migrated, dropped or held, once. A
  control is a value that cannot be copied, so every scheduler obeys it.
\<close>

type_synonym co_ref = nat

record ctrl =
  was_handled :: bool
  is_yielding :: bool
  ctrl_rc :: co_ref

definition ctrl_new :: "co_ref \<Rightarrow> ctrl" where
  "ctrl_new rc = \<lparr>was_handled = False, is_yielding = False, ctrl_rc = rc\<rparr>"

definition set_is_yielding :: "ctrl \<Rightarrow> ctrl" where
  "set_is_yielding c = c\<lparr>is_yielding := True\<rparr>"

datatype sched_action = Resume ctrl | Migrate ctrl thread_id | Drop ctrl

fun action_ctrl :: "sched_action \<Rightarrow> ctrl" where
  "action_ctrl (Resume c) = c"
| "action_ctrl (Migrate c t) = c"
| "action_ctrl (Drop c) = c"

text \<open>User data of a coroutine: the type it was stored with (\<open>Any\<close>) and a value.\<close>

type_synonym userdata = "nat \<times> nat"

text \<open>
  The traits. A \<open>SchedulerThread\<close> is an object with some controls in it and data of its own; a \<open>Scheduler\<close>
  is the state that the threads share (\<open>'sg\<close>). The callbacks get the user data of the controls, which
  \<open>CoroutineControl::get_userdata\<close> reads, and the shared state.
\<close>

record sched_thread =
  st_held :: "ctrl list"

type_synonym ('sg, 'sc) sched_state = "'sc sched_thread_scheme \<times> 'sg"

record ('sg, 'sc) scheduler =
  sch_spawn_thread :: "'sg \<Rightarrow> ('sg, 'sc) sched_state"
  sch_spawned :: "(ctrl \<Rightarrow> userdata option) \<Rightarrow> ctrl \<Rightarrow> ('sg, 'sc) sched_state \<Rightarrow> sched_action list \<times> ('sg, 'sc) sched_state"
  sch_ready :: "(ctrl \<Rightarrow> userdata option) \<Rightarrow> ctrl \<Rightarrow> ('sg, 'sc) sched_state \<Rightarrow> sched_action list \<times> ('sg, 'sc) sched_state"
  sch_tick :: "(ctrl \<Rightarrow> userdata option) \<Rightarrow> ('sg, 'sc) sched_state \<Rightarrow> sched_action list \<times> ('sg, 'sc) sched_state"
  sch_timeout :: "('sg, 'sc) sched_state \<Rightarrow> u64 option \<times> ('sg, 'sc) sched_state"

text \<open>The provided methods of \<open>SchedulerThread\<close>, for schedulers that do not define their own.\<close>

definition default_tick ::
  "(ctrl \<Rightarrow> userdata option) \<Rightarrow> ('sg, 'sc) sched_state \<Rightarrow> sched_action list \<times> ('sg, 'sc) sched_state" where
  "default_tick ud s = ([], s)"

definition default_timeout :: "('sg, 'sc) sched_state \<Rightarrow> u64 option \<times> ('sg, 'sc) sched_state" where
  "default_timeout s = (None, s)"

text \<open>
  \<open>FifoSchedulerThread\<close>. The number of threads is the shared \<open>AtomicUsize\<close> of \<open>FifoScheduler\<close>; it is
  an argument of the operations that load it.
\<close>

record fifo = sched_thread +
  fs_thread_id :: nat
  fs_thread_i :: nat

definition FifoScheduler_new :: nat where
  "FifoScheduler_new = 0"

definition spawn_thread :: "nat \<Rightarrow> fifo \<times> nat" where
  "spawn_thread thread_num =
     (let prev = thread_num
      in (\<lparr>st_held = [], fs_thread_id = prev, fs_thread_i = prev\<rparr>, thread_num + 1))"

definition thread_next_i :: "nat \<Rightarrow> fifo \<Rightarrow> nat \<times> fifo" where
  "thread_next_i thread_num s =
     (let ret = fs_thread_i s; i = fs_thread_i s + 1
      in (ret, s\<lparr>fs_thread_i := (if i \<ge> thread_num then 0 else i)\<rparr>))"

definition fifo_spawned :: "nat \<Rightarrow> ctrl \<Rightarrow> fifo \<Rightarrow> sched_action list \<times> fifo" where
  "fifo_spawned thread_num c s =
     (let (thread_i, s') = thread_next_i thread_num s
      in if thread_i = fs_thread_id s then ([Resume c], s') else ([Migrate c thread_i], s'))"

definition fifo_ready :: "ctrl \<Rightarrow> fifo \<Rightarrow> sched_action list \<times> fifo" where
  "fifo_ready c s =
     (if is_yielding c then ([], s\<lparr>st_held := st_held s @ [c]\<rparr>) else ([Resume c], s))"

text \<open>The loop of \<open>tick\<close>: as many rounds as controls were delayed at its start, one pop each.\<close>

fun tick_loop :: "nat \<Rightarrow> fifo \<Rightarrow> sched_action list \<times> fifo" where
  "tick_loop 0 s = ([], s)"
| "tick_loop (Suc n) s =
     (case st_held s of
        [] \<Rightarrow> ([], s)
      | c # cs \<Rightarrow> (let (as, s') = tick_loop n (s\<lparr>st_held := cs\<rparr>) in (Resume c # as, s')))"

definition fifo_tick :: "fifo \<Rightarrow> sched_action list \<times> fifo" where
  "fifo_tick s = tick_loop (length (st_held s)) s"

definition fifo_timeout :: "fifo \<Rightarrow> u64 option" where
  "fifo_timeout s = (if st_held s = [] then None else Some 1000)"

text \<open>The trait objects of \<open>FifoScheduler\<close>; its callbacks only read the shared counter.\<close>

definition FifoScheduler :: "(nat, unit fifo_ext) scheduler" where
  "FifoScheduler =
     \<lparr>sch_spawn_thread = spawn_thread,
      sch_spawned = (\<lambda>ud c (s, n). let (as, s') = fifo_spawned n c s in (as, s', n)),
      sch_ready = (\<lambda>ud c (s, n). let (as, s') = fifo_ready c s in (as, s', n)),
      sch_tick = (\<lambda>ud (s, n). let (as, s') = fifo_tick s in (as, s', n)),
      sch_timeout = (\<lambda>(s, n). (fifo_timeout s, s, n))\<rparr>"

text \<open>The callbacks of the event loop into a scheduler, and a run of them.\<close>

datatype sched_call = CallSpawned ctrl | CallReady ctrl | CallTick

fun handed :: "sched_call list \<Rightarrow> ctrl list" where
  "handed [] = []"
| "handed (CallSpawned c # cs) = c # handed cs"
| "handed (CallReady c # cs) = c # handed cs"
| "handed (CallTick # cs) = handed cs"

fun sched_run ::
  "(ctrl \<Rightarrow> 's \<Rightarrow> sched_action list \<times> 's) \<Rightarrow> (ctrl \<Rightarrow> 's \<Rightarrow> sched_action list \<times> 's) \<Rightarrow>
   ('s \<Rightarrow> sched_action list \<times> 's) \<Rightarrow> sched_call list \<Rightarrow> 's \<Rightarrow> sched_action list \<times> 's" where
  "sched_run sp rd tk [] s = ([], s)"
| "sched_run sp rd tk (call # calls) s =
     (let (as, s') = (case call of CallSpawned c \<Rightarrow> sp c s | CallReady c \<Rightarrow> rd c s | CallTick \<Rightarrow> tk s);
          (bs, s'') = sched_run sp rd tk calls s'
      in (as @ bs, s''))"

text \<open>
  The threads on which a round of spawns lands, for a scheduler with id \<open>sid\<close> whose event loop is
  thread \<open>tid\<close>: its own id means the local thread, any other index names a thread to migrate to.
\<close>

fun next_is :: "nat \<Rightarrow> nat \<Rightarrow> fifo \<Rightarrow> nat list" where
  "next_is thread_num 0 s = []"
| "next_is thread_num (Suc k) s =
     (let (i, s') = thread_next_i thread_num s in i # next_is thread_num k s')"

definition placements :: "thread_id \<Rightarrow> nat \<Rightarrow> nat \<Rightarrow> fifo \<Rightarrow> thread_id list" where
  "placements tid thread_num k s =
     map (\<lambda>i. if i = fs_thread_id s then tid else i) (next_is thread_num k s)"

locale scheduler_thread =
  fixes spawned :: "ctrl \<Rightarrow> 's \<Rightarrow> sched_action list \<times> 's"
    and ready :: "ctrl \<Rightarrow> 's \<Rightarrow> sched_action list \<times> 's"
    and tick :: "'s \<Rightarrow> sched_action list \<times> 's"
    and held :: "'s \<Rightarrow> ctrl list"
  assumes spawned_keeps:
      "mset (map action_ctrl (fst (spawned c s))) + mset (held (snd (spawned c s))) = add_mset c (mset (held s))"
    and ready_keeps:
      "mset (map action_ctrl (fst (ready c s))) + mset (held (snd (ready c s))) = add_mset c (mset (held s))"
    and tick_keeps:
      "mset (map action_ctrl (fst (tick s))) + mset (held (snd (tick s))) = mset (held s)"
begin

lemma run_keeps:
  "mset (map action_ctrl (fst (sched_run spawned ready tick calls s)))
     + mset (held (snd (sched_run spawned ready tick calls s)))
   = mset (handed calls) + mset (held s)"
proof (induction calls arbitrary: s)
  case Nil
  then show ?case by simp
next
  case (Cons call calls)
  show ?case
  proof (cases call)
    case (CallSpawned c)
    with Cons.IH [of "snd (spawned c s)"] spawned_keeps [of c s] show ?thesis
      by (simp add: split_beta ac_simps)
  next
    case (CallReady c)
    with Cons.IH [of "snd (ready c s)"] ready_keeps [of c s] show ?thesis
      by (simp add: split_beta ac_simps)
  next
    case CallTick
    with Cons.IH [of "snd (tick s)"] tick_keeps [of s] show ?thesis
      by (simp add: split_beta ac_simps)
  qed
qed

end

lemma thread_next_i_simps [simp]:
  "fst (thread_next_i n s) = fs_thread_i s"
  "fs_thread_id (snd (thread_next_i n s)) = fs_thread_id s"
  "st_held (snd (thread_next_i n s)) = st_held s"
  by (simp_all add: thread_next_i_def Let_def)

lemma tick_loop_all: "tick_loop (length (st_held s)) s = (map Resume (st_held s), s\<lparr>st_held := []\<rparr>)"
proof (induction "st_held s" arbitrary: s)
  case Nil
  then show ?case by (cases s) simp
next
  case (Cons c cs)
  note d = Cons.hyps(2) [symmetric]
  from Cons.hyps(1) [of "s\<lparr>st_held := cs\<rparr>"] show ?case by (simp add: d)
qed

lemma fifo_tick_eq: "fifo_tick s = (map Resume (st_held s), s\<lparr>st_held := []\<rparr>)"
  by (simp add: fifo_tick_def tick_loop_all)

lemma action_ctrl_Resume: "action_ctrl \<circ> Resume = id"
  by auto

interpretation fifo: scheduler_thread "fifo_spawned n" fifo_ready fifo_tick st_held for n
  by unfold_locales
    (simp_all add: fifo_spawned_def fifo_ready_def fifo_tick_eq split_beta action_ctrl_Resume)

text \<open>
  What every scheduler obeys, by the ownership of controls: a control is a value that cannot be
  copied, so each one a callback was handed or held is resumed, migrated, dropped or held after it.
\<close>

definition sched_laws :: "('sg, 'sc) scheduler \<Rightarrow> bool" where
  "sched_laws sch \<longleftrightarrow>
     (\<forall>ud. scheduler_thread (sch_spawned sch ud) (sch_ready sch ud) (sch_tick sch ud) (\<lambda>s. st_held (fst s)))
   \<and> (\<forall>g. st_held (fst (sch_spawn_thread sch g)) = [])
   \<and> (\<forall>s. st_held (fst (snd (sch_timeout sch s))) = st_held (fst s))"

lemma FifoScheduler_simps [simp]:
  "sch_spawn_thread FifoScheduler = spawn_thread"
  "sch_spawned FifoScheduler ud c (s, n) = (fst (fifo_spawned n c s), snd (fifo_spawned n c s), n)"
  "sch_ready FifoScheduler ud c (s, n) = (fst (fifo_ready c s), snd (fifo_ready c s), n)"
  "sch_tick FifoScheduler ud (s, n) = (fst (fifo_tick s), snd (fifo_tick s), n)"
  "sch_timeout FifoScheduler (s, n) = (fifo_timeout s, s, n)"
  by (simp_all add: FifoScheduler_def case_prod_beta)

lemma sched_lawsD:
  assumes "sched_laws sch"
  shows "scheduler_thread (sch_spawned sch ud) (sch_ready sch ud) (sch_tick sch ud) (\<lambda>s. st_held (fst s))"
    and "st_held (fst (sch_spawn_thread sch g)) = []" and "st_held (fst (snd (sch_timeout sch s))) = st_held (fst s)"
  using assms unfolding sched_laws_def by blast+

interpretation fifo_obj: scheduler_thread "sch_spawned FifoScheduler ud" "sch_ready FifoScheduler ud"
  "sch_tick FifoScheduler ud" "\<lambda>s. st_held (fst s)" for ud
  by unfold_locales
    (use fifo.spawned_keeps fifo.ready_keeps fifo.tick_keeps in \<open>simp_all add: FifoScheduler_def case_prod_beta\<close>)

lemma FifoScheduler_laws: "sched_laws FifoScheduler"
  unfolding sched_laws_def using fifo_obj.scheduler_thread_axioms
  by (auto simp: FifoScheduler_def spawn_thread_def)

text \<open>The round-robin index stays below the number of threads.\<close>

lemma thread_next_i_bound:
  "fs_thread_i s < n \<Longrightarrow> fst (thread_next_i n s) < n \<and> fs_thread_i (snd (thread_next_i n s)) < n"
  by (auto simp: thread_next_i_def Let_def)

lemma thread_next_i_mod:
  "fs_thread_i s < n \<Longrightarrow> fs_thread_i (snd (thread_next_i n s)) = (fs_thread_i s + 1) mod n"
  by (auto simp: thread_next_i_def Let_def mod_Suc)

lemma next_is_eq:
  assumes "fs_thread_i s < n"
  shows "next_is n k s = map (\<lambda>j. (fs_thread_i s + j) mod n) [0..<k]"
  using assms
proof (induction k arbitrary: s)
  case 0
  then show ?case by simp
next
  case (Suc k)
  let ?s = "snd (thread_next_i n s)"
  have "next_is n k ?s = map (\<lambda>j. (fs_thread_i ?s + j) mod n) [0..<k]"
    using Suc.IH thread_next_i_bound [OF Suc.prems] by blast
  also have "\<dots> = map (\<lambda>j. (fs_thread_i s + Suc j) mod n) [0..<k]"
    by (simp add: thread_next_i_mod [OF Suc.prems] mod_add_left_eq)
  also have "\<dots> = map (\<lambda>j. (fs_thread_i s + j) mod n) [Suc 0..<Suc k]"
    by (simp only: map_Suc_upt [symmetric] map_map comp_def)
  finally show ?case using Suc.prems by (simp add: split_beta upt_conv_Cons del: upt_Suc)
qed

lemma next_is_rotate:
  assumes "fs_thread_i s < n"
  shows "next_is n n s = rotate (fs_thread_i s) [0..<n]"
  by (rule nth_equalityI) (simp_all add: next_is_eq [OF assms] nth_rotate)

lemma placements_round:
  assumes "fs_thread_i s < n"
  shows "mset (placements tid n n s) =
    image_mset (\<lambda>i. if i = fs_thread_id s then tid else i) (mset [0..<n])"
proof -
  have "mset (rotate (fs_thread_i s) [0..<n]) = mset [0..<n]"
    by (rule set_eq_iff_mset_eq_distinct [THEN iffD1]) simp_all
  then show ?thesis by (simp only: placements_def next_is_rotate [OF assms] mset_map)
qed

text \<open>
  Round robin. For a scheduler whose id is the index of its own event loop, any \<open>n\<close> consecutive
  spawns on an instance of \<open>n\<close> threads land on \<open>n\<close> different threads, each thread once.
\<close>

theorem round_robin_fair:
  assumes "fs_thread_i s < n" and "fs_thread_id s = tid"
  shows "distinct (placements tid n n s) \<and> set (placements tid n n s) = {..<n}"
proof -
  have "placements tid n n s = next_is n n s"
    using assms(2) by (simp add: placements_def map_idI)
  then show ?thesis by (auto simp: next_is_rotate [OF assms(1)])
qed

theorem round_robin_fair_witness:
  "fs_thread_i (\<lparr>st_held = [], fs_thread_id = 1, fs_thread_i = 1\<rparr> :: fifo) < 3
   \<and> distinct (placements 1 3 3 \<lparr>st_held = [], fs_thread_id = 1, fs_thread_i = 1\<rparr>)
   \<and> set (placements 1 3 3 \<lparr>st_held = [], fs_thread_id = 1, fs_thread_i = 1\<rparr>) = {..<3}"
  using round_robin_fair [of "\<lparr>st_held = [], fs_thread_id = 1, fs_thread_i = 1\<rparr>" 3 1] by simp

text \<open>
  The round-robin index names an existing thread. A per-thread scheduler starts with its own id as
  index, and whatever the number of schedulers spawned since, each index it hands out is below the
  number of schedulers.
\<close>

theorem round_robin_index_bound:
  assumes "n < m" and "fs_thread_i s \<le> n" and "i \<in> set (next_is m k s)"
  shows "fs_thread_i (fst (spawn_thread n)) < snd (spawn_thread n) \<and> i < m"
proof -
  have "fs_thread_i s < m" using assms(1,2) by simp
  from next_is_eq [OF this, of k] assms(1,3) have "i < m" by auto
  then show ?thesis by (simp add: spawn_thread_def Let_def)
qed

theorem round_robin_index_bound_witness:
  "fs_thread_i (fst (spawn_thread 1)) < snd (spawn_thread 1)
   \<and> (2 :: nat) \<in> set (next_is 3 2 (fst (spawn_thread 1))) \<and> (2 :: nat) < 3"
proof -
  have "2 \<in> set (next_is 3 2 (fst (spawn_thread 1)))"
    by (simp add: spawn_thread_def numeral_2_eq_2 thread_next_i_def Let_def)
  with round_robin_index_bound [of 1 3 "fst (spawn_thread 1)" 2 2] show ?thesis
    by (simp add: spawn_thread_def)
qed



lemma fifo_never_drops: "Drop c \<notin> set (fst (sched_run (fifo_spawned n) fifo_ready fifo_tick calls s))"
proof (induction calls arbitrary: s)
  case (Cons call calls)
  then show ?case
    by (cases call) (auto simp: fifo_spawned_def fifo_ready_def fifo_tick_eq case_prod_beta split: if_splits)
qed simp

text \<open>
  The default scheduler loses no coroutine. Over any sequence of callbacks, every control handed to
  it or held before was acted on exactly once or is still among the delayed ones, and no action is a
  drop, which would kill the coroutine.
\<close>

theorem fifo_keeps_coroutines:
  "mset (map action_ctrl (fst (sched_run (fifo_spawned n) fifo_ready fifo_tick calls s)))
     + mset (st_held (snd (sched_run (fifo_spawned n) fifo_ready fifo_tick calls s)))
   = mset (handed calls) + mset (st_held s)
   \<and> Drop c \<notin> set (fst (sched_run (fifo_spawned n) fifo_ready fifo_tick calls s))"
  using fifo.run_keeps fifo_never_drops by blast

text \<open>
  Coroutines that yielded run again in the order in which they yielded, each once, at the next
  tick; what they yield during that tick waits for the tick after it.
\<close>

theorem yielded_resume_in_order:
  assumes "\<forall>c \<in> set cs. is_yielding c" and "st_held s = []"
  shows "fst (sched_run (fifo_spawned n) fifo_ready fifo_tick (map CallReady cs @ [CallTick]) s) = map Resume cs
    \<and> st_held (snd (sched_run (fifo_spawned n) fifo_ready fifo_tick (map CallReady cs @ [CallTick]) s)) = []"
proof -
  have "sched_run (fifo_spawned n) fifo_ready fifo_tick (map CallReady cs @ [CallTick]) u
      = (map Resume (st_held u @ cs), u\<lparr>st_held := []\<rparr>)" for u
    using assms(1)
    by (induction cs arbitrary: u) (simp_all add: fifo_tick_eq fifo_ready_def)
  with assms(2) show ?thesis by simp
qed

theorem yielded_resume_in_order_witness:
  "fst (sched_run (fifo_spawned 2) fifo_ready fifo_tick
       [CallReady (set_is_yielding (ctrl_new 4)), CallReady (set_is_yielding (ctrl_new 5)), CallTick]
       (fst (spawn_thread 0)))
   = [Resume (set_is_yielding (ctrl_new 4)), Resume (set_is_yielding (ctrl_new 5))]"
  using yielded_resume_in_order [of "[set_is_yielding (ctrl_new 4), set_is_yielding (ctrl_new 5)]"
      "fst (spawn_thread 0)" 2]
  by (simp add: set_is_yielding_def spawn_thread_def)

end
