(* ===== verification/World.thy ===== *)
theory World
  imports Evented Scheduler
begin

text \<open>
  The state of a mioco instance (\<^verbatim>\<open>src/src/thread.rs\<close>, \<^verbatim>\<open>src/src/coroutine.rs\<close>): the coroutines, the
  \<open>HandlerShared\<close> of every thread, the counters of \<open>HandlerThreadShared\<close> and the thread-local pointer to the
  running coroutine, over the stores of \<open>io_world\<close>. Then the operations of \<open>HandlerShared\<close>.

  User code is a parameter: a coroutine at rest is a continuation \<open>'k\<close>, and what it does from one
  context switch to the next is a finite segment (\<open>seg\<close>) of calls into the library that ends with
  a switch, a return or a panic. A reference to an \<open>Rc\<close> of a coroutine or a channel is a number.
\<close>

text \<open>Values in channels: user values, \<open>()\<close>, and the exit status of a coroutine.\<close>

datatype val = VUnit | VUser nat | VExit "panic + nat"

datatype state = Blocked | Yielding | Ready | Finished

fun is_ready :: "state \<Rightarrow> bool" where
  "is_ready Ready = True"
| "is_ready _ = False"

fun is_blocked :: "state \<Rightarrow> bool" where
  "is_blocked Blocked = True"
| "is_blocked _ = False"

fun state_is_yielding :: "state \<Rightarrow> bool" where
  "state_is_yielding Yielding = True"
| "state_is_yielding _ = False"

record co_config =
  cf_stack_size :: usize
  cf_catch_panics :: bool
  cf_stack_protection :: bool

definition co_config_default :: co_config where
  "co_config_default = \<lparr>cf_stack_size = 2 * 1024 * 1024, cf_catch_panics = True, cf_stack_protection = True\<rparr>"

text \<open>
  Where a coroutine's saved context stands: at its start function, at a switch inside user code
  (with the exit sender that its frames hold), or behind its end.
\<close>

datatype 'k saved_context = Fresh | Suspended 'k chan_ref | Exited

record 'k coroutine =
  co_context :: "'k saved_context option"
  co_state :: state
  co_last_event :: Event
  co_handler_shared :: "thread_id option"
  co_the_id :: co_id
  co_blocked_on :: "src_ref list"
  co_children :: "co_ref list"
  co_func :: "('k \<times> chan_ref) option"
  co_self_rc :: "co_ref option"
  co_sync_channel :: "(chan_ref \<times> src_ref) option"
  co_user_data :: "userdata option"
  co_inherited :: "userdata option"
  co_killed :: bool

record 'sl handler_shared =
  hs_coroutines :: 'sl
  hs_context :: bool
  hs_senders :: "thread_id list"
  hs_config :: co_config
  hs_spawned :: "ctrl list"
  hs_ready :: "ctrl list"
  hs_thread_id :: nat

datatype Message =
    ChannelMsg token
  | Migration ctrl
  | PropagatePanic panic
  | Shutdown
  | Terminate

record ('el, 'sl, 'k, 'sg, 'sc) world = "('el, val) io_world" +
  w_cos :: "co_ref \<Rightarrow> 'k coroutine"
  w_nco :: nat
  w_nchan :: nat
  w_nsrc :: nat
  w_hs :: "thread_id \<Rightarrow> 'sl handler_shared"
  w_sched :: "thread_id \<Rightarrow> 'sc sched_thread_scheme"
  w_sched_shared :: 'sg
  w_shutting :: "thread_id \<Rightarrow> bool"
  w_started :: usize
  w_num :: usize
  w_thread_num :: usize
  w_current :: "thread_id \<Rightarrow> co_ref option"

text \<open>
  A segment of user code. \<open>act\<close> is a call into the library that does not switch away, \<open>switch\<close> one
  that does; \<open>resp\<close> is what a call returns. \<open>AUserIo n\<close> stands for any other effect on the outside.
\<close>

datatype 'k act =
    ASpawn 'k
  | ANewChannel
  | ANewSyncChannel nat
  | ANewSource raw_io
  | ATimerNew
  | ATimerSet src_ref u64
  | ATimerTryRead src_ref
  | ASelectAdd src_ref RW
  | ASend chan_ref val
  | ATryRecv chan_ref
  | ACloneSender chan_ref
  | ADropSender chan_ref
  | ADropReceiver chan_ref
  | ASetUserdata userdata
  | ASetChildrenUserdata "userdata option"
  | AGetUserdata nat
  | AThreadNum
  | ABroadcastShutdown
  | AUserIo nat

datatype resp =
    RUnit
  | RChannel chan_ref src_ref
  | RSource src_ref
  | RTime "instant option"
  | RSend "val send_ret"
  | RRecv "val try_recv_ret"
  | RData "nat option"
  | RNum usize
  | RIo nat

datatype switch = SwYield | SwBlockOn src_ref RW | SwSelectWait

datatype 'k seg = Ret nat | Unwind panic | Switch switch 'k | Act "'k act" "resp \<Rightarrow> 'k seg"

text \<open>How a segment starts: for the first time, resumed by an event, or to unwind as killed.\<close>

datatype wake = WakeStart | WakeEvent Event | WakeKilled

text \<open>The parameters: the build, mio, the slab, the scheduler, user code and its other effects.\<close>

record ('el, 'sl, 'k, 'sg, 'sc) rt =
  rt_dbg :: bool
  rt_mio :: "('el, Message) mio"
  rt_slab :: "('sl, co_ref) slab"
  rt_sched :: "('sg, 'sc) scheduler"
  rt_code :: "'k \<Rightarrow> wake \<Rightarrow> 'k seg"
  rt_user_io :: "nat \<Rightarrow> 'el \<Rightarrow> nat \<times> 'el"

definition upd_co :: "co_ref \<Rightarrow> ('k coroutine \<Rightarrow> 'k coroutine) \<Rightarrow> ('el, 'sl, 'k, 'sg, 'sc) world \<Rightarrow> ('el, 'sl, 'k, 'sg, 'sc) world" where
  "upd_co r f w = w\<lparr>w_cos := (w_cos w)(r := f (w_cos w r))\<rparr>"

definition upd_hs ::
  "thread_id \<Rightarrow> ('sl handler_shared \<Rightarrow> 'sl handler_shared) \<Rightarrow> ('el, 'sl, 'k, 'sg, 'sc) world \<Rightarrow> ('el, 'sl, 'k, 'sg, 'sc) world" where
  "upd_hs t f w = w\<lparr>w_hs := (w_hs w)(t := f (w_hs w t))\<rparr>"

text \<open>The thread-local reference to the running coroutine.\<close>

definition tl_current_coroutine :: "thread_id \<Rightarrow> ('el, 'sl, 'k, 'sg, 'sc) world \<Rightarrow> co_ref res" where
  "tl_current_coroutine th w = (case w_current w th of None \<Rightarrow> Inl OutsideCoroutine | Some co \<Rightarrow> Inr co)"

definition tl_current_coroutine_ptr_save ::
  "thread_id \<Rightarrow> co_ref \<Rightarrow> ('el, 'sl, 'k, 'sg, 'sc) world \<Rightarrow> co_ref option \<times> ('el, 'sl, 'k, 'sg, 'sc) world" where
  "tl_current_coroutine_ptr_save th co w = (w_current w th, w\<lparr>w_current := (w_current w)(th := Some co)\<rparr>)"

definition tl_current_coroutine_ptr_restore ::
  "thread_id \<Rightarrow> co_ref option \<Rightarrow> ('el, 'sl, 'k, 'sg, 'sc) world \<Rightarrow> ('el, 'sl, 'k, 'sg, 'sc) world" where
  "tl_current_coroutine_ptr_restore th prev w = w\<lparr>w_current := (w_current w)(th := prev)\<rparr>"

text \<open>\<open>HandlerShared\<close>.\<close>

definition HandlerShared_new ::
  "('sl, co_ref) slab \<Rightarrow> thread_id list \<Rightarrow> co_config \<Rightarrow> nat \<Rightarrow> 'sl handler_shared" where
  "HandlerShared_new sl senders config thread_id =
     \<lparr>hs_coroutines = slab_new_starting_at sl STARTING_ID 512, hs_context = False, hs_senders = senders,
      hs_config = config, hs_spawned = [], hs_ready = [], hs_thread_id = thread_id\<rparr>"

definition add_spawned :: "ctrl \<Rightarrow> 'sl handler_shared \<Rightarrow> 'sl handler_shared" where
  "add_spawned c h = h\<lparr>hs_spawned := hs_spawned h @ [c]\<rparr>"

definition add_ready :: "ctrl \<Rightarrow> 'sl handler_shared \<Rightarrow> 'sl handler_shared" where
  "add_ready c h = h\<lparr>hs_ready := hs_ready h @ [c]\<rparr>"

definition get_sender_to_thread :: "nat \<Rightarrow> 'sl handler_shared \<Rightarrow> thread_id res" where
  "get_sender_to_thread i h = (if i < length (hs_senders h) then Inr (hs_senders h ! i) else Inl IndexOutOfBounds)"

definition get_sender_to_own_thread :: "'sl handler_shared \<Rightarrow> thread_id res" where
  "get_sender_to_own_thread h = get_sender_to_thread (hs_thread_id h) h"

definition send_msg ::
  "('el, 'sl, 'k, 'sg, 'sc) rt \<Rightarrow> thread_id \<Rightarrow> Message \<Rightarrow> ('el, 'sl, 'k, 'sg, 'sc) world \<Rightarrow> ('el, 'sl, 'k, 'sg, 'sc) world res" where
  "send_msg rt t m w = bindR (sender_retry (rt_mio rt) t m (w_env w)) (\<lambda>e. Inr (set_env e w))"

definition broadcast ::
  "('el, 'sl, 'k, 'sg, 'sc) rt \<Rightarrow> thread_id \<Rightarrow> Message \<Rightarrow> ('el, 'sl, 'k, 'sg, 'sc) world \<Rightarrow> ('el, 'sl, 'k, 'sg, 'sc) world res" where
  "broadcast rt th m w = foldR (\<lambda>sender. send_msg rt sender m) (hs_senders (w_hs w th)) w"

definition broadcast_shutdown ::
  "('el, 'sl, 'k, 'sg, 'sc) rt \<Rightarrow> thread_id \<Rightarrow> ('el, 'sl, 'k, 'sg, 'sc) world \<Rightarrow> ('el, 'sl, 'k, 'sg, 'sc) world res" where
  "broadcast_shutdown rt th w = broadcast rt th Shutdown w"

definition broadcast_terminate ::
  "('el, 'sl, 'k, 'sg, 'sc) rt \<Rightarrow> thread_id \<Rightarrow> ('el, 'sl, 'k, 'sg, 'sc) world \<Rightarrow> ('el, 'sl, 'k, 'sg, 'sc) world res" where
  "broadcast_terminate rt th w = broadcast rt th Terminate w"

definition signal_start_all :: "('el, 'sl, 'k, 'sg, 'sc) world \<Rightarrow> ('el, 'sl, 'k, 'sg, 'sc) world" where
  "signal_start_all w = w\<lparr>w_started := 1\<rparr>"

definition coroutines_inc :: "('el, 'sl, 'k, 'sg, 'sc) world \<Rightarrow> ('el, 'sl, 'k, 'sg, 'sc) world" where
  "coroutines_inc w = w\<lparr>w_num := w_num w + 1\<rparr>"

definition coroutines_dec ::
  "('el, 'sl, 'k, 'sg, 'sc) rt \<Rightarrow> thread_id \<Rightarrow> ('el, 'sl, 'k, 'sg, 'sc) world \<Rightarrow> ('el, 'sl, 'k, 'sg, 'sc) world res" where
  "coroutines_dec rt th w =
     (let prev = w_num w; w1 = w\<lparr>w_num := w_num w - 1\<rparr>
      in bindR (if prev = 1 then broadcast_terminate rt th w1 else Inr w1) (\<lambda>w2.
         bindR (debug_assert (rt_dbg rt) (prev > 0)) (\<lambda>_. Inr w2)))"

text \<open>The slab with room for one more.\<close>

definition slab_reserve :: "('sl, 'a) slab \<Rightarrow> 'sl \<Rightarrow> 'sl" where
  "slab_reserve sl s = (if \<not> slab_has_remaining sl s then slab_grow sl (slab_count sl s) s else s)"

definition HandlerShared_attach ::
  "('sl, co_ref) slab \<Rightarrow> co_ref \<Rightarrow> 'sl handler_shared \<Rightarrow> (co_id \<times> 'sl handler_shared) res" where
  "HandlerShared_attach sl rc h =
     (case slab_insert sl rc (slab_reserve sl (hs_coroutines h)) of
        Some (i, s) \<Rightarrow> Inr (i, h\<lparr>hs_coroutines := s\<rparr>)
      | None \<Rightarrow> Inl AttachFailed)"

text \<open>Wake-ups of channel receivers go through the same retrying send.\<close>

definition notify_token :: "('el, 'sl, 'k, 'sg, 'sc) rt \<Rightarrow> thread_id \<Rightarrow> token \<Rightarrow> 'el \<Rightarrow> 'el res" where
  "notify_token rt t token e = sender_retry (rt_mio rt) t (ChannelMsg token) e"

end
