(* ===== verification/Coroutine.thy ===== *)
theory Coroutine
  imports World
begin

text \<open>
  Coroutines (\<^verbatim>\<open>src/src/coroutine.rs\<close>): spawning, blocking and unblocking, moving between threads, event
  delivery, and the context switches. \<open>jump_in\<close> runs the coroutine up to its next switch or to
  its end (\<open>run_seg\<close>), and the end is \<open>finish\<close>, the tail of \<open>coroutine_main_fn\<close>. The argument \<open>th\<close> is
  always the thread that executes, whose event loop and thread-local pointer the code uses.

  A panic inside the library while user code runs ends the modelled run; panics of user code are
  the \<open>Unwind\<close> end of a segment and are caught by \<open>finish\<close> as the source does.
\<close>

definition Coroutine_spawn ::
  "('el, 'sl, 'k, 'sg, 'sc) rt \<Rightarrow> thread_id \<Rightarrow> userdata option \<Rightarrow> 'k \<Rightarrow> chan_ref \<Rightarrow> ('el, 'sl, 'k, 'sg, 'sc) world \<Rightarrow>
   (co_ref \<times> ('el, 'sl, 'k, 'sg, 'sc) world) res" where
  "Coroutine_spawn rt th inherited k exit_sender w =
     (let coroutines = slab_reserve (rt_slab rt) (hs_coroutines (w_hs w th)); rc = w_nco w
      in case slab_insert_with (rt_slab rt) (\<lambda>i. rc) coroutines of
           None \<Rightarrow> Inl RunOutOfSlab
         | Some (i, coroutines') \<Rightarrow>
             (let co = \<lparr>co_context = Some Fresh, co_state = Ready,
                        co_last_event = \<lparr>event_id = EventSourceId 0, event_rw = RW_read\<rparr>,
                        co_handler_shared = Some th, co_the_id = i, co_blocked_on = [], co_children = [],
                        co_func = Some (k, exit_sender), co_self_rc = None, co_sync_channel = None,
                        co_user_data = inherited, co_inherited = inherited, co_killed = False\<rparr>;
                  w1 = upd_hs th (\<lambda>h. h\<lparr>hs_coroutines := coroutines'\<rparr>)
                         (w\<lparr>w_cos := (w_cos w)(rc := co), w_nco := rc + 1\<rparr>);
                  w2 = coroutines_inc w1
              in case slab_get (rt_slab rt) i (hs_coroutines (w_hs w2 th)) of
                   None \<Rightarrow> Inl IndexOutOfBounds
                 | Some coroutine_rc \<Rightarrow>
                     Inr (coroutine_rc, upd_co coroutine_rc (\<lambda>c. c\<lparr>co_self_rc := Some coroutine_rc\<rparr>) w2)))"

definition spawn_child ::
  "('el, 'sl, 'k, 'sg, 'sc) rt \<Rightarrow> co_ref \<Rightarrow> 'k \<Rightarrow> chan_ref \<Rightarrow> ('el, 'sl, 'k, 'sg, 'sc) world \<Rightarrow> ('el, 'sl, 'k, 'sg, 'sc) world res" where
  "spawn_child rt self k exit_sender w =
     bindR (unwrap (co_handler_shared (w_cos w self))) (\<lambda>th.
     bindR (Coroutine_spawn rt th (co_inherited (w_cos w self)) k exit_sender w) (\<lambda>(child, w').
       Inr (upd_co self (\<lambda>c. c\<lparr>co_children := co_children c @ [child]\<rparr>) w')))"

text \<open>The next source a coroutine waits for is numbered by its place in \<open>blocked_on\<close>.\<close>

definition push_blocked ::
  "co_ref \<Rightarrow> src_ref \<Rightarrow> RW \<Rightarrow> ('el, 'sl, 'k, 'sg, 'sc) world \<Rightarrow> ('el, 'sl, 'k, 'sg, 'sc) world" where
  "push_blocked self s rw w =
     upd_co self (\<lambda>c. c\<lparr>co_blocked_on := co_blocked_on c @ [s]\<rparr>)
       (mark_blocked s (of_nat (length (co_blocked_on (w_cos w self)))) rw w)"

definition Coroutine_block_on ::
  "co_ref \<Rightarrow> src_ref \<Rightarrow> RW \<Rightarrow> ('el, 'sl, 'k, 'sg, 'sc) world \<Rightarrow> ('el, 'sl, 'k, 'sg, 'sc) world" where
  "Coroutine_block_on self s rw w = push_blocked self s rw (upd_co self (\<lambda>c. c\<lparr>co_state := Blocked\<rparr>) w)"

definition deregister_all ::
  "('el, 'sl, 'k, 'sg, 'sc) rt \<Rightarrow> thread_id \<Rightarrow> co_ref \<Rightarrow> ('el, 'sl, 'k, 'sg, 'sc) world \<Rightarrow> ('el, 'sl, 'k, 'sg, 'sc) world res" where
  "deregister_all rt th self w =
     foldR (rc_deregister (rt_dbg rt) (rt_mio rt) th (co_the_id (w_cos w self)))
       (co_blocked_on (w_cos w self)) (upd_co self (\<lambda>c. c\<lparr>co_blocked_on := []\<rparr>) w)"

definition unblock ::
  "('el, 'sl, 'k, 'sg, 'sc) rt \<Rightarrow> thread_id \<Rightarrow> co_ref \<Rightarrow> Event \<Rightarrow> ('el, 'sl, 'k, 'sg, 'sc) world \<Rightarrow> ('el, 'sl, 'k, 'sg, 'sc) world res" where
  "unblock rt th self event w =
     deregister_all rt th self (upd_co self (\<lambda>c. c\<lparr>co_state := Ready, co_last_event := event\<rparr>) w)"

definition unblock_after_yield :: "co_ref \<Rightarrow> ('el, 'sl, 'k, 'sg, 'sc) world \<Rightarrow> ('el, 'sl, 'k, 'sg, 'sc) world" where
  "unblock_after_yield self w = upd_co self (\<lambda>c. c\<lparr>co_state := Ready\<rparr>) w"

text \<open>One round of the loop of \<open>register_all\<close>; the last source that is ready already is remembered.\<close>

definition register_one ::
  "('el, 'sl, 'k, 'sg, 'sc) rt \<Rightarrow> thread_id \<Rightarrow> co_id \<Rightarrow> src_ref \<Rightarrow>
   Event option \<times> ('el, 'sl, 'k, 'sg, 'sc) world \<Rightarrow> (Event option \<times> ('el, 'sl, 'k, 'sg, 'sc) world) res" where
  "register_one rt th i s = (\<lambda>(acc, w).
     bindR (rc_register (rt_dbg rt) (rt_mio rt) th i s w) (\<lambda>(ready, w').
       if ready then
         bindR (unwrap (rc_id s w')) (\<lambda>id. Inr (Some \<lparr>event_id = id, event_rw = rc_blocked_on s w'\<rparr>, w'))
       else Inr (acc, w')))"

definition register_all ::
  "('el, 'sl, 'k, 'sg, 'sc) rt \<Rightarrow> thread_id \<Rightarrow> co_ref \<Rightarrow> ('el, 'sl, 'k, 'sg, 'sc) world \<Rightarrow> (bool \<times> ('el, 'sl, 'k, 'sg, 'sc) world) res" where
  "register_all rt th self w =
     bindR (foldR (register_one rt th (co_the_id (w_cos w self))) (co_blocked_on (w_cos w self)) (None, w)) (\<lambda>(acc, w').
       case acc of
         Some event \<Rightarrow> bindR (unblock rt th self event w') (\<lambda>w''. Inr (True, w''))
       | None \<Rightarrow> Inr (False, w'))"

definition start_children :: "co_ref \<Rightarrow> ('el, 'sl, 'k, 'sg, 'sc) world \<Rightarrow> ('el, 'sl, 'k, 'sg, 'sc) world res" where
  "start_children self w =
     bindR (unwrap (co_handler_shared (w_cos w self))) (\<lambda>th.
       Inr (upd_hs th (\<lambda>h. fold (\<lambda>child. add_spawned (ctrl_new child)) (co_children (w_cos w self)) h)
              (upd_co self (\<lambda>c. c\<lparr>co_children := []\<rparr>) w)))"

definition detach_from ::
  "('el, 'sl, 'k, 'sg, 'sc) rt \<Rightarrow> thread_id \<Rightarrow> co_ref \<Rightarrow> ('el, 'sl, 'k, 'sg, 'sc) world \<Rightarrow>
   (thread_id \<times> ('el, 'sl, 'k, 'sg, 'sc) world) res" where
  "detach_from rt th self w =
     bindR (deregister_all rt th self w) (\<lambda>w1.
     bindR (unwrap (co_handler_shared (w_cos w1 self))) (\<lambda>from.
       Inr (from, upd_co self (\<lambda>c. c\<lparr>co_handler_shared := None\<rparr>) w1)))"

definition attach_to ::
  "('el, 'sl, 'k, 'sg, 'sc) rt \<Rightarrow> thread_id \<Rightarrow> co_ref \<Rightarrow> thread_id \<Rightarrow> co_id \<Rightarrow>
   ('el, 'sl, 'k, 'sg, 'sc) world \<Rightarrow> ('el, 'sl, 'k, 'sg, 'sc) world res" where
  "attach_to rt th self to i w =
     bindR (register_all rt th self
              (upd_co self (\<lambda>c. c\<lparr>co_the_id := i, co_handler_shared := Some to\<rparr>) w)) (\<lambda>(_, w'). Inr w')"

definition was_running_before :: "'k coroutine \<Rightarrow> bool" where
  "was_running_before c = (co_func c = None)"

text \<open>\<open>CoroutineSlabHandle::event\<close>.\<close>

definition event_rw_of :: "EventSet \<Rightarrow> RW res" where
  "event_rw_of events =
     (case (is_readable events \<or> is_hup events, is_writable events) of
        (True, True) \<Rightarrow> Inr RW_both
      | (True, False) \<Rightarrow> Inr RW_read
      | (False, True) \<Rightarrow> Inr RW_write
      | (False, False) \<Rightarrow> Inl EmptyEventSet)"

definition co_event ::
  "('el, 'sl, 'k, 'sg, 'sc) rt \<Rightarrow> thread_id \<Rightarrow> co_ref \<Rightarrow> token \<Rightarrow> EventSet \<Rightarrow> ('el, 'sl, 'k, 'sg, 'sc) world \<Rightarrow>
   (bool \<times> ('el, 'sl, 'k, 'sg, 'sc) world) res" where
  "co_event rt th rc token events w =
     (let (_, io_id) = token_to_ids token
      in if \<not> is_blocked (co_state (w_cos w rc)) then Inr (False, w)
         else bindR (event_rw_of events) (\<lambda>rw.
              bindR (unblock rt th rc \<lparr>event_id = io_id, event_rw = rw\<rparr> w) (\<lambda>w'. Inr (True, w'))))"

text \<open>
  The saved context of the event loop, kept in the handler of the coroutine: stored on every entry
  into a coroutine, taken on every exit.
\<close>

definition enter_context :: "co_ref \<Rightarrow> ('el, 'sl, 'k, 'sg, 'sc) world \<Rightarrow> ('el, 'sl, 'k, 'sg, 'sc) world res" where
  "enter_context rc w =
     bindR (unwrap (co_handler_shared (w_cos w rc))) (\<lambda>th. Inr (upd_hs th (\<lambda>h. h\<lparr>hs_context := True\<rparr>) w))"

definition take_out_context :: "co_ref \<Rightarrow> ('el, 'sl, 'k, 'sg, 'sc) world \<Rightarrow> ('el, 'sl, 'k, 'sg, 'sc) world res" where
  "take_out_context rc w =
     bindR (unwrap (co_handler_shared (w_cos w rc))) (\<lambda>th.
       if hs_context (w_hs w th) then Inr (upd_hs th (\<lambda>h. h\<lparr>hs_context := False\<rparr>) w) else Inl UnwrapNone)"

text \<open>\<open>jump_out\<close>, up to the switch to the event loop; the rest of it is the entry in \<open>start_segment\<close>.\<close>

definition jump_out :: "('el, 'sl, 'k, 'sg, 'sc) rt \<Rightarrow> co_ref \<Rightarrow> ('el, 'sl, 'k, 'sg, 'sc) world \<Rightarrow> ('el, 'sl, 'k, 'sg, 'sc) world res" where
  "jump_out rt rc w =
     (let state = co_state (w_cos w rc)
      in bindR (debug_assert (rt_dbg rt) (is_blocked state \<or> state_is_yielding state)) (\<lambda>_. take_out_context rc w))"

text \<open>
  The library functions a running coroutine calls (\<^verbatim>\<open>src/src/mod.rs\<close>, \<^verbatim>\<open>src/src/evented.rs\<close>). \<open>th\<close> is the
  executing thread; outside a coroutine its pointer is null and the calls panic.
\<close>

text \<open>A new channel with its receiver's event source, in fresh cells.\<close>

definition alloc_channel ::
  "val chan \<Rightarrow> ('el, 'sl, 'k, 'sg, 'sc) world \<Rightarrow> (chan_ref \<times> src_ref) \<times> ('el, 'sl, 'k, 'sg, 'sc) world" where
  "alloc_channel ch w =
     (let c = w_nchan w; s = w_nsrc w
      in ((c, s), (set_src s (RcEventSource_new (ReceiverIo c)) (set_chan c ch w))
                    \<lparr>w_nchan := c + 1, w_nsrc := s + 1\<rparr>))"

definition new_channel :: "('el, 'sl, 'k, 'sg, 'sc) world \<Rightarrow> (chan_ref \<times> src_ref) \<times> ('el, 'sl, 'k, 'sg, 'sc) world" where
  "new_channel w = alloc_channel channel w"

text \<open>A new event source: \<open>RcEventSource::new\<close> of a mio object or a timer, in a fresh cell.\<close>

definition new_source :: "io \<Rightarrow> ('el, 'sl, 'k, 'sg, 'sc) world \<Rightarrow> src_ref \<times> ('el, 'sl, 'k, 'sg, 'sc) world" where
  "new_source t w =
     (let s = w_nsrc w in (s, (set_src s (RcEventSource_new t) w)\<lparr>w_nsrc := s + 1\<rparr>))"

text \<open>The calls of a \<open>Timer\<close>, on the timer in its cell. A reference to another source has another type.\<close>

definition timer_op ::
  "src_ref \<Rightarrow> (timer_core \<Rightarrow> 'el \<Rightarrow> 'r \<times> timer_core \<times> 'el) \<Rightarrow> ('el, 'sl, 'k, 'sg, 'sc) world \<Rightarrow>
   ('r \<times> ('el, 'sl, 'k, 'sg, 'sc) world) res" where
  "timer_op s f w =
     (case es_io (w_srcs w s) of
        TimerIo t \<Rightarrow>
          (let (r, t', e) = f t (w_env w)
           in Inr (r, set_src s ((w_srcs w s)\<lparr>es_io := TimerIo t'\<rparr>) (set_env e w)))
      | _ \<Rightarrow> Inl WrongSource)"

definition mioco_spawn ::
  "('el, 'sl, 'k, 'sg, 'sc) rt \<Rightarrow> thread_id \<Rightarrow> 'k \<Rightarrow> ('el, 'sl, 'k, 'sg, 'sc) world \<Rightarrow> ((chan_ref \<times> src_ref) \<times> ('el, 'sl, 'k, 'sg, 'sc) world) res" where
  "mioco_spawn rt th k w =
     bindR (tl_current_coroutine th w) (\<lambda>co.
       let (receiver, w1) = new_channel w
       in bindR (spawn_child rt co k (fst receiver) w1) (\<lambda>w2. Inr (receiver, w2)))"

definition select_add ::
  "thread_id \<Rightarrow> src_ref \<Rightarrow> RW \<Rightarrow> ('el, 'sl, 'k, 'sg, 'sc) world \<Rightarrow> ('el, 'sl, 'k, 'sg, 'sc) world res" where
  "select_add th s rw w = bindR (tl_current_coroutine th w) (\<lambda>co. Inr (push_blocked co s rw w))"

definition set_userdata :: "thread_id \<Rightarrow> userdata \<Rightarrow> ('el, 'sl, 'k, 'sg, 'sc) world \<Rightarrow> ('el, 'sl, 'k, 'sg, 'sc) world res" where
  "set_userdata th d w =
     bindR (tl_current_coroutine th w) (\<lambda>co. Inr (upd_co co (\<lambda>c. c\<lparr>co_user_data := Some d\<rparr>) w))"

definition set_children_userdata ::
  "thread_id \<Rightarrow> userdata option \<Rightarrow> ('el, 'sl, 'k, 'sg, 'sc) world \<Rightarrow> ('el, 'sl, 'k, 'sg, 'sc) world res" where
  "set_children_userdata th d w =
     bindR (tl_current_coroutine th w) (\<lambda>co. Inr (upd_co co (\<lambda>c. c\<lparr>co_inherited := d\<rparr>) w))"

text \<open>\<open>get_userdata<T>\<close>: the stored value when its type is \<open>T\<close>, of the current coroutine or of a control's.\<close>

definition downcast :: "nat \<Rightarrow> userdata option \<Rightarrow> nat option" where
  "downcast ty d = (case d of Some (ty', v) \<Rightarrow> if ty' = ty then Some v else None | None \<Rightarrow> None)"

definition get_userdata :: "thread_id \<Rightarrow> nat \<Rightarrow> ('el, 'sl, 'k, 'sg, 'sc) world \<Rightarrow> nat option res" where
  "get_userdata th ty w =
     bindR (tl_current_coroutine th w) (\<lambda>co. Inr (downcast ty (co_user_data (w_cos w co))))"

definition ctrl_get_userdata :: "nat \<Rightarrow> ctrl \<Rightarrow> ('el, 'sl, 'k, 'sg, 'sc) world \<Rightarrow> nat option" where
  "ctrl_get_userdata ty c w = downcast ty (co_user_data (w_cos w (ctrl_rc c)))"

definition thread_num :: "thread_id \<Rightarrow> ('el, 'sl, 'k, 'sg, 'sc) world \<Rightarrow> usize res" where
  "thread_num th w =
     bindR (tl_current_coroutine th w) (\<lambda>co.
     bindR (unwrap (co_handler_shared (w_cos w co))) (\<lambda>_. Inr (w_thread_num w)))"

text \<open>The first half of \<open>shutdown\<close>; after it the caller yields for ever.\<close>

definition mioco_shutdown ::
  "('el, 'sl, 'k, 'sg, 'sc) rt \<Rightarrow> thread_id \<Rightarrow> ('el, 'sl, 'k, 'sg, 'sc) world \<Rightarrow> ('el, 'sl, 'k, 'sg, 'sc) world res" where
  "mioco_shutdown rt th w =
     bindR (tl_current_coroutine th w) (\<lambda>co.
     bindR (unwrap (co_handler_shared (w_cos w co))) (\<lambda>h. broadcast_shutdown rt h w))"

definition yield_now ::
  "('el, 'sl, 'k, 'sg, 'sc) rt \<Rightarrow> thread_id \<Rightarrow> ('el, 'sl, 'k, 'sg, 'sc) world \<Rightarrow> ('el, 'sl, 'k, 'sg, 'sc) world res" where
  "yield_now rt th w =
     bindR (tl_current_coroutine th w) (\<lambda>co.
       let w1 = upd_co co (\<lambda>c. c\<lparr>co_state := Yielding\<rparr>) w
       in bindR (unwrap (co_self_rc (w_cos w1 co))) (\<lambda>rc. jump_out rt rc w1))"

definition select_wait ::
  "('el, 'sl, 'k, 'sg, 'sc) rt \<Rightarrow> thread_id \<Rightarrow> ('el, 'sl, 'k, 'sg, 'sc) world \<Rightarrow> ('el, 'sl, 'k, 'sg, 'sc) world res" where
  "select_wait rt th w =
     bindR (tl_current_coroutine th w) (\<lambda>co.
       let w1 = upd_co co (\<lambda>c. c\<lparr>co_state := Blocked\<rparr>) w
       in bindR (unwrap (co_self_rc (w_cos w1 co))) (\<lambda>rc. jump_out rt rc w1))"

definition block_on ::
  "('el, 'sl, 'k, 'sg, 'sc) rt \<Rightarrow> thread_id \<Rightarrow> src_ref \<Rightarrow> RW \<Rightarrow> ('el, 'sl, 'k, 'sg, 'sc) world \<Rightarrow> ('el, 'sl, 'k, 'sg, 'sc) world res" where
  "block_on rt th s rw w =
     bindR (tl_current_coroutine th w) (\<lambda>co.
       let w1 = Coroutine_block_on co s rw w
       in bindR (unwrap (co_self_rc (w_cos w1 co))) (\<lambda>rc. jump_out rt rc w1))"

text \<open>Sends and the other channel operations, on the channel's cell.\<close>

definition chan_op ::
  "chan_ref \<Rightarrow> (val chan \<Rightarrow> 'el \<Rightarrow> ('r \<times> val chan \<times> 'el) res) \<Rightarrow> ('el, 'sl, 'k, 'sg, 'sc) world \<Rightarrow>
   ('r \<times> ('el, 'sl, 'k, 'sg, 'sc) world) res" where
  "chan_op c f w = bindR (f (w_chans w c) (w_env w)) (\<lambda>(r, ch, e). Inr (r, set_env e (set_chan c ch w)))"

fun do_act ::
  "('el, 'sl, 'k, 'sg, 'sc) rt \<Rightarrow> thread_id \<Rightarrow> 'k act \<Rightarrow> ('el, 'sl, 'k, 'sg, 'sc) world \<Rightarrow> (resp \<times> ('el, 'sl, 'k, 'sg, 'sc) world) res" where
  "do_act rt th (ASpawn k) w = bindR (mioco_spawn rt th k w) (\<lambda>((c, s), w'). Inr (RChannel c s, w'))"
| "do_act rt th ANewChannel w = (let ((c, s), w') = new_channel w in Inr (RChannel c s, w'))"
| "do_act rt th (ANewSyncChannel n) w = (let ((c, s), w') = alloc_channel (sync_channel n) w in Inr (RChannel c s, w'))"
| "do_act rt th (ANewSource r) w = (let (s, w') = new_source (RawIo r) w in Inr (RSource s, w'))"
| "do_act rt th ATimerNew w =
     (let (t, e) = Timer_new (rt_mio rt) (w_env w); (s, w') = new_source (TimerIo t) (set_env e w) in Inr (RSource s, w'))"
| "do_act rt th (ATimerSet s d) w =
     bindR (timer_op s (\<lambda>t e. case set_timeout (rt_mio rt) d t e of (t', e') \<Rightarrow> ((), t', e')) w) (\<lambda>(_, w'). Inr (RUnit, w'))"
| "do_act rt th (ATimerTryRead s) w =
     bindR (timer_op s (\<lambda>t e. case Timer_try_read (rt_mio rt) t e of (r, e') \<Rightarrow> (r, t, e')) w) (\<lambda>(r, w'). Inr (RTime r, w'))"
| "do_act rt th (ASelectAdd s rw) w = bindR (select_add th s rw w) (\<lambda>w'. Inr (RUnit, w'))"
| "do_act rt th (ASend c v) w =
     bindR (chan_op c (Sender_send (notify_token rt) v) w) (\<lambda>(r, w'). Inr (RSend r, w'))"
| "do_act rt th (ATryRecv c) w =
     bindR (chan_op c (\<lambda>ch e. case try_recv ch of (r, ch') \<Rightarrow> Inr (r, ch', e)) w) (\<lambda>(r, w'). Inr (RRecv r, w'))"
| "do_act rt th (ACloneSender c) w =
     bindR (chan_op c (\<lambda>ch e. Inr ((), Sender_clone ch, e)) w) (\<lambda>(r, w'). Inr (RUnit, w'))"
| "do_act rt th (ADropSender c) w =
     bindR (chan_op c (\<lambda>ch e. bindR (Sender_drop (notify_token rt) ch e) (\<lambda>(ch', e'). Inr ((), ch', e'))) w)
       (\<lambda>(r, w'). Inr (RUnit, w'))"
| "do_act rt th (ADropReceiver c) w =
     bindR (chan_op c (\<lambda>ch e. Inr ((), Receiver_drop ch, e)) w) (\<lambda>(r, w'). Inr (RUnit, w'))"
| "do_act rt th (ASetUserdata d) w = bindR (set_userdata th d w) (\<lambda>w'. Inr (RUnit, w'))"
| "do_act rt th (ASetChildrenUserdata d) w = bindR (set_children_userdata th d w) (\<lambda>w'. Inr (RUnit, w'))"
| "do_act rt th (AGetUserdata ty) w = bindR (get_userdata th ty w) (\<lambda>d. Inr (RData d, w))"
| "do_act rt th AThreadNum w = bindR (thread_num th w) (\<lambda>n. Inr (RNum n, w))"
| "do_act rt th ABroadcastShutdown w = bindR (mioco_shutdown rt th w) (\<lambda>w'. Inr (RUnit, w'))"
| "do_act rt th (AUserIo n) w = (let (r, e) = rt_user_io rt n (w_env w) in Inr (RIo r, set_env e w))"

fun do_switch ::
  "('el, 'sl, 'k, 'sg, 'sc) rt \<Rightarrow> thread_id \<Rightarrow> switch \<Rightarrow> ('el, 'sl, 'k, 'sg, 'sc) world \<Rightarrow> ('el, 'sl, 'k, 'sg, 'sc) world res" where
  "do_switch rt th SwYield w = yield_now rt th w"
| "do_switch rt th (SwBlockOn s rw) w = block_on rt th s rw w"
| "do_switch rt th SwSelectWait w = select_wait rt th w"

text \<open>Running user code to the next switch or to its end, and what a run came to.\<close>

datatype 'k outcome = Paused 'k | Ended "panic + nat"

primrec run_seg ::
  "('el, 'sl, 'k, 'sg, 'sc) rt \<Rightarrow> thread_id \<Rightarrow> 'k seg \<Rightarrow> ('el, 'sl, 'k, 'sg, 'sc) world \<Rightarrow>
   ('k outcome \<times> ('el, 'sl, 'k, 'sg, 'sc) world) res" where
  "run_seg rt th (Ret r) = (\<lambda>w. Inr (Ended (Inr r), w))"
| "run_seg rt th (Unwind p) = (\<lambda>w. Inr (Ended (Inl p), w))"
| "run_seg rt th (Switch sw k) = (\<lambda>w. bindR (do_switch rt th sw w) (\<lambda>w'. Inr (Paused k, w')))"
| "run_seg rt th (Act a f) = (\<lambda>w. bindR (do_act rt th a w) (\<lambda>(r, w'). run_seg rt th (f r) w'))"

text \<open>
  The tail of \<open>coroutine_main_fn\<close>: the coroutine is finished, leaves the slab and the count of the
  instance, and its result or its panic goes to the exit channel, whose sender is then dropped.
\<close>

definition report_exit ::
  "('el, 'sl, 'k, 'sg, 'sc) rt \<Rightarrow> thread_id \<Rightarrow> chan_ref \<Rightarrow> panic + nat \<Rightarrow> ('el, 'sl, 'k, 'sg, 'sc) world \<Rightarrow> ('el, 'sl, 'k, 'sg, 'sc) world res" where
  "report_exit rt h exit_sender res w =
     (case res of
        Inr r \<Rightarrow> bindR (chan_op exit_sender (Sender_send (notify_token rt) (VExit (Inr r))) w) (\<lambda>(_, w'). Inr w')
      | Inl cause \<Rightarrow>
          if cf_catch_panics (hs_config (w_hs w h)) then
            bindR (chan_op exit_sender (Sender_send (notify_token rt) (VExit (Inl cause))) w) (\<lambda>(_, w'). Inr w')
          else
            bindR (get_sender_to_own_thread (w_hs w h)) (\<lambda>sender. send_msg rt sender (PropagatePanic cause) w))"

definition finish ::
  "('el, 'sl, 'k, 'sg, 'sc) rt \<Rightarrow> thread_id \<Rightarrow> chan_ref \<Rightarrow> panic + nat \<Rightarrow> ('el, 'sl, 'k, 'sg, 'sc) world \<Rightarrow> ('el, 'sl, 'k, 'sg, 'sc) world res" where
  "finish rt th exit_sender res w =
     bindR (tl_current_coroutine th w) (\<lambda>co.
       let w1 = upd_co co (\<lambda>c. c\<lparr>co_blocked_on := [], co_self_rc := None, co_state := Finished\<rparr>) w
       in bindR (unwrap (co_handler_shared (w_cos w1 co))) (\<lambda>h.
          bindR (unwrap (slab_remove (rt_slab rt) (co_the_id (w_cos w1 co)) (hs_coroutines (w_hs w1 h)))) (\<lambda>(_, s).
          bindR (coroutines_dec rt h (upd_hs h (\<lambda>x. x\<lparr>hs_coroutines := s\<rparr>) w1)) (\<lambda>w2.
          bindR (report_exit rt h exit_sender res w2) (\<lambda>w3.
          bindR (chan_op exit_sender
                   (\<lambda>ch e. bindR (Sender_drop (notify_token rt) ch e) (\<lambda>(ch', e'). Inr ((), ch', e'))) w3) (\<lambda>(_, w4).
            Inr w4))))))"

text \<open>
  The entry into a coroutine: unwinding at the point where a killed coroutine stands, its start
  function for one that never ran, or the return from the switch it paused at.
\<close>

definition start_segment ::
  "('el, 'sl, 'k, 'sg, 'sc) rt \<Rightarrow> co_ref \<Rightarrow> 'k saved_context \<Rightarrow> ('el, 'sl, 'k, 'sg, 'sc) world \<Rightarrow>
   (('k seg \<times> chan_ref) \<times> ('el, 'sl, 'k, 'sg, 'sc) world) res" where
  "start_segment rt rc ctx w =
     bindR (enter_context rc w) (\<lambda>w1.
       let c = w_cos w1 rc
       in case ctx of
            Suspended k ex \<Rightarrow>
              if co_killed c \<and> was_running_before c then Inr ((rt_code rt k WakeKilled, ex), w1)
              else Inr ((rt_code rt k (WakeEvent (co_last_event c)), ex), w1)
          | Fresh \<Rightarrow>
              if co_killed c \<and> was_running_before c then Inl ResumedDeadContext
              else bindR (unwrap (co_func c)) (\<lambda>(k, ex).
                Inr ((rt_code rt k (if co_killed c then WakeKilled else WakeStart), ex),
                     upd_co rc (\<lambda>c. c\<lparr>co_func := None\<rparr>) w1))
          | Exited \<Rightarrow> Inl ResumedDeadContext)"

text \<open>Back on the event loop: the context is stored again and the thread-local pointer restored.\<close>

definition leave_coroutine ::
  "('el, 'sl, 'k, 'sg, 'sc) rt \<Rightarrow> thread_id \<Rightarrow> co_ref \<Rightarrow> co_ref option \<Rightarrow> chan_ref \<Rightarrow> 'k outcome \<Rightarrow>
   ('el, 'sl, 'k, 'sg, 'sc) world \<Rightarrow> ('el, 'sl, 'k, 'sg, 'sc) world res" where
  "leave_coroutine rt th rc prev ex out w =
     (case out of
        Paused k \<Rightarrow>
          Inr (tl_current_coroutine_ptr_restore th prev (upd_co rc (\<lambda>c. c\<lparr>co_context := Some (Suspended k ex)\<rparr>) w))
      | Ended res \<Rightarrow>
          bindR (finish rt th ex res w) (\<lambda>w1.
          bindR (take_out_context rc w1) (\<lambda>w2.
            Inr (tl_current_coroutine_ptr_restore th prev (upd_co rc (\<lambda>c. c\<lparr>co_context := Some Exited\<rparr>) w2)))))"

definition jump_in ::
  "('el, 'sl, 'k, 'sg, 'sc) rt \<Rightarrow> thread_id \<Rightarrow> co_ref \<Rightarrow> ('el, 'sl, 'k, 'sg, 'sc) world \<Rightarrow> ('el, 'sl, 'k, 'sg, 'sc) world res" where
  "jump_in rt th rc w =
     (if co_state (w_cos w rc) = Finished then Inr w
      else
        bindR (if co_state (w_cos w rc) = Ready then Inr () else debug_assert (rt_dbg rt) (co_killed (w_cos w rc))) (\<lambda>_.
          let (prev, w1) = tl_current_coroutine_ptr_save th rc w
          in bindR (unwrap (co_context (w_cos w1 rc))) (\<lambda>ctx.
             bindR (start_segment rt rc ctx (upd_co rc (\<lambda>c. c\<lparr>co_context := None\<rparr>) w1)) (\<lambda>((seg, ex), w2).
             bindR (run_seg rt th seg w2) (\<lambda>(out, w3). leave_coroutine rt th rc prev ex out w3)))))"

end
