(* ===== verification/Handler.thy ===== *)
theory Handler
  imports Coroutine
begin

text \<open>
  \<open>CoroutineControl\<close> (\<^verbatim>\<open>src/src/mod.rs\<close>) and the event loop's \<open>Handler\<close> (\<^verbatim>\<open>src/src/thread.rs\<close>): the callbacks mio
  makes on each thread, and everything they run. The scheduler of the instance is a parameter (\<open>rt_sched\<close>);
  its callbacks return actions on the controls (theory \<open>Scheduler\<close>), which \<open>do_action\<close> performs.

  Delivery to the scheduler loops until nothing is spawned or ready. User code decides whether
  that ends, so the callbacks have an option type: \<open>None\<close> is a loop that never ends.
\<close>

text \<open>\<open>CoroutineControl\<close>.\<close>

text \<open>The end of \<open>after_resume\<close>: a coroutine that yielded or is ready gets a new control in the ready queue.\<close>

definition requeue ::
  "('el, 'sl, 'k, 'sg, 'sc) rt \<Rightarrow> co_ref \<Rightarrow> ('el, 'sl, 'k, 'sg, 'sc) world \<Rightarrow> ('el, 'sl, 'k, 'sg, 'sc) world res" where
  "requeue rt rc w =
     (let state = co_state (w_cos w rc)
      in if state_is_yielding state then
           bindR (debug_assert (rt_dbg rt) (co_blocked_on (w_cos w rc) = [])) (\<lambda>_.
             let coroutine_ctrl = set_is_yielding (ctrl_new rc); w1 = unblock_after_yield rc w
             in bindR (unwrap (co_handler_shared (w_cos w1 rc))) (\<lambda>h.
                  Inr (upd_hs h (add_ready coroutine_ctrl) w1)))
         else if is_ready state then
           bindR (debug_assert (rt_dbg rt) (co_blocked_on (w_cos w rc) = [])) (\<lambda>_.
           bindR (unwrap (co_handler_shared (w_cos w rc))) (\<lambda>h.
             Inr (upd_hs h (add_ready (ctrl_new rc)) w)))
         else Inr w)"

definition after_resume ::
  "('el, 'sl, 'k, 'sg, 'sc) rt \<Rightarrow> thread_id \<Rightarrow> ctrl \<Rightarrow> ('el, 'sl, 'k, 'sg, 'sc) world \<Rightarrow> ('el, 'sl, 'k, 'sg, 'sc) world res" where
  "after_resume rt th self w =
     bindR (register_all rt th (ctrl_rc self) w) (\<lambda>(self_woken, w1).
     bindR (if self_woken then deregister_all rt th (ctrl_rc self) w1 else Inr w1) (\<lambda>w2.
     bindR (start_children (ctrl_rc self) w2) (\<lambda>w3.
       requeue rt (ctrl_rc self) w3)))"

definition resume ::
  "('el, 'sl, 'k, 'sg, 'sc) rt \<Rightarrow> thread_id \<Rightarrow> ctrl \<Rightarrow> ('el, 'sl, 'k, 'sg, 'sc) world \<Rightarrow> ('el, 'sl, 'k, 'sg, 'sc) world res" where
  "resume rt th self w =
     bindR (debug_assert (rt_dbg rt) (is_ready (co_state (w_cos w (ctrl_rc self))))) (\<lambda>_.
     bindR (jump_in rt th (ctrl_rc self) w) (\<lambda>w1. after_resume rt th (self\<lparr>was_handled := True\<rparr>) w1))"

definition migrate ::
  "('el, 'sl, 'k, 'sg, 'sc) rt \<Rightarrow> thread_id \<Rightarrow> ctrl \<Rightarrow> thread_id \<Rightarrow> ('el, 'sl, 'k, 'sg, 'sc) world \<Rightarrow> ('el, 'sl, 'k, 'sg, 'sc) world res" where
  "migrate rt th self to w =
     (let rc = ctrl_rc self
      in bindR (detach_from rt th rc w) (\<lambda>(h, w1).
         bindR (unwrap (slab_remove (rt_slab rt) (co_the_id (w_cos w1 rc)) (hs_coroutines (w_hs w1 h)))) (\<lambda>(_, s).
           let w2 = upd_hs h (\<lambda>x. x\<lparr>hs_coroutines := s\<rparr>) w1
           in bindR (get_sender_to_thread to (w_hs w2 h)) (\<lambda>sender.
                send_msg rt sender (Migration (ctrl_new rc)) w2))))"

definition reattach_to ::
  "('el, 'sl, 'k, 'sg, 'sc) rt \<Rightarrow> thread_id \<Rightarrow> ctrl \<Rightarrow> ('el, 'sl, 'k, 'sg, 'sc) world \<Rightarrow> ('el, 'sl, 'k, 'sg, 'sc) world res" where
  "reattach_to rt th self w =
     bindR (HandlerShared_attach (rt_slab rt) (ctrl_rc self) (w_hs w th)) (\<lambda>(i, h).
       attach_to rt th (ctrl_rc self) th i (upd_hs th (\<lambda>_. h) w))"

definition kill ::
  "('el, 'sl, 'k, 'sg, 'sc) rt \<Rightarrow> thread_id \<Rightarrow> ctrl \<Rightarrow> ('el, 'sl, 'k, 'sg, 'sc) world \<Rightarrow> ('el, 'sl, 'k, 'sg, 'sc) world res" where
  "kill rt th self w =
     jump_in rt th (ctrl_rc self) (upd_co (ctrl_rc self) (\<lambda>c. c\<lparr>co_killed := True\<rparr>) w)"

definition ctrl_drop ::
  "('el, 'sl, 'k, 'sg, 'sc) rt \<Rightarrow> thread_id \<Rightarrow> ctrl \<Rightarrow> ('el, 'sl, 'k, 'sg, 'sc) world \<Rightarrow> ('el, 'sl, 'k, 'sg, 'sc) world res" where
  "ctrl_drop rt th self w = (if \<not> was_handled self then kill rt th self w else Inr w)"

text \<open>The scheduler's actions, and its callbacks on the thread's scheduler state.\<close>

fun do_action ::
  "('el, 'sl, 'k, 'sg, 'sc) rt \<Rightarrow> thread_id \<Rightarrow> sched_action \<Rightarrow> ('el, 'sl, 'k, 'sg, 'sc) world \<Rightarrow> ('el, 'sl, 'k, 'sg, 'sc) world res" where
  "do_action rt th (Resume c) w = resume rt th c w"
| "do_action rt th (Migrate c to) w = migrate rt th c to w"
| "do_action rt th (Drop c) w = ctrl_drop rt th c w"

definition set_sched ::
  "thread_id \<Rightarrow> ('sg, 'sc) sched_state \<Rightarrow> ('el, 'sl, 'k, 'sg, 'sc) world \<Rightarrow> ('el, 'sl, 'k, 'sg, 'sc) world" where
  "set_sched th s w = w\<lparr>w_sched := (w_sched w)(th := fst s), w_sched_shared := snd s\<rparr>"

definition userdata_of :: "('el, 'sl, 'k, 'sg, 'sc) world \<Rightarrow> ctrl \<Rightarrow> userdata option" where
  "userdata_of w c = co_user_data (w_cos w (ctrl_rc c))"

definition do_actions ::
  "('el, 'sl, 'k, 'sg, 'sc) rt \<Rightarrow> thread_id \<Rightarrow>
   ((ctrl \<Rightarrow> userdata option) \<Rightarrow> ('sg, 'sc) sched_state \<Rightarrow> sched_action list \<times> ('sg, 'sc) sched_state) \<Rightarrow>
   ('el, 'sl, 'k, 'sg, 'sc) world \<Rightarrow> ('el, 'sl, 'k, 'sg, 'sc) world res" where
  "do_actions rt th callback w =
     (let (as, s) = callback (userdata_of w) (w_sched w th, w_sched_shared w)
      in foldR (do_action rt th) as (set_sched th s w))"

definition scheduler_spawned ::
  "('el, 'sl, 'k, 'sg, 'sc) rt \<Rightarrow> thread_id \<Rightarrow> ctrl \<Rightarrow> ('el, 'sl, 'k, 'sg, 'sc) world \<Rightarrow> ('el, 'sl, 'k, 'sg, 'sc) world res" where
  "scheduler_spawned rt th c w = do_actions rt th (\<lambda>ud. sch_spawned (rt_sched rt) ud c) w"

definition scheduler_ready ::
  "('el, 'sl, 'k, 'sg, 'sc) rt \<Rightarrow> thread_id \<Rightarrow> ctrl \<Rightarrow> ('el, 'sl, 'k, 'sg, 'sc) world \<Rightarrow> ('el, 'sl, 'k, 'sg, 'sc) world res" where
  "scheduler_ready rt th c w = do_actions rt th (\<lambda>ud. sch_ready (rt_sched rt) ud c) w"

definition scheduler_tick ::
  "('el, 'sl, 'k, 'sg, 'sc) rt \<Rightarrow> thread_id \<Rightarrow> ('el, 'sl, 'k, 'sg, 'sc) world \<Rightarrow> ('el, 'sl, 'k, 'sg, 'sc) world res" where
  "scheduler_tick rt th w = do_actions rt th (sch_tick (rt_sched rt)) w"

text \<open>\<open>Handler\<close>.\<close>

definition deliver_round ::
  "('el, 'sl, 'k, 'sg, 'sc) rt \<Rightarrow> thread_id \<Rightarrow> ('el, 'sl, 'k, 'sg, 'sc) world \<Rightarrow> ('el, 'sl, 'k, 'sg, 'sc) world res + ('el, 'sl, 'k, 'sg, 'sc) world" where
  "deliver_round rt th w =
     (let round1 =
            (case hs_spawned (w_hs w th) of
               c # cs \<Rightarrow>
                 bindR (scheduler_spawned rt th c (upd_hs th (\<lambda>h. h\<lparr>hs_spawned := cs\<rparr>) w)) (\<lambda>w1. Inr (False, w1))
             | [] \<Rightarrow> Inr (True, w))
      in case round1 of
           Inl p \<Rightarrow> Inl (Inl p)
         | Inr (no_spawned, w1) \<Rightarrow>
             (let round2 =
                    (case hs_ready (w_hs w1 th) of
                       c # cs \<Rightarrow>
                         bindR (scheduler_ready rt th c (upd_hs th (\<lambda>h. h\<lparr>hs_ready := cs\<rparr>) w1)) (\<lambda>w2. Inr (False, w2))
                     | [] \<Rightarrow> Inr (True, w1))
              in case round2 of
                   Inl p \<Rightarrow> Inl (Inl p)
                 | Inr (no_ready, w2) \<Rightarrow> if no_ready \<and> no_spawned then Inl (Inr w2) else Inr w2))"

definition deliver_to_scheduler ::
  "('el, 'sl, 'k, 'sg, 'sc) rt \<Rightarrow> thread_id \<Rightarrow> ('el, 'sl, 'k, 'sg, 'sc) world \<Rightarrow> ('el, 'sl, 'k, 'sg, 'sc) world res option" where
  "deliver_to_scheduler rt th w = rust_loop (deliver_round rt th) w"

definition shutdown_one_coroutine ::
  "('el, 'sl, 'k, 'sg, 'sc) rt \<Rightarrow> thread_id \<Rightarrow> co_id \<Rightarrow> ('el, 'sl, 'k, 'sg, 'sc) world \<Rightarrow> ('el, 'sl, 'k, 'sg, 'sc) world res" where
  "shutdown_one_coroutine rt th i w =
     (if slab_contains (rt_slab rt) i (hs_coroutines (w_hs w th)) then
        bindR (unwrap (slab_get (rt_slab rt) i (hs_coroutines (w_hs w th)))) (\<lambda>rc. ctrl_drop rt th (ctrl_new rc) w)
      else Inr w)"

definition Handler_shutdown ::
  "('el, 'sl, 'k, 'sg, 'sc) rt \<Rightarrow> thread_id \<Rightarrow> ('el, 'sl, 'k, 'sg, 'sc) world \<Rightarrow> ('el, 'sl, 'k, 'sg, 'sc) world res" where
  "Handler_shutdown rt th w =
     (let w1 = w\<lparr>w_shutting := (w_shutting w)(th := True)\<rparr>;
          len = slab_count (rt_slab rt) (hs_coroutines (w_hs w1 th))
                + slab_remaining (rt_slab rt) (hs_coroutines (w_hs w1 th))
      in foldR (\<lambda>i. shutdown_one_coroutine rt th (Id (co_usize STARTING_ID + of_nat i))) [0..<len] w1)"

text \<open>The callbacks of \<open>mio::Handler\<close>. \<open>bindO\<close> goes on after a step that may panic or never return.\<close>

fun bindO :: "'a res option \<Rightarrow> ('a \<Rightarrow> 'b res option) \<Rightarrow> 'b res option" where
  "bindO None f = None"
| "bindO (Some (Inl p)) f = Some (Inl p)"
| "bindO (Some (Inr x)) f = f x"

definition Handler_tick ::
  "('el, 'sl, 'k, 'sg, 'sc) rt \<Rightarrow> thread_id \<Rightarrow> ('el, 'sl, 'k, 'sg, 'sc) world \<Rightarrow> ('el, 'sl, 'k, 'sg, 'sc) world res option" where
  "Handler_tick rt th w =
     (if w_shutting w th then Some (Inr w)
      else
        bindO (Some (scheduler_tick rt th w)) (\<lambda>w1.
        bindO (deliver_to_scheduler rt th w1) (\<lambda>w2.
          let (timeout, s) = sch_timeout (rt_sched rt) (w_sched w2 th, w_sched_shared w2); w3 = set_sched th s w2
          in case timeout of
               None \<Rightarrow> Some (Inr w3)
             | Some timeout \<Rightarrow>
                 Some (bindR (token_from_ids (rt_dbg rt) SPECIAL_ID SPECIAL_ID_SCHED_TIMEOUT) (\<lambda>token.
                   (case mio_timeout_ms (rt_mio rt) th token timeout (w_env w3) of
                      (Some h, e) \<Rightarrow> Inr (set_env e w3)
                    | (None, e) \<Rightarrow> Inl UnwrapNone))))))"

definition Handler_ready ::
  "('el, 'sl, 'k, 'sg, 'sc) rt \<Rightarrow> thread_id \<Rightarrow> token \<Rightarrow> EventSet \<Rightarrow> ('el, 'sl, 'k, 'sg, 'sc) world \<Rightarrow>
   ('el, 'sl, 'k, 'sg, 'sc) world res option" where
  "Handler_ready rt th token events w =
     (let (co, _) = token_to_ids token
      in case slab_get (rt_slab rt) co (hs_coroutines (w_hs w th)) of
           None \<Rightarrow> Some (Inr w)
         | Some rc \<Rightarrow>
             bindO (Some (bindR (co_event rt th rc token events w) (\<lambda>(woken, w1).
                      if woken then scheduler_ready rt th (ctrl_new rc) w1 else Inr w1)))
               (deliver_to_scheduler rt th))"

fun Handler_notify ::
  "('el, 'sl, 'k, 'sg, 'sc) rt \<Rightarrow> thread_id \<Rightarrow> Message \<Rightarrow> ('el, 'sl, 'k, 'sg, 'sc) world \<Rightarrow> ('el, 'sl, 'k, 'sg, 'sc) world res option" where
  "Handler_notify rt th (ChannelMsg token) w = Handler_ready rt th token EventSet_readable w"
| "Handler_notify rt th (Migration c) w =
     bindO (Some (reattach_to rt th c w)) (\<lambda>w1.
       if w_shutting w1 th then Some (ctrl_drop rt th c w1)
       else bindO (Some (scheduler_ready rt th c w1)) (deliver_to_scheduler rt th))"
| "Handler_notify rt th (PropagatePanic cause) w = Some (Inl cause)"
| "Handler_notify rt th Shutdown w = Some (Handler_shutdown rt th w)"
| "Handler_notify rt th Terminate w =
     Some (bindR (debug_assert (rt_dbg rt) (w_num w = 0)) (\<lambda>_. Inr (set_env (mio_shutdown (rt_mio rt) th (w_env w)) w)))"

definition Handler_timeout ::
  "('el, 'sl, 'k, 'sg, 'sc) rt \<Rightarrow> thread_id \<Rightarrow> token \<Rightarrow> ('el, 'sl, 'k, 'sg, 'sc) world \<Rightarrow> ('el, 'sl, 'k, 'sg, 'sc) world res option" where
  "Handler_timeout rt th msg w =
     bindO (Some (token_from_ids (rt_dbg rt) SPECIAL_ID SPECIAL_ID_SCHED_TIMEOUT)) (\<lambda>special.
       if msg \<noteq> special then Handler_ready rt th msg EventSet_readable w else Some (Inr w))"

end
