(* ===== verification/Ledger.thy ===== *)
theory Ledger
  imports Handler
begin

text \<open>
  Where every coroutine of an instance is. The abstract specification is a \<open>ledger\<close>: the live
  coroutines, the slab slot each attached one occupies, the coroutines in flight between threads
  and the termination messages in the mailboxes, with four kinds of steps (\<open>lstep\<close>). The ledger
  invariant \<open>linv\<close> says that every live coroutine is in exactly one slot or in exactly one mailbox,
  that the instance's counter counts the live ones, and that \<open>Terminate\<close> is sent only after the
  last of them ended. The second half shows that the code refines this specification.
\<close>

record ledger =
  lg_next :: nat
  lg_live :: "co_ref set"
  lg_home :: "co_ref \<Rightarrow> (thread_id \<times> co_id) option"
  lg_slot :: "thread_id \<Rightarrow> co_id \<Rightarrow> co_ref option"
  lg_num :: usize
  lg_mail :: "thread_id \<Rightarrow> Message list"

definition set_slot ::
  "thread_id \<Rightarrow> co_id \<Rightarrow> co_ref option \<Rightarrow> (thread_id \<Rightarrow> co_id \<Rightarrow> co_ref option) \<Rightarrow>
   thread_id \<Rightarrow> co_id \<Rightarrow> co_ref option" where
  "set_slot t i x f = f(t := (f t)(i := x))"

definition append_mail :: "Message \<Rightarrow> thread_id \<Rightarrow> (thread_id \<Rightarrow> Message list) \<Rightarrow> thread_id \<Rightarrow> Message list" where
  "append_mail m t f = f(t := f t @ [m])"

definition led_spawn :: "thread_id \<Rightarrow> co_id \<Rightarrow> ledger \<Rightarrow> ledger" where
  "led_spawn t i L = L\<lparr>lg_next := lg_next L + 1, lg_live := insert (lg_next L) (lg_live L),
     lg_home := (lg_home L)(lg_next L \<mapsto> (t, i)), lg_slot := set_slot t i (Some (lg_next L)) (lg_slot L),
     lg_num := lg_num L + 1\<rparr>"

definition led_finish :: "co_ref \<Rightarrow> thread_id \<Rightarrow> co_id \<Rightarrow> thread_id list \<Rightarrow> ledger \<Rightarrow> ledger" where
  "led_finish r t i ts L = L\<lparr>lg_live := lg_live L - {r}, lg_home := (lg_home L)(r := None),
     lg_slot := set_slot t i None (lg_slot L), lg_num := lg_num L - 1,
     lg_mail := (if lg_num L = 1 then fold (append_mail Terminate) ts (lg_mail L) else lg_mail L)\<rparr>"

definition led_migrate :: "co_ref \<Rightarrow> thread_id \<Rightarrow> co_id \<Rightarrow> ctrl \<Rightarrow> thread_id \<Rightarrow> ledger \<Rightarrow> ledger" where
  "led_migrate r t i c to L = L\<lparr>lg_home := (lg_home L)(r := None),
     lg_slot := set_slot t i None (lg_slot L), lg_mail := append_mail (Migration c) to (lg_mail L)\<rparr>"

definition led_pop :: "thread_id \<Rightarrow> ledger \<Rightarrow> ledger" where
  "led_pop t L = L\<lparr>lg_mail := (lg_mail L)(t := tl (lg_mail L t))\<rparr>"

definition led_attach :: "co_ref \<Rightarrow> thread_id \<Rightarrow> co_id \<Rightarrow> ledger \<Rightarrow> ledger" where
  "led_attach r t i L = L\<lparr>lg_home := (lg_home L)(r \<mapsto> (t, i)), lg_slot := set_slot t i (Some r) (lg_slot L)\<rparr>"

inductive lstep :: "ledger \<Rightarrow> ledger \<Rightarrow> bool" where
  LSpawn: "lg_live L \<noteq> {} \<Longrightarrow> lg_slot L t i = None \<Longrightarrow> lstep L (led_spawn t i L)"
| LFinish: "r \<in> lg_live L \<Longrightarrow> lg_home L r = Some (t, i) \<Longrightarrow> lstep L (led_finish r t i ts L)"
| LMigrate: "r \<in> lg_live L \<Longrightarrow> lg_home L r = Some (t, i) \<Longrightarrow> c = ctrl_new r \<Longrightarrow> lstep L (led_migrate r t i c to L)"
| LAttach: "lg_mail L t = Migration c # ms \<Longrightarrow> lg_slot L t i = None \<Longrightarrow>
    lstep L (led_attach (ctrl_rc c) t i (led_pop t L))"
| LTerminate: "lg_mail L t = Terminate # ms \<Longrightarrow> lstep L (led_pop t L)"

inductive_cases lstepE: "lstep L L'"

fun flying_of :: "Message list \<Rightarrow> co_ref list" where
  "flying_of [] = []"
| "flying_of (Migration c # ms) = ctrl_rc c # flying_of ms"
| "flying_of (m # ms) = flying_of ms"

abbreviation flights :: "ledger \<Rightarrow> thread_id \<Rightarrow> co_ref list" where
  "flights L t \<equiv> flying_of (lg_mail L t)"

text \<open>The invariant, in five parts.\<close>

definition slots_ok :: "ledger \<Rightarrow> bool" where
  "slots_ok L \<longleftrightarrow>
     (\<forall>t i r. lg_slot L t i = Some r \<longrightarrow> r \<in> lg_live L \<and> lg_home L r = Some (t, i))
   \<and> (\<forall>r t i. lg_home L r = Some (t, i) \<longrightarrow> lg_slot L t i = Some r)"

definition flights_ok :: "ledger \<Rightarrow> bool" where
  "flights_ok L \<longleftrightarrow>
     (\<forall>t. distinct (flights L t))
   \<and> (\<forall>t t' r. r \<in> set (flights L t) \<longrightarrow> r \<in> set (flights L t') \<longrightarrow> t = t')
   \<and> (\<forall>r. (r \<in> lg_live L \<and> lg_home L r = None) \<longleftrightarrow> (\<exists>t. r \<in> set (flights L t)))"

definition count_ok :: "ledger \<Rightarrow> bool" where
  "count_ok L \<longleftrightarrow> finite (lg_live L) \<and> (\<forall>r \<in> lg_live L. r < lg_next L) \<and> lg_num L = of_nat (card (lg_live L))"

definition term_ok :: "ledger \<Rightarrow> bool" where
  "term_ok L \<longleftrightarrow> (lg_next L < 2 ^ 64 \<longrightarrow> (\<forall>t. Terminate \<in> set (lg_mail L t) \<longrightarrow> lg_live L = {}))"

definition fresh_ok :: "ledger \<Rightarrow> bool" where
  "fresh_ok L \<longleftrightarrow> (\<forall>t c. Migration c \<in> set (lg_mail L t) \<longrightarrow> \<not> was_handled c \<and> \<not> is_yielding c)"

definition linv :: "ledger \<Rightarrow> bool" where
  "linv L \<longleftrightarrow> slots_ok L \<and> flights_ok L \<and> count_ok L \<and> term_ok L \<and> fresh_ok L"

lemma flying_of_append [simp]: "flying_of (xs @ ys) = flying_of xs @ flying_of ys"
  by (induction xs rule: flying_of.induct) auto

lemma flights_append_Terminate [simp]:
  "flying_of (fold (append_mail Terminate) ts f t) = flying_of (f t)"
  by (induction ts arbitrary: f) (auto simp: append_mail_def)

lemma set_append_Terminate:
  "Terminate \<in> set (fold (append_mail Terminate) ts f t) \<longleftrightarrow> Terminate \<in> set (f t) \<or> t \<in> set ts"
  by (induction ts arbitrary: f) (auto simp: append_mail_def)

lemmas led_defs [op_defs] = led_spawn_def led_finish_def led_migrate_def led_pop_def led_attach_def set_slot_def

lemma card_live_le:
  assumes "count_ok L"
  shows "card (lg_live L) \<le> lg_next L"
proof -
  from assms have "lg_live L \<subseteq> {..<lg_next L}" by (auto simp: count_ok_def)
  then show ?thesis using card_mono [of "{..<lg_next L}" "lg_live L"] by simp
qed

lemma slots_okI:
  assumes "\<And>t i r. lg_slot L t i = Some r \<Longrightarrow> r \<in> lg_live L \<and> lg_home L r = Some (t, i)"
    and "\<And>r t i. lg_home L r = Some (t, i) \<Longrightarrow> lg_slot L t i = Some r"
  shows "slots_ok L"
  unfolding slots_ok_def using assms by blast

lemma slot_home: "linv L \<Longrightarrow> lg_slot L t i = Some r \<Longrightarrow> r \<in> lg_live L \<and> lg_home L r = Some (t, i)"
  unfolding linv_def slots_ok_def by blast

lemma home_slot: "linv L \<Longrightarrow> lg_home L r = Some (t, i) \<Longrightarrow> lg_slot L t i = Some r"
  unfolding linv_def slots_ok_def by blast

lemma home_live: "linv L \<Longrightarrow> lg_home L r = Some (t, i) \<Longrightarrow> r \<in> lg_live L"
  using slot_home home_slot by blast

lemma flights_okI:
  assumes "\<And>t. distinct (flights L t)"
    and "\<And>t t' r. r \<in> set (flights L t) \<Longrightarrow> r \<in> set (flights L t') \<Longrightarrow> t = t'"
    and "\<And>t r. r \<in> set (flights L t) \<Longrightarrow> r \<in> lg_live L \<and> lg_home L r = None"
    and "\<And>r. r \<in> lg_live L \<Longrightarrow> lg_home L r = None \<Longrightarrow> \<exists>t. r \<in> set (flights L t)"
  shows "flights_ok L"
  unfolding flights_ok_def using assms by blast

lemma flight_distinct: "linv L \<Longrightarrow> distinct (flights L t)"
  by (simp add: linv_def flights_ok_def)

lemma flight_unique: "linv L \<Longrightarrow> r \<in> set (flights L t) \<Longrightarrow> r \<in> set (flights L t') \<Longrightarrow> t = t'"
  by (simp add: linv_def flights_ok_def)

lemma flight_live: "linv L \<Longrightarrow> r \<in> set (flights L t) \<Longrightarrow> r \<in> lg_live L \<and> lg_home L r = None"
  unfolding linv_def flights_ok_def by blast

lemma homeless_flies: "linv L \<Longrightarrow> r \<in> lg_live L \<Longrightarrow> lg_home L r = None \<Longrightarrow> \<exists>t. r \<in> set (flights L t)"
  unfolding linv_def flights_ok_def by blast

lemma set_append_Migration:
  "Migration c \<in> set (fold (append_mail Terminate) ts f t) \<longleftrightarrow> Migration c \<in> set (f t)"
  by (induction ts arbitrary: f) (auto simp: append_mail_def)

lemma linv_fresh_ctrl: "linv L \<Longrightarrow> Migration c \<in> set (lg_mail L t) \<Longrightarrow> \<not> was_handled c \<and> \<not> is_yielding c"
  unfolding linv_def fresh_ok_def by blast

lemma fresh_okI:
  assumes "linv L" and "\<And>t c. Migration c \<in> set (lg_mail L' t) \<Longrightarrow>
     Migration c \<in> set (lg_mail L t) \<or> \<not> was_handled c \<and> \<not> is_yielding c"
  shows "fresh_ok L'"
  unfolding fresh_ok_def using assms(2) linv_fresh_ctrl [OF assms(1)] by blast

lemma linv_count: "linv L \<Longrightarrow> count_ok L"
  by (simp add: linv_def)

lemma linv_term: "linv L \<Longrightarrow> lg_next L < 2 ^ 64 \<Longrightarrow> Terminate \<in> set (lg_mail L t) \<Longrightarrow> lg_live L = {}"
  unfolding linv_def term_ok_def by blast

lemma linv_fresh:
  assumes "linv L"
  shows "lg_next L \<notin> lg_live L" and "lg_home L (lg_next L) = None" and "lg_next L \<notin> set (flights L t)"
proof -
  show live: "lg_next L \<notin> lg_live L" using linv_count [OF assms] by (auto simp: count_ok_def)
  show "lg_next L \<notin> set (flights L t)" using flight_live [OF assms] live by blast
  show "lg_home L (lg_next L) = None"
    using home_live [OF assms, of "lg_next L"] live by (cases "lg_home L (lg_next L)") auto
qed

text \<open>Each step keeps each part.\<close>

lemma slots_ok_spawn:
  assumes "linv L" and "lg_slot L t i = None"
  shows "slots_ok (led_spawn t i L)"
proof (rule slots_okI)
  fix t' i' r
  assume "lg_slot (led_spawn t i L) t' i' = Some r"
  then show "r \<in> lg_live (led_spawn t i L) \<and> lg_home (led_spawn t i L) r = Some (t', i')"
    using linv_fresh(1) [OF assms(1)]
    by (auto simp: led_defs split: if_splits dest: slot_home [OF assms(1)])
next
  fix r t' i'
  assume "lg_home (led_spawn t i L) r = Some (t', i')"
  then show "lg_slot (led_spawn t i L) t' i' = Some r"
    using assms(2) by (auto simp: led_defs split: if_splits dest: home_slot [OF assms(1)])
qed

lemma flights_ok_spawn:
  assumes "linv L"
  shows "flights_ok (led_spawn t i L)"
  by (rule flights_okI)
    (use linv_fresh [OF assms] in \<open>auto simp: led_defs split: if_splits
      intro: flight_distinct [OF assms] homeless_flies [OF assms] dest: flight_live [OF assms] flight_unique [OF assms]\<close>)

lemma count_ok_spawn: "linv L \<Longrightarrow> count_ok (led_spawn t i L)"
  using linv_fresh(1) [of L] linv_count [of L] by (auto simp: count_ok_def led_defs)

lemma term_ok_spawn: "linv L \<Longrightarrow> lg_live L \<noteq> {} \<Longrightarrow> term_ok (led_spawn t i L)"
  using linv_term [of L] by (auto simp: term_ok_def led_defs)

lemma linv_spawn: "linv L \<Longrightarrow> lg_live L \<noteq> {} \<Longrightarrow> lg_slot L t i = None \<Longrightarrow> linv (led_spawn t i L)"
  unfolding linv_def [of "led_spawn t i L"]
  by (intro conjI slots_ok_spawn flights_ok_spawn count_ok_spawn term_ok_spawn fresh_okI [of L])
    (simp_all add: led_spawn_def)

text \<open>Leaving a slot, at the end of a coroutine or when it migrates.\<close>

lemma slots_ok_vacate:
  assumes "linv L" and "lg_home L r = Some (t, i)"
    and "lg_home L' = (lg_home L)(r := None)" and "lg_slot L' = set_slot t i None (lg_slot L)"
    and "lg_live L - {r} \<subseteq> lg_live L'"
  shows "slots_ok L'"
proof (rule slots_okI)
  fix t' i' r'
  assume "lg_slot L' t' i' = Some r'"
  then have "lg_slot L t' i' = Some r'" and ne: "(t', i') \<noteq> (t, i)"
    by (auto simp: assms(4) set_slot_def split: if_splits)
  from slot_home [OF assms(1) this(1)] have h: "r' \<in> lg_live L" "lg_home L r' = Some (t', i')" by auto
  with ne assms(2) have "r' \<noteq> r" by auto
  with h assms(3,5) show "r' \<in> lg_live L' \<and> lg_home L' r' = Some (t', i')" by auto
next
  fix r' t' i'
  assume "lg_home L' r' = Some (t', i')"
  then have "r' \<noteq> r" and h: "lg_home L r' = Some (t', i')" by (auto simp: assms(3) split: if_splits)
  moreover from home_slot [OF assms(1) h] home_slot [OF assms(1,2)] \<open>r' \<noteq> r\<close> have "(t', i') \<noteq> (t, i)" by auto
  ultimately show "lg_slot L' t' i' = Some r'"
    using home_slot [OF assms(1) h] by (auto simp: assms(4) set_slot_def)
qed

lemma flights_ok_finish:
  assumes "linv L" and "lg_home L r = Some (t, i)"
  shows "flights_ok (led_finish r t i ts L)"
proof -
  have "\<And>t'. r \<notin> set (flights L t')" using flight_live [OF assms(1)] assms(2) by fastforce
  then show ?thesis
    by (intro flights_okI)
      (auto simp: led_defs split: if_splits intro: flight_distinct [OF assms(1)] homeless_flies [OF assms(1)]
        dest: flight_live [OF assms(1)] flight_unique [OF assms(1)])
qed

lemma count_ok_finish:
  assumes "linv L" and "r \<in> lg_live L"
  shows "count_ok (led_finish r t i ts L)"
proof -
  from linv_count [OF assms(1)] have fin: "finite (lg_live L)"
    and n: "lg_num L = of_nat (card (lg_live L))" and b: "\<forall>r \<in> lg_live L. r < lg_next L"
    by (simp_all add: count_ok_def)
  from card.remove [OF fin assms(2)] have "lg_num L - 1 = of_nat (card (lg_live L - {r}))"
    by (simp only: n of_nat_Suc add_diff_cancel_left')
  with fin b show ?thesis by (simp add: count_ok_def led_finish_def)
qed

lemma term_ok_finish:
  assumes "linv L" and "r \<in> lg_live L"
  shows "term_ok (led_finish r t i ts L)"
proof -
  have last: "lg_live L - {r} = {}" if small: "lg_next L < 2 ^ 64" and one: "lg_num L = 1"
  proof -
    from card_live_le [OF linv_count [OF assms(1)]] small have "card (lg_live L) < 2 ^ 64" by simp
    moreover have "(of_nat (card (lg_live L)) :: usize) = of_nat 1"
      using linv_count [OF assms(1)] one by (simp add: count_ok_def)
    ultimately have "card (lg_live L) = 1"
      using usize_of_nat_inject [of "card (lg_live L)" 1] by simp
    with assms(2) show ?thesis by (auto simp: card_1_singleton_iff)
  qed
  have none: "Terminate \<notin> set (lg_mail L t')" if "lg_next L < 2 ^ 64" for t'
    using linv_term [OF assms(1) that] assms(2) by blast
  show ?thesis
    unfolding term_ok_def led_finish_def using last none by (simp split: if_splits)
qed

lemma linv_finish:
  assumes "linv L" and "r \<in> lg_live L" and "lg_home L r = Some (t, i)"
  shows "linv (led_finish r t i ts L)"
proof -
  have "slots_ok (led_finish r t i ts L)"
    by (rule slots_ok_vacate [OF assms(1,3)]) (simp_all add: led_finish_def)
  moreover have "fresh_ok (led_finish r t i ts L)"
    by (rule fresh_okI [OF assms(1)]) (simp add: led_finish_def set_append_Migration split: if_splits)
  ultimately show ?thesis
    using flights_ok_finish [OF assms(1,3)] count_ok_finish [OF assms(1,2)] term_ok_finish [OF assms(1,2)]
    by (simp add: linv_def)
qed

lemma flights_append_mail:
  "flying_of (append_mail (Migration c) to f t) = flying_of (f t) @ (if t = to then [ctrl_rc c] else [])"
  by (simp add: append_mail_def)

lemma flights_ok_migrate:
  assumes "linv L" and "lg_home L r = Some (t, i)" and "ctrl_rc c = r"
  shows "flights_ok (led_migrate r t i c to L)"
proof -
  let ?L = "led_migrate r t i c to L"
  have fl: "flights ?L t' = flights L t' @ (if t' = to then [r] else [])" for t'
    by (simp add: led_migrate_def flights_append_mail assms(3))
  have new: "r \<notin> set (flights L t')" for t' using flight_live [OF assms(1)] assms(2) by fastforce
  show ?thesis
  proof (rule flights_okI)
    show "distinct (flights ?L t')" for t' using new flight_distinct [OF assms(1)] by (simp add: fl)
    show "t' = t''" if "x \<in> set (flights ?L t')" "x \<in> set (flights ?L t'')" for t' t'' x
      using that new flight_unique [OF assms(1)] by (auto simp: fl split: if_splits)
    show "x \<in> lg_live ?L \<and> lg_home ?L x = None" if "x \<in> set (flights ?L t')" for t' x
    proof -
      from that have "x = r \<or> x \<in> set (flights L t')" by (auto simp: fl split: if_splits)
      then show ?thesis
        using flight_live [OF assms(1)] home_live [OF assms(1,2)] by (auto simp: led_migrate_def)
    qed
    show "\<exists>t'. x \<in> set (flights ?L t')" if "x \<in> lg_live ?L" "lg_home ?L x = None" for x
    proof (cases "x = r")
      case True
      then have "x \<in> set (flights ?L to)" by (simp add: fl)
      then show ?thesis by blast
    next
      case False
      with that homeless_flies [OF assms(1), of x] obtain t' where "x \<in> set (flights L t')"
        by (auto simp: led_migrate_def)
      then have "x \<in> set (flights ?L t')" by (simp add: fl)
      then show ?thesis by blast
    qed
  qed
qed

lemma linv_migrate:
  assumes "linv L" and "lg_home L r = Some (t, i)" and "c = ctrl_new r"
  shows "linv (led_migrate r t i c to L)"
proof -
  have "slots_ok (led_migrate r t i c to L)"
    by (rule slots_ok_vacate [OF assms(1,2)]) (simp_all add: led_migrate_def)
  moreover have "count_ok (led_migrate r t i c to L)"
    using linv_count [OF assms(1)] by (simp add: count_ok_def led_migrate_def)
  moreover have "term_ok (led_migrate r t i c to L)"
    using linv_term [OF assms(1)] by (auto simp: term_ok_def led_migrate_def append_mail_def split: if_splits)
  moreover have "fresh_ok (led_migrate r t i c to L)"
    by (rule fresh_okI [OF assms(1)])
      (auto simp: led_migrate_def append_mail_def assms(3) ctrl_new_def split: if_splits)
  ultimately show ?thesis using flights_ok_migrate [OF assms(1,2)] assms(3) by (simp add: linv_def ctrl_new_def)
qed

lemma slots_ok_attach:
  assumes "linv L" and "r \<in> lg_live L" and "lg_home L r = None" and "lg_slot L t i = None"
    and "lg_home L' = (lg_home L)(r \<mapsto> (t, i))" and "lg_slot L' = set_slot t i (Some r) (lg_slot L)"
    and "lg_live L' = lg_live L"
  shows "slots_ok L'"
proof (rule slots_okI)
  show "r' \<in> lg_live L' \<and> lg_home L' r' = Some (t', i')" if "lg_slot L' t' i' = Some r'" for t' i' r'
    using that assms(2,3,5,7) slot_home [OF assms(1), of t' i' r']
    by (auto simp: assms(6) set_slot_def split: if_splits)
  show "lg_slot L' t' i' = Some r'" if "lg_home L' r' = Some (t', i')" for r' t' i'
    using that assms(4) home_slot [OF assms(1), of r' t' i']
    by (auto simp: assms(5,6) set_slot_def split: if_splits)
qed

lemma linv_attach:
  assumes "linv L" and "lg_mail L t = Migration c # ms" and "lg_slot L t i = None"
  shows "linv (led_attach (ctrl_rc c) t i (led_pop t L))"
proof -
  let ?r = "ctrl_rc c" and ?L = "led_attach (ctrl_rc c) t i (led_pop t L)"
  have here: "?r \<in> set (flights L t)" by (simp add: assms(2))
  then have r: "?r \<in> lg_live L" "lg_home L ?r = None" using flight_live [OF assms(1)] by auto
  have fl: "flights ?L t' = (if t' = t then flying_of ms else flights L t')" for t'
    by (simp add: led_attach_def led_pop_def assms(2))
  have gone: "?r \<notin> set (flights ?L t')" for t'
    using flight_distinct [OF assms(1), of t] flight_unique [OF assms(1) here, of t'] by (auto simp: fl assms(2))
  have sub: "set (flights ?L t') \<subseteq> set (flights L t')" for t' by (auto simp: fl assms(2))
  have "slots_ok ?L"
    by (rule slots_ok_attach [OF assms(1) r assms(3)]) (simp_all add: led_attach_def led_pop_def)
  moreover have "flights_ok ?L"
  proof (rule flights_okI)
    show "distinct (flights ?L t')" for t' using flight_distinct [OF assms(1), of t'] by (auto simp: fl assms(2))
    show "t' = t''" if "x \<in> set (flights ?L t')" "x \<in> set (flights ?L t'')" for t' t'' x
      using that sub flight_unique [OF assms(1)] by blast
    show "x \<in> lg_live ?L \<and> lg_home ?L x = None" if x: "x \<in> set (flights ?L t')" for t' x
    proof -
      from x gone have "x \<noteq> ?r" by metis
      moreover have "x \<in> set (flights L t')" using x sub by blast
      ultimately show ?thesis using flight_live [OF assms(1)] by (simp add: led_attach_def led_pop_def)
    qed
    show "\<exists>t'. x \<in> set (flights ?L t')" if "x \<in> lg_live ?L" "lg_home ?L x = None" for x
    proof -
      from that have x: "x \<noteq> ?r" "x \<in> lg_live L" "lg_home L x = None"
        by (auto simp: led_attach_def led_pop_def split: if_splits)
      from homeless_flies [OF assms(1) x(2,3)] obtain t' where "x \<in> set (flights L t')" by blast
      with x(1) show ?thesis by (intro exI [of _ t']) (auto simp: fl assms(2))
    qed
  qed
  moreover have "count_ok ?L" using linv_count [OF assms(1)] by (simp add: count_ok_def led_attach_def led_pop_def)
  moreover have "term_ok ?L"
    using linv_term [OF assms(1), of t] linv_term [OF assms(1)]
    by (auto simp: term_ok_def led_attach_def led_pop_def assms(2) split: if_splits)
  moreover have "fresh_ok ?L"
    by (rule fresh_okI [OF assms(1)]) (auto simp: led_attach_def led_pop_def assms(2) split: if_splits)
  ultimately show ?thesis by (simp add: linv_def)
qed

lemma linv_terminate:
  assumes "linv L" and "lg_mail L t = Terminate # ms"
  shows "linv (led_pop t L)"
proof -
  have fl: "flights (led_pop t L) t' = flights L t'" for t' by (simp add: led_pop_def assms(2))
  have "slots_ok (led_pop t L)"
  proof (rule slots_okI)
    show "r \<in> lg_live (led_pop t L) \<and> lg_home (led_pop t L) r = Some (t', i)"
      if "lg_slot (led_pop t L) t' i = Some r" for t' i r
      using slot_home [OF assms(1), of t' i r] that by (simp add: led_pop_def)
    show "lg_slot (led_pop t L) t' i = Some r" if "lg_home (led_pop t L) r = Some (t', i)" for r t' i
      using home_slot [OF assms(1), of r t' i] that by (simp add: led_pop_def)
  qed
  moreover have "flights_ok (led_pop t L)"
    by (rule flights_okI)
      (unfold fl, auto simp: led_pop_def intro: flight_distinct [OF assms(1)] homeless_flies [OF assms(1)]
        dest: flight_live [OF assms(1)] flight_unique [OF assms(1)])
  moreover have "count_ok (led_pop t L)" using linv_count [OF assms(1)] by (simp add: count_ok_def led_pop_def)
  moreover have "term_ok (led_pop t L)"
    using linv_term [OF assms(1), of t] by (auto simp: term_ok_def led_pop_def assms(2) split: if_splits)
  moreover have "fresh_ok (led_pop t L)"
    by (rule fresh_okI [OF assms(1)]) (auto simp: led_pop_def assms(2) split: if_splits)
  ultimately show ?thesis by (simp add: linv_def)
qed

lemma linv_lstep: "linv L \<Longrightarrow> lstep L L' \<Longrightarrow> linv L'"
  by (erule lstepE) (auto intro: linv_spawn linv_finish linv_migrate linv_attach linv_terminate)

text \<open>A ledger in which one coroutine was started.\<close>

definition linit :: "ledger \<Rightarrow> bool" where
  "linit L \<longleftrightarrow> (\<exists>t i. L = led_spawn t i \<lparr>lg_next = 0, lg_live = {}, lg_home = (\<lambda>r. None),
     lg_slot = (\<lambda>t i. None), lg_num = 0, lg_mail = (\<lambda>t. [])\<rparr>)"

lemma linv_linit: "linit L \<Longrightarrow> linv L"
  by (auto simp: linit_def linv_def slots_ok_def flights_ok_def count_ok_def term_ok_def fresh_ok_def led_spawn_def
      set_slot_def split: if_splits)

interpretation led: invariant_system linit lstep linv
  by unfold_locales (fact linv_linit, fact linv_lstep)

text \<open>
  Identities are not reused: the next one never decreases, and a coroutine that has ended stays out of
  the live set, over any number of steps.
\<close>

lemma lstep_next: "lstep L L' \<Longrightarrow> lg_next L \<le> lg_next L'"
  by (erule lstepE) (auto simp: led_defs)

lemma lstep_dead: "lstep L L' \<Longrightarrow> r < lg_next L \<Longrightarrow> r \<notin> lg_live L \<Longrightarrow> r \<notin> lg_live L'"
  by (erule lstepE) (auto simp: led_defs)

lemma lsteps_dead:
  assumes "lstep\<^sup>*\<^sup>* L L'" and "r < lg_next L" and "r \<notin> lg_live L"
  shows "r < lg_next L' \<and> r \<notin> lg_live L'"
  using assms(1)
proof induction
  case (step L1 L2)
  with lstep_next [of L1 L2] lstep_dead [of L1 L2 r] show ?case by auto
qed (use assms(2,3) in auto)

lemma lsteps_done: "lstep\<^sup>*\<^sup>* L L' \<Longrightarrow> lg_live L = {} \<Longrightarrow> lg_live L' = {}"
  by (induction rule: rtranclp_induct) (auto simp: led_defs elim!: lstepE)

end
