(* ===== verification/Refinement.thy ===== *)
theory Refinement
  imports Ledger
begin

text \<open>
  The code refines the ledger. \<open>ledger_of\<close> reads the ledger off a world; \<open>quiet\<close> relates worlds
  between which nothing in the ledger changed. Almost every operation is quiet; spawning,
  finishing, migrating and reattaching a coroutine are one ledger step each, and every callback of
  the event loop is a sequence of ledger steps.
\<close>

fun important :: "Message \<Rightarrow> bool" where
  "important (Migration c) = True"
| "important Terminate = True"
| "important _ = False"

definition lmail :: "('el \<Rightarrow> thread_id \<Rightarrow> Message list) \<Rightarrow> 'el \<Rightarrow> thread_id \<Rightarrow> Message list" where
  "lmail mail e = (\<lambda>t. filter important (mail e t))"

definition alive :: "('el, 'sl, 'k, 'sg, 'sc) world \<Rightarrow> co_ref \<Rightarrow> bool" where
  "alive w r \<longleftrightarrow> co_state (w_cos w r) \<noteq> Finished"

definition ledger_of ::
  "('el, 'sl, 'k, 'sg, 'sc) rt \<Rightarrow> ('el \<Rightarrow> thread_id \<Rightarrow> Message list) \<Rightarrow> ('el, 'sl, 'k, 'sg, 'sc) world \<Rightarrow> ledger" where
  "ledger_of rt mail w =
     \<lparr>lg_next = w_nco w, lg_live = {r. alive w r},
      lg_home = (\<lambda>r. if alive w r then map_option (\<lambda>t. (t, co_the_id (w_cos w r))) (co_handler_shared (w_cos w r))
                     else None),
      lg_slot = (\<lambda>t i. slab_get (rt_slab rt) i (hs_coroutines (w_hs w t))),
      lg_num = w_num w, lg_mail = lmail mail (w_env w)\<rparr>"

text \<open>What else the proofs carry: the slabs are in order, and no finished coroutine waits.\<close>

definition side :: "('sl \<Rightarrow> bool) \<Rightarrow> ('el, 'sl, 'k, 'sg, 'sc) world \<Rightarrow> bool" where
  "side ok w \<longleftrightarrow> (\<forall>t. ok (hs_coroutines (w_hs w t))) \<and> (\<forall>r. \<not> alive w r \<longrightarrow> co_blocked_on (w_cos w r) = [])"

text \<open>The documented behaviour of the code that is only called.\<close>

definition runtime_laws ::
  "('el, 'sl, 'k, 'sg, 'sc) rt \<Rightarrow> ('el \<Rightarrow> thread_id \<Rightarrow> Message list) \<Rightarrow> ('sl \<Rightarrow> bool) \<Rightarrow> bool" where
  "runtime_laws rt mail ok \<longleftrightarrow>
     mio_laws (rt_mio rt) mail \<and> slab_laws (rt_slab rt) ok \<and> (\<forall>n e. mail (snd (rt_user_io rt n e)) = mail e)
   \<and> sched_laws (rt_sched rt)"

definition quiet ::
  "('el \<Rightarrow> thread_id \<Rightarrow> Message list) \<Rightarrow> ('el, 'sl, 'k, 'sg, 'sc) world \<Rightarrow> ('el, 'sl, 'k, 'sg, 'sc) world \<Rightarrow> bool" where
  "quiet mail w w' \<longleftrightarrow>
     w_nco w' = w_nco w \<and> w_num w' = w_num w \<and> w_current w' = w_current w
   \<and> (\<forall>t. hs_coroutines (w_hs w' t) = hs_coroutines (w_hs w t))
   \<and> lmail mail (w_env w') = lmail mail (w_env w)
   \<and> (\<forall>r. alive w' r = alive w r)
   \<and> (\<forall>r. alive w r \<longrightarrow> co_handler_shared (w_cos w' r) = co_handler_shared (w_cos w r)
        \<and> co_the_id (w_cos w' r) = co_the_id (w_cos w r))
   \<and> (\<forall>r. \<not> alive w r \<longrightarrow> co_blocked_on (w_cos w r) = [] \<longrightarrow> co_blocked_on (w_cos w' r) = [])"

lemma quiet_refl [simp]: "quiet mail w w"
  by (simp add: quiet_def)

lemma quiet_trans: "quiet mail w w' \<Longrightarrow> quiet mail w' w'' \<Longrightarrow> quiet mail w w''"
  unfolding quiet_def by metis

lemma quiet_ledger: "quiet mail w w' \<Longrightarrow> ledger_of rt mail w' = ledger_of rt mail w"
  by (auto simp: quiet_def ledger_of_def fun_eq_iff)

lemma quiet_side: "quiet mail w w' \<Longrightarrow> side ok w \<Longrightarrow> side ok w'"
  by (simp add: quiet_def side_def)

lemma quiet_alive: "quiet mail w w' \<Longrightarrow> alive w' r = alive w r"
  by (simp add: quiet_def)

lemma quiet_current: "quiet mail w w' \<Longrightarrow> w_current w' = w_current w"
  by (simp add: quiet_def)

lemma foldR_quiet:
  assumes "foldR f xs w = Inr w'" and "\<And>x u v. x \<in> set xs \<Longrightarrow> f x u = Inr v \<Longrightarrow> quiet mail u v"
  shows "quiet mail w w'"
  by (rule foldR_inv [OF assms(1), where P = "quiet mail w"]) (auto intro: quiet_trans assms(2))

text \<open>Quiet updates of the parts of a world.\<close>

lemma quiet_upd_co:
  assumes "co_state (f (w_cos w r)) = co_state (w_cos w r)"
    and "co_handler_shared (f (w_cos w r)) = co_handler_shared (w_cos w r)"
    and "co_the_id (f (w_cos w r)) = co_the_id (w_cos w r)"
    and "co_blocked_on (w_cos w r) = [] \<Longrightarrow> co_blocked_on (f (w_cos w r)) = []"
  shows "quiet mail w (upd_co r f w)"
  using assms by (auto simp: quiet_def upd_co_def alive_def)

lemma quiet_upd_co_alive:
  assumes "alive w r" and "co_state (f (w_cos w r)) \<noteq> Finished"
    and "co_handler_shared (f (w_cos w r)) = co_handler_shared (w_cos w r)"
    and "co_the_id (f (w_cos w r)) = co_the_id (w_cos w r)"
  shows "quiet mail w (upd_co r f w)"
  using assms by (auto simp: quiet_def upd_co_def alive_def)

lemma quiet_upd_hs:
  assumes "hs_coroutines (f (w_hs w t)) = hs_coroutines (w_hs w t)"
  shows "quiet mail w (upd_hs t f w)"
  using assms by (auto simp: quiet_def upd_hs_def alive_def)

lemma world_more:
  fixes w w' :: "('el, 'sl, 'k, 'sg, 'sc) world"
  assumes "io_world.more w' = io_world.more w"
  shows "w_cos w' = w_cos w" and "w_nco w' = w_nco w" and "w_hs w' = w_hs w" and "w_num w' = w_num w"
    and "w_current w' = w_current w" and "w_sched w' = w_sched w" and "w_shutting w' = w_shutting w"
    and "w_sched_shared w' = w_sched_shared w"
  using assms by (cases w, cases w', simp)+

lemma quiet_io:
  fixes w w' :: "('el, 'sl, 'k, 'sg, 'sc) world"
  assumes "io_world.more w' = io_world.more w" and "lmail mail (w_env w') = lmail mail (w_env w)"
  shows "quiet mail w w'"
  using assms(2) world_more [OF assms(1)] by (simp add: quiet_def alive_def)

lemma more_io_updates [simp]:
  "io_world.more (set_env e w) = io_world.more w" "io_world.more (set_chan c ch w) = io_world.more w"
  "io_world.more (set_src s x w) = io_world.more w" "io_world.more (mark_blocked s n rw w) = io_world.more w"
  by (cases w; simp add: set_env_def set_chan_def set_src_def mark_blocked_def Let_def)+

lemma env_io_updates [simp]:
  "w_env (set_env e w) = e" "w_env (set_chan c ch w) = w_env w"
  "w_env (set_src s x w) = w_env w" "w_env (mark_blocked s n rw w) = w_env w"
  by (simp_all add: set_env_def set_chan_def set_src_def mark_blocked_def Let_def)

lemma w_cos_mark_blocked [simp]: "w_cos (mark_blocked s n rw w) = w_cos w"
  by (simp add: mark_blocked_def set_src_def Let_def)

lemma quiet_mark_blocked: "quiet mail w (mark_blocked s n rw w)"
  by (rule quiet_io) simp_all

text \<open>Registrations and channel operations leave the mailboxes as they are, wake-ups apart.\<close>

lemma Timer_register_mail:
  assumes "mio_laws mio mail" and "Timer_register dbg mio th tk t e = Inr (b, t', e')"
  shows "mail e' = mail e"
proof -
  obtain now e1 where now: "instant_now mio e = (now, e1)" by (cases "instant_now mio e")
  with mio_laws_frame(8) [OF assms(1), of e] have e1: "mail e1 = mail e" by simp
  show ?thesis
  proof (cases "tc_timeout t \<le> now")
    case True
    with assms(2) now e1 show ?thesis by (simp add: Timer_register_def)
  next
    case False
    with assms(2) now obtain d h where "mio_timeout_ms mio th tk d e1 = (Some h, e')"
      by (auto simp: Timer_register_def bindR_eq_Inr Let_def case_prod_beta split: option.splits)
        (metis prod.collapse)
    with mio_laws_frame(4) [OF assms(1), of th tk d e1] e1 show ?thesis by simp
  qed
qed

lemma rc_register_mail:
  assumes "mio_laws mio mail" and "rc_register dbg mio th co s w = Inr (b, w')"
  shows "mail (w_env w') = mail (w_env w)"
proof -
  from assms(2) obtain token interest where "io_register dbg mio th s token interest w = Inr (b, w')"
    by (auto simp: rc_register_def bindR_eq_Inr Let_def)
  then show ?thesis
    using mio_laws_frame(1) [OF assms(1)]
    by (auto simp: io_register_def bindR_eq_Inr Let_def split: io.splits if_splits prod.splits
        dest!: Timer_register_mail [OF assms(1)]) (metis snd_conv)
qed

lemma rc_deregister_mail:
  assumes "mio_laws mio mail" and "rc_deregister dbg mio th co s w = Inr w'"
  shows "mail (w_env w') = mail (w_env w)"
proof -
  from assms(2) have "io_deregister mio th s w = Inr w'"
    by (auto simp: rc_deregister_def bindR_eq_Inr)
  then show ?thesis
    using mio_laws_frame(3,5) [OF assms(1)]
    by (auto simp: io_deregister_def Timer_deregister_def Let_def split: io.splits if_splits prod.splits option.splits)
      (metis snd_conv)
qed

lemma runtime_lawsD:
  assumes "runtime_laws rt mail ok"
  shows "mio_laws (rt_mio rt) mail" and "slab_laws (rt_slab rt) ok" and "mail (snd (rt_user_io rt n e)) = mail e"
    and "sched_laws (rt_sched rt)"
  using assms by (simp_all add: runtime_laws_def)

lemma lmail_mail: "mail e' = mail e \<Longrightarrow> lmail mail e' = lmail mail e"
  by (simp add: lmail_def)

lemma sender_retry_lmail:
  assumes "runtime_laws rt mail ok" and "sender_retry (rt_mio rt) t m e = Inr e'"
  shows "lmail mail e' = (if important m then append_mail m t (lmail mail e) else lmail mail e)"
  using sender_retry_mail [OF runtime_lawsD(1) [OF assms(1)] assms(2)]
  by (auto simp: lmail_def append_mail_def)

lemma notify_token_lmail:
  assumes "runtime_laws rt mail ok" and "notify_token rt t token e = Inr e'"
  shows "lmail mail e' = lmail mail e"
  using sender_retry_lmail [OF assms(1)] assms(2) by (simp add: notify_token_def)

lemma rc_register_quiet:
  fixes w w' :: "('el, 'sl, 'k, 'sg, 'sc) world"
  assumes "runtime_laws rt mail ok" and "rc_register dbg (rt_mio rt) th co s w = Inr (b, w')"
  shows "quiet mail w w'"
  using rc_register_view [OF assms(2)] rc_register_mail [OF runtime_lawsD(1) [OF assms(1)] assms(2)]
  by (intro quiet_io lmail_mail) (simp_all add: io_view_def)

lemma rc_deregister_quiet:
  fixes w w' :: "('el, 'sl, 'k, 'sg, 'sc) world"
  assumes "runtime_laws rt mail ok" and "rc_deregister dbg (rt_mio rt) th co s w = Inr w'"
  shows "quiet mail w w'"
  using rc_deregister_view [OF assms(2)] rc_deregister_mail [OF runtime_lawsD(1) [OF assms(1)] assms(2)]
  by (intro quiet_io lmail_mail) (simp_all add: io_view_def)

lemma deregister_all_quiet:
  assumes "runtime_laws rt mail ok" and "deregister_all rt th r w = Inr w'"
  shows "quiet mail w w'"
proof -
  have "quiet mail w (upd_co r (\<lambda>c. c\<lparr>co_blocked_on := []\<rparr>) w)" by (rule quiet_upd_co) simp_all
  moreover have "quiet mail (upd_co r (\<lambda>c. c\<lparr>co_blocked_on := []\<rparr>) w) w'"
    by (rule foldR_quiet [OF assms(2) [unfolded deregister_all_def]]) (rule rc_deregister_quiet [OF assms(1)])
  ultimately show ?thesis by (rule quiet_trans)
qed

lemma unblock_quiet:
  assumes "runtime_laws rt mail ok" and "alive w r" and "unblock rt th r event w = Inr w'"
  shows "quiet mail w w'"
proof -
  let ?w = "upd_co r (\<lambda>c. c\<lparr>co_state := Ready, co_last_event := event\<rparr>) w"
  have "quiet mail w ?w" by (rule quiet_upd_co_alive) (use assms(2) in simp_all)
  moreover have "quiet mail ?w w'" by (rule deregister_all_quiet [OF assms(1) assms(3) [unfolded unblock_def]])
  ultimately show ?thesis by (rule quiet_trans)
qed

lemma register_one_quiet:
  assumes "runtime_laws rt mail ok" and "register_one rt th i s (acc, w) = Inr (acc', w')"
  shows "quiet mail w w'"
  using assms(2) by (auto simp: register_one_def bindR_eq_Inr split: if_splits dest: rc_register_quiet [OF assms(1)])

lemma register_loop_quiet:
  assumes "runtime_laws rt mail ok" and "foldR (register_one rt th i) ss (acc, w) = Inr (acc', w')"
  shows "quiet mail w w' \<and> (ss = [] \<longrightarrow> acc' = acc)"
proof -
  have "case (acc', w') of (a, u) \<Rightarrow> quiet mail w u"
  proof (rule foldR_inv [OF assms(2)])
    show "case v of (a, x) \<Rightarrow> quiet mail w x"
      if "case u of (a, x) \<Rightarrow> quiet mail w x" and "register_one rt th i s u = Inr v" for s u v
      using that by (cases u; cases v) (auto dest!: register_one_quiet [OF assms(1)] intro: quiet_trans)
  qed simp
  with assms(2) show ?thesis by auto
qed

lemma register_all_quiet:
  assumes "runtime_laws rt mail ok" and "side ok w" and "register_all rt th r w = Inr (b, w')"
  shows "quiet mail w w'"
proof -
  from assms(3) obtain acc w1
    where l: "foldR (register_one rt th (co_the_id (w_cos w r))) (co_blocked_on (w_cos w r)) (None, w) = Inr (acc, w1)"
      and rest: "(case acc of Some event \<Rightarrow> bindR (unblock rt th r event w1) (\<lambda>w2. Inr (True, w2)) | None \<Rightarrow> Inr (False, w1)) = Inr (b, w')"
    by (auto simp: register_all_def bindR_eq_Inr)
  from register_loop_quiet [OF assms(1) l] have q: "quiet mail w w1"
    and e: "co_blocked_on (w_cos w r) = [] \<longrightarrow> acc = None" by auto
  show ?thesis
  proof (cases acc)
    case None
    with rest q show ?thesis by simp
  next
    case (Some event)
    with e assms(2) have "alive w r" by (auto simp: side_def)
    with q have a: "alive w1 r" by (simp add: quiet_alive)
    from Some rest have "unblock rt th r event w1 = Inr w'" by (auto simp: bindR_eq_Inr)
    from unblock_quiet [OF assms(1) a this] q show ?thesis by (blast intro: quiet_trans)
  qed
qed

lemma hs_coroutines_add [simp]:
  "hs_coroutines (add_spawned c h) = hs_coroutines h" "hs_coroutines (add_ready c h) = hs_coroutines h"
  by (simp_all add: add_spawned_def add_ready_def)

lemma hs_coroutines_fold_add [simp]:
  "hs_coroutines (fold (\<lambda>child. add_spawned (ctrl_new child)) cs h) = hs_coroutines h"
  by (induction cs arbitrary: h) simp_all

lemma start_children_quiet:
  assumes "start_children r w = Inr w'"
  shows "quiet mail w w'"
proof -
  let ?w = "upd_co r (\<lambda>c. c\<lparr>co_children := []\<rparr>) w"
  have "quiet mail w ?w" by (rule quiet_upd_co) simp_all
  moreover from assms have "quiet mail ?w w'"
    by (auto simp: start_children_def bindR_eq_Inr intro: quiet_upd_hs)
  ultimately show ?thesis by (rule quiet_trans)
qed

lemma enter_context_quiet: "enter_context r w = Inr w' \<Longrightarrow> quiet mail w w'"
  by (auto simp: enter_context_def bindR_eq_Inr intro: quiet_upd_hs)

lemma take_out_context_quiet: "take_out_context r w = Inr w' \<Longrightarrow> quiet mail w w'"
  by (auto simp: take_out_context_def bindR_eq_Inr split: if_splits intro: quiet_upd_hs)

lemma jump_out_quiet: "jump_out rt r w = Inr w' \<Longrightarrow> quiet mail w w'"
  by (auto simp: jump_out_def bindR_eq_Inr Let_def dest: take_out_context_quiet)

lemma push_blocked_quiet:
  assumes "alive w r"
  shows "quiet mail w (push_blocked r s rw w)"
proof -
  let ?w = "mark_blocked s (of_nat (length (co_blocked_on (w_cos w r)))) rw w"
  have "quiet mail w ?w" by (rule quiet_mark_blocked)
  moreover have "quiet mail ?w (push_blocked r s rw w)"
    unfolding push_blocked_def
    by (rule quiet_upd_co_alive) (use assms in \<open>simp_all add: alive_def\<close>)
  ultimately show ?thesis by (rule quiet_trans)
qed

text \<open>Channel operations.\<close>

lemma count_and_notify_lmail:
  assumes "runtime_laws rt mail ok" and "count_and_notify (notify_token rt) ch e = Inr (ch', e')"
  shows "lmail mail e' = lmail mail e"
  using assms(2)
  by (auto simp: count_and_notify_def counter_fetch_add_def maybe_notify_receiver_def bindR_eq_Inr
      split: if_splits option.splits dest: notify_token_lmail [OF assms(1)])

lemma Sender_send_lmail:
  assumes "runtime_laws rt mail ok" and "Sender_send (notify_token rt) v ch e = Inr (r, ch', e')"
  shows "lmail mail e' = lmail mail e"
  using assms(2) by (auto simp: Sender_send_def bindR_eq_Inr split: if_splits dest: count_and_notify_lmail [OF assms(1)])

lemma Sender_drop_lmail:
  assumes "runtime_laws rt mail ok" and "Sender_drop (notify_token rt) ch e = Inr (ch', e')"
  shows "lmail mail e' = lmail mail e"
  using assms(2)
  by (auto simp: Sender_drop_def drop_shared_def bindR_eq_Inr Let_def split: if_splits
      dest: count_and_notify_lmail [OF assms(1)])

lemma chan_op_quiet:
  assumes "chan_op c f w = Inr (r, w')"
    and "\<And>ch e x ch' e'. f ch e = Inr (x, ch', e') \<Longrightarrow> lmail mail e' = lmail mail e"
  shows "quiet mail w w'"
  using assms(1) by (auto simp: chan_op_def bindR_eq_Inr intro!: quiet_io dest: assms(2))

lemma chan_send_quiet:
  assumes "runtime_laws rt mail ok" and "chan_op c (Sender_send (notify_token rt) v) w = Inr (r, w')"
  shows "quiet mail w w'"
  by (rule chan_op_quiet [OF assms(2)]) (rule Sender_send_lmail [OF assms(1)])

lemma chan_drop_quiet:
  assumes "runtime_laws rt mail ok"
    and "chan_op c (\<lambda>ch e. bindR (Sender_drop (notify_token rt) ch e) (\<lambda>(ch', e'). Inr ((), ch', e'))) w = Inr (r, w')"
  shows "quiet mail w w'"
  by (rule chan_op_quiet [OF assms(2)]) (auto simp: bindR_eq_Inr dest: Sender_drop_lmail [OF assms(1)])

lemma chan_pure_quiet:
  assumes "chan_op c (\<lambda>ch e. Inr (g ch, h ch, e)) w = Inr (r, w')"
  shows "quiet mail w w'"
  by (rule chan_op_quiet [OF assms]) simp

lemma alloc_channel_quiet:
  assumes "alloc_channel ch w = (cs, w')"
  shows "quiet mail w w'"
proof -
  let ?w = "set_src (w_nsrc w) (RcEventSource_new (ReceiverIo (w_nchan w))) (set_chan (w_nchan w) ch w)"
  have "quiet mail w ?w" by (rule quiet_io) simp_all
  moreover from assms have "quiet mail ?w w'" by (auto simp: alloc_channel_def Let_def quiet_def alive_def)
  ultimately show ?thesis by (rule quiet_trans)
qed

lemma new_channel_quiet: "new_channel w = (cs, w') \<Longrightarrow> quiet mail w w'"
  unfolding new_channel_def by (rule alloc_channel_quiet)

lemma new_source_quiet:
  assumes "new_source t w = (s, w')"
  shows "quiet mail w w'"
proof -
  let ?w = "set_src (w_nsrc w) (RcEventSource_new t) w"
  have "quiet mail w ?w" by (rule quiet_io) simp_all
  moreover from assms have "quiet mail ?w w'" by (auto simp: new_source_def Let_def quiet_def alive_def)
  ultimately show ?thesis by (rule quiet_trans)
qed

lemma timer_op_quiet:
  assumes "timer_op s f w = Inr (r, w')" and "\<And>t e. mail (snd (snd (f t e))) = mail e"
  shows "quiet mail w w'"
proof -
  from assms(1) obtain t where w': "w' = set_src s ((w_srcs w s)\<lparr>es_io := TimerIo (fst (snd (f t (w_env w))))\<rparr>)
      (set_env (snd (snd (f t (w_env w)))) w)"
    by (auto simp: timer_op_def case_prod_beta Let_def split: io.splits)
  show ?thesis unfolding w' by (rule quiet_io) (simp_all add: lmail_def assms(2))
qed

lemma send_msg_effect:
  assumes "runtime_laws rt mail ok" and "send_msg rt t m w = Inr w'"
  shows "\<exists>e. w' = set_env e w \<and> lmail mail e = (if important m then append_mail m t (lmail mail (w_env w)) else lmail mail (w_env w))"
proof -
  from assms(2) obtain e where e: "sender_retry (rt_mio rt) t m (w_env w) = Inr e" and w: "w' = set_env e w"
    by (auto simp: send_msg_def bindR_eq_Inr)
  from sender_retry_lmail [OF assms(1) e] w show ?thesis by blast
qed

lemma send_msg_quiet:
  assumes "runtime_laws rt mail ok" and "send_msg rt t m w = Inr w'" and "\<not> important m"
  shows "quiet mail w w'"
  using send_msg_effect [OF assms(1,2)] assms(3) by (auto intro!: quiet_io)

lemma broadcast_shutdown_quiet:
  assumes "runtime_laws rt mail ok" and "broadcast_shutdown rt t w = Inr w'"
  shows "quiet mail w w'"
  by (rule foldR_quiet [OF assms(2) [unfolded broadcast_shutdown_def broadcast_def]])
    (erule send_msg_quiet [OF assms(1)], simp)

lemma tl_current_Inr: "tl_current_coroutine th w = Inr co \<longleftrightarrow> w_current w th = Some co"
  by (simp add: tl_current_coroutine_def split: option.splits)

text \<open>The slab laws, on the slabs of a world.\<close>

lemma slab_reserve_laws:
  assumes "slab_laws sl ok" and "ok s"
  shows "ok (slab_reserve sl s)" and "slab_get sl i (slab_reserve sl s) = slab_get sl i s"
proof -
  from assms(1) have "\<forall>n s. ok s \<longrightarrow> ok (slab_grow sl n s) \<and> (\<forall>i. slab_get sl i (slab_grow sl n s) = slab_get sl i s)"
    unfolding slab_laws_def by (elim conjE) assumption
  with assms(2) show "ok (slab_reserve sl s)" "slab_get sl i (slab_reserve sl s) = slab_get sl i s"
    by (simp_all add: slab_reserve_def)
qed

lemma slab_insert_laws:
  assumes "slab_laws sl ok" and "ok s"
  shows "slab_insert sl x s = Some (i, s') \<Longrightarrow>
      ok s' \<and> slab_get sl i s = None \<and> (\<forall>j. slab_get sl j s' = (if j = i then Some x else slab_get sl j s))"
    and "slab_insert_with sl (\<lambda>i. x) s = Some (i, s') \<Longrightarrow>
      ok s' \<and> slab_get sl i s = None \<and> (\<forall>j. slab_get sl j s' = (if j = i then Some x else slab_get sl j s))"
proof -
  from assms(1) have "\<forall>x s i s'. ok s \<longrightarrow> slab_insert sl x s = Some (i, s') \<longrightarrow>
      ok s' \<and> slab_get sl i s = None \<and> (\<forall>j. slab_get sl j s' = (if j = i then Some x else slab_get sl j s))"
    unfolding slab_laws_def by (elim conjE) assumption
  with assms(2) show "slab_insert sl x s = Some (i, s') \<Longrightarrow>
      ok s' \<and> slab_get sl i s = None \<and> (\<forall>j. slab_get sl j s' = (if j = i then Some x else slab_get sl j s))" by blast
  from assms(1) have "\<forall>f s i s'. ok s \<longrightarrow> slab_insert_with sl f s = Some (i, s') \<longrightarrow>
      ok s' \<and> slab_get sl i s = None \<and> (\<forall>j. slab_get sl j s' = (if j = i then Some (f i) else slab_get sl j s))"
    unfolding slab_laws_def by (elim conjE) assumption
  with assms(2) show "slab_insert_with sl (\<lambda>i. x) s = Some (i, s') \<Longrightarrow>
      ok s' \<and> slab_get sl i s = None \<and> (\<forall>j. slab_get sl j s' = (if j = i then Some x else slab_get sl j s))" by blast
qed

lemma slab_remove_laws:
  assumes "slab_laws sl ok" and "ok s" and "slab_remove sl i s = Some (x, s')"
  shows "slab_get sl i s = Some x \<and> ok s' \<and> (\<forall>j. slab_get sl j s' = (if j = i then None else slab_get sl j s))
    \<and> slab_count sl s' + slab_remaining sl s' = slab_count sl s + slab_remaining sl s"
proof -
  from assms(1) have none: "\<forall>i s. ok s \<longrightarrow> slab_get sl i s = None \<longrightarrow> slab_remove sl i s = None"
    unfolding slab_laws_def by (elim conjE) assumption
  with assms(2,3) obtain y where y: "slab_get sl i s = Some y" by (cases "slab_get sl i s") auto
  from assms(1) have "\<forall>i s x. ok s \<longrightarrow> slab_get sl i s = Some x \<longrightarrow>
          (\<exists>s'. slab_remove sl i s = Some (x, s') \<and> ok s'
             \<and> (\<forall>j. slab_get sl j s' = (if j = i then None else slab_get sl j s))
             \<and> slab_count sl s' + slab_remaining sl s' = slab_count sl s + slab_remaining sl s)"
    unfolding slab_laws_def by (elim conjE) assumption
  with assms(2) y obtain s'' where s'': "slab_remove sl i s = Some (y, s'')" "ok s''"
     "\<forall>j. slab_get sl j s'' = (if j = i then None else slab_get sl j s)"
     "slab_count sl s'' + slab_remaining sl s'' = slab_count sl s + slab_remaining sl s"
    by blast
  from s''(1) assms(3) have "x = y" "s' = s''" by simp_all
  with y s'' show ?thesis by simp
qed

text \<open>The four operations that change the ledger, one step each.\<close>

lemma lg_of_simps [simp]:
  "lg_next (ledger_of rt mail w) = w_nco w" "lg_live (ledger_of rt mail w) = {r. alive w r}"
  "lg_slot (ledger_of rt mail w) t i = slab_get (rt_slab rt) i (hs_coroutines (w_hs w t))"
  "lg_num (ledger_of rt mail w) = w_num w" "lg_mail (ledger_of rt mail w) = lmail mail (w_env w)"
  by (simp_all add: ledger_of_def)

lemma lg_home_alive:
  "alive w r \<Longrightarrow> co_handler_shared (w_cos w r) = Some t \<Longrightarrow>
   lg_home (ledger_of rt mail w) r = Some (t, co_the_id (w_cos w r))"
  by (simp add: ledger_of_def)

lemma spawn_effect:
  assumes "runtime_laws rt mail ok" and "side ok w" and "Coroutine_spawn rt th inherited k ex w = Inr (child, w')"
  shows "\<exists>i. lg_slot (ledger_of rt mail w) th i = None
     \<and> ledger_of rt mail w' = led_spawn th i (ledger_of rt mail w) \<and> side ok w'
     \<and> w_current w' = w_current w \<and> child = w_nco w \<and> (\<forall>r. alive w r \<longrightarrow> alive w' r)
     \<and> w_cos w' child = \<lparr>co_context = Some Fresh, co_state = Ready,
            co_last_event = \<lparr>event_id = EventSourceId 0, event_rw = RW_read\<rparr>,
            co_handler_shared = Some th, co_the_id = i, co_blocked_on = [], co_children = [],
            co_func = Some (k, ex), co_self_rc = Some child, co_sync_channel = None,
            co_user_data = inherited, co_inherited = inherited, co_killed = False\<rparr>"
proof -
  let ?sl = "rt_slab rt" and ?s = "hs_coroutines (w_hs w th)"
  note laws = runtime_lawsD(2) [OF assms(1)]
  have s_ok: "ok ?s" using assms(2) by (simp add: side_def)
  from assms(3) obtain i s' where ins: "slab_insert_with ?sl (\<lambda>i. w_nco w) (slab_reserve ?sl ?s) = Some (i, s')"
    by (auto simp: Coroutine_spawn_def Let_def split: option.splits)
  from slab_insert_laws(2) [OF laws slab_reserve_laws(1) [OF laws s_ok] ins]
  have s': "ok s'" "slab_get ?sl i ?s = None" "\<And>j. slab_get ?sl j s' = (if j = i then Some (w_nco w) else slab_get ?sl j ?s)"
    by (auto simp: slab_reserve_laws(2) [OF laws s_ok])
  from assms(3) ins s'(3) [of i]
  have w': "child = w_nco w" "w' = upd_co (w_nco w) (\<lambda>c. c\<lparr>co_self_rc := Some (w_nco w)\<rparr>)
      (coroutines_inc (upd_hs th (\<lambda>h. h\<lparr>hs_coroutines := s'\<rparr>) (w\<lparr>w_cos := (w_cos w)(w_nco w :=
        \<lparr>co_context = Some Fresh, co_state = Ready,
            co_last_event = \<lparr>event_id = EventSourceId 0, event_rw = RW_read\<rparr>,
            co_handler_shared = Some th, co_the_id = i, co_blocked_on = [], co_children = [],
            co_func = Some (k, ex), co_self_rc = None, co_sync_channel = None,
            co_user_data = inherited, co_inherited = inherited, co_killed = False\<rparr>), w_nco := w_nco w + 1\<rparr>)))"
    by (auto simp: Coroutine_spawn_def Let_def upd_hs_def coroutines_inc_def)
  have "ledger_of rt mail w' = led_spawn th i (ledger_of rt mail w)"
    using s'(3) by (auto simp: w'(2) ledger_of_def led_spawn_def set_slot_def upd_co_def coroutines_inc_def
        upd_hs_def alive_def fun_eq_iff)
  moreover have "side ok w'"
    using assms(2) s'(1) by (auto simp: w'(2) side_def upd_co_def coroutines_inc_def upd_hs_def alive_def)
  moreover have "w_current w' = w_current w" "\<forall>r. alive w r \<longrightarrow> alive w' r"
    by (auto simp: w'(2) upd_co_def coroutines_inc_def upd_hs_def alive_def)
  ultimately show ?thesis using s'(2) w'(1)
    by (intro exI [of _ i]) (simp add: w'(2) upd_co_def coroutines_inc_def upd_hs_def)
qed

lemma broadcast_terminate_effect:
  assumes "runtime_laws rt mail ok" and "broadcast_terminate rt t w = Inr w'"
  shows "\<exists>e. w' = set_env e w \<and> lmail mail e = fold (append_mail Terminate) (hs_senders (w_hs w t)) (lmail mail (w_env w))"
proof -
  have "foldR (\<lambda>sender. send_msg rt sender Terminate) ts w = Inr w' \<Longrightarrow>
    \<exists>e. w' = set_env e w \<and> lmail mail e = fold (append_mail Terminate) ts (lmail mail (w_env w))" for ts w w'
  proof (induction ts arbitrary: w)
    case Nil
    then show ?case by (intro exI [of _ "w_env w"]) (simp add: set_env_def)
  next
    case (Cons t ts)
    then obtain w1 where s: "send_msg rt t Terminate w = Inr w1"
      and r: "foldR (\<lambda>sender. send_msg rt sender Terminate) ts w1 = Inr w'" by (auto simp: bindR_eq_Inr)
    from send_msg_effect [OF assms(1) s] Cons.IH [OF r] show ?case by (auto simp: set_env_def)
  qed
  from this [OF assms(2) [unfolded broadcast_terminate_def broadcast_def]] show ?thesis .
qed

lemma report_exit_quiet:
  assumes "runtime_laws rt mail ok" and "report_exit rt h ex res w = Inr w'"
  shows "quiet mail w w'"
  using assms(2)
  by (auto simp: report_exit_def bindR_eq_Inr split: sum.splits if_splits
      dest: chan_send_quiet [OF assms(1)] send_msg_quiet [OF assms(1)])

lemma coroutines_dec_effect:
  assumes "runtime_laws rt mail ok" and "coroutines_dec rt h w = Inr w'"
  shows "\<exists>e. w' = set_env e (w\<lparr>w_num := w_num w - 1\<rparr>)
     \<and> lmail mail e = (if w_num w = 1 then fold (append_mail Terminate) (hs_senders (w_hs w h)) (lmail mail (w_env w))
         else lmail mail (w_env w))"
proof (cases "w_num w = 1")
  case True
  with assms(2) have "broadcast_terminate rt h (w\<lparr>w_num := w_num w - 1\<rparr>) = Inr w'"
    by (auto simp: coroutines_dec_def bindR_eq_Inr Let_def)
  from broadcast_terminate_effect [OF assms(1) this] True show ?thesis by simp
next
  case False
  with assms(2) have "w' = w\<lparr>w_num := w_num w - 1\<rparr>"
    by (auto simp: coroutines_dec_def bindR_eq_Inr Let_def)
  with False show ?thesis by (intro exI [of _ "w_env w"]) (simp add: set_env_def)
qed

lemma finish_effect:
  assumes "runtime_laws rt mail ok" and "side ok w" and "w_current w th = Some co" and "alive w co"
    and "finish rt th ex res w = Inr w'"
  shows "\<exists>h ts. co_handler_shared (w_cos w co) = Some h
     \<and> ledger_of rt mail w' = led_finish co h (co_the_id (w_cos w co)) ts (ledger_of rt mail w)
     \<and> side ok w' \<and> w_current w' = w_current w"
proof -
  let ?i = "co_the_id (w_cos w co)"
  let ?w1 = "upd_co co (\<lambda>c. c\<lparr>co_blocked_on := [], co_self_rc := None, co_state := Finished\<rparr>) w"
  from assms(3,5) obtain h x s w2 w3 where h: "co_handler_shared (w_cos w co) = Some h"
    and rm: "slab_remove (rt_slab rt) ?i (hs_coroutines (w_hs w h)) = Some (x, s)"
    and dec: "coroutines_dec rt h (upd_hs h (\<lambda>x. x\<lparr>hs_coroutines := s\<rparr>) ?w1) = Inr w2"
    and rep: "report_exit rt h ex res w2 = Inr w3"
    and drp: "\<exists>u. chan_op ex (\<lambda>ch e. bindR (Sender_drop (notify_token rt) ch e) (\<lambda>(ch', e'). Inr ((), ch', e'))) w3 = Inr (u, w')"
    by (auto simp: finish_def tl_current_coroutine_def Let_def bindR_eq_Inr upd_co_def)
  have "ok (hs_coroutines (w_hs w h))" using assms(2) by (simp add: side_def)
  note s = slab_remove_laws [OF runtime_lawsD(2) [OF assms(1)] this rm]
  from dec obtain e where w2: "w2 = set_env e ((upd_hs h (\<lambda>x. x\<lparr>hs_coroutines := s\<rparr>) ?w1)\<lparr>w_num := w_num w - 1\<rparr>)"
    and e: "lmail mail e = (if w_num w = 1 then fold (append_mail Terminate) (hs_senders (w_hs w h)) (lmail mail (w_env w))
              else lmail mail (w_env w))"
    using coroutines_dec_effect [OF assms(1) dec] by (auto simp: upd_co_def upd_hs_def)
  have "ledger_of rt mail w2 = led_finish co h ?i (hs_senders (w_hs w h)) (ledger_of rt mail w)"
    using s e by (auto simp: w2 ledger_of_def led_finish_def set_slot_def upd_co_def upd_hs_def set_env_def
        alive_def fun_eq_iff)
  moreover have "side ok w2"
    using assms(2) s by (auto simp: w2 side_def upd_co_def upd_hs_def set_env_def alive_def)
  moreover have "w_current w2 = w_current w" by (simp add: w2 upd_co_def upd_hs_def set_env_def)
  moreover have "quiet mail w2 w'"
    using report_exit_quiet [OF assms(1) rep] chan_drop_quiet [OF assms(1)] drp by (blast intro: quiet_trans)
  ultimately show ?thesis using h
    by (intro exI [of _ h] exI [of _ "hs_senders (w_hs w h)"])
      (simp add: quiet_ledger quiet_side quiet_current)
qed

lemma migrate_effect:
  assumes "runtime_laws rt mail ok" and "side ok w" and "alive w (ctrl_rc c)" and "migrate rt th c to w = Inr w'"
  shows "\<exists>h t. co_handler_shared (w_cos w (ctrl_rc c)) = Some h
     \<and> ledger_of rt mail w' = led_migrate (ctrl_rc c) h (co_the_id (w_cos w (ctrl_rc c))) (ctrl_new (ctrl_rc c)) t (ledger_of rt mail w)
     \<and> side ok w' \<and> w_current w' = w_current w"
proof -
  let ?r = "ctrl_rc c"
  from assms(4) obtain w1 h x s t where d: "deregister_all rt th ?r w = Inr w1"
    and h: "co_handler_shared (w_cos w1 ?r) = Some h"
    and rm: "slab_remove (rt_slab rt) (co_the_id (w_cos w1 ?r)) (hs_coroutines (w_hs w1 h)) = Some (x, s)"
    and snd: "send_msg rt t (Migration (ctrl_new ?r))
       (upd_hs h (\<lambda>x. x\<lparr>hs_coroutines := s\<rparr>) (upd_co ?r (\<lambda>c. c\<lparr>co_handler_shared := None\<rparr>) w1)) = Inr w'"
    by (auto simp: migrate_def detach_from_def bindR_eq_Inr Let_def upd_co_def upd_hs_def)
  from deregister_all_quiet [OF assms(1) d] have q: "quiet mail w w1" .
  with assms(3) have a: "alive w1 ?r" and hs: "co_handler_shared (w_cos w ?r) = Some h"
    and i: "co_the_id (w_cos w1 ?r) = co_the_id (w_cos w ?r)"
    using h by (auto simp: quiet_def)
  from quiet_side [OF q assms(2)] have s1: "side ok w1" .
  then have "ok (hs_coroutines (w_hs w1 h))" by (simp add: side_def)
  note s = slab_remove_laws [OF runtime_lawsD(2) [OF assms(1)] this rm]
  from send_msg_effect [OF assms(1) snd] obtain e
    where w': "w' = set_env e (upd_hs h (\<lambda>x. x\<lparr>hs_coroutines := s\<rparr>) (upd_co ?r (\<lambda>c. c\<lparr>co_handler_shared := None\<rparr>) w1))"
      and e: "lmail mail e = append_mail (Migration (ctrl_new ?r)) t (lmail mail (w_env w1))"
    by (auto simp: upd_co_def upd_hs_def)
  have "ledger_of rt mail w' = led_migrate ?r h (co_the_id (w_cos w ?r)) (ctrl_new ?r) t (ledger_of rt mail w1)"
    using s e a by (auto simp: w' i ledger_of_def led_migrate_def set_slot_def upd_co_def upd_hs_def set_env_def
        alive_def fun_eq_iff)
  moreover have "side ok w'"
    using s1 s by (auto simp: w' side_def upd_co_def upd_hs_def set_env_def alive_def)
  moreover have "w_current w' = w_current w1" by (simp add: w' upd_co_def upd_hs_def set_env_def)
  ultimately show ?thesis using hs quiet_ledger [OF q] quiet_current [OF q]
    by (intro exI [of _ h] exI [of _ t]) simp
qed

text \<open>
  \<open>reattach_to\<close> runs after the event loop took the \<open>Migration\<close> out of the mailbox, so its effect is
  that of attaching a coroutine that is alive and has no handler.
\<close>

lemma reattach_effect:
  assumes "runtime_laws rt mail ok" and "side ok w" and "alive w (ctrl_rc c)"
    and "reattach_to rt th c w = Inr w'"
  shows "\<exists>i. lg_slot (ledger_of rt mail w) th i = None
     \<and> ledger_of rt mail w' = led_attach (ctrl_rc c) th i (ledger_of rt mail w)
     \<and> side ok w' \<and> w_current w' = w_current w \<and> (\<forall>r. alive w' r = alive w r)"
proof -
  let ?r = "ctrl_rc c" and ?sl = "rt_slab rt" and ?s = "hs_coroutines (w_hs w th)"
  note laws = runtime_lawsD(2) [OF assms(1)]
  have s_ok: "ok ?s" using assms(2) by (simp add: side_def)
  from assms(4) obtain i s' b where ins: "slab_insert ?sl ?r (slab_reserve ?sl ?s) = Some (i, s')"
    and reg: "register_all rt th ?r (upd_co ?r (\<lambda>c. c\<lparr>co_the_id := i, co_handler_shared := Some th\<rparr>)
        (upd_hs th (\<lambda>_. (w_hs w th)\<lparr>hs_coroutines := s'\<rparr>) w)) = Inr (b, w')"
    by (auto simp: reattach_to_def HandlerShared_attach_def attach_to_def bindR_eq_Inr split: option.splits)
  let ?w1 = "upd_co ?r (\<lambda>c. c\<lparr>co_the_id := i, co_handler_shared := Some th\<rparr>)
        (upd_hs th (\<lambda>_. (w_hs w th)\<lparr>hs_coroutines := s'\<rparr>) w)"
  from slab_insert_laws(1) [OF laws slab_reserve_laws(1) [OF laws s_ok] ins]
  have s': "ok s'" "slab_get ?sl i ?s = None" "\<And>j. slab_get ?sl j s' = (if j = i then Some ?r else slab_get ?sl j ?s)"
    by (auto simp: slab_reserve_laws(2) [OF laws s_ok])
  have s1: "side ok ?w1" using assms(2) s'(1) by (auto simp: side_def upd_co_def upd_hs_def alive_def)
  have l1: "ledger_of rt mail ?w1 = led_attach ?r th i (ledger_of rt mail w)"
    using s'(3) assms(3) by (auto simp: ledger_of_def led_attach_def set_slot_def upd_co_def upd_hs_def alive_def fun_eq_iff)
  have a1: "\<forall>r. alive ?w1 r = alive w r" "w_current ?w1 = w_current w" by (simp_all add: upd_co_def upd_hs_def alive_def)
  from register_all_quiet [OF assms(1) s1 reg] have q: "quiet mail ?w1 w'" .
  from quiet_ledger [OF q, of rt] quiet_side [OF q s1] quiet_current [OF q] quiet_alive [OF q] l1 a1 s'(2)
  show ?thesis by (intro exI [of _ i]) simp
qed

text \<open>
  \<open>sim w w'\<close>: the step from \<open>w\<close> to \<open>w'\<close> is a sequence of ledger steps and keeps the side conditions.
  Calls of a running coroutine also keep it running and alive.
\<close>

definition sim ::
  "('el, 'sl, 'k, 'sg, 'sc) rt \<Rightarrow> ('el \<Rightarrow> thread_id \<Rightarrow> Message list) \<Rightarrow> ('sl \<Rightarrow> bool) \<Rightarrow>
   ('el, 'sl, 'k, 'sg, 'sc) world \<Rightarrow> ('el, 'sl, 'k, 'sg, 'sc) world \<Rightarrow> bool" where
  "sim rt mail ok w w' \<longleftrightarrow> side ok w' \<and> lstep\<^sup>*\<^sup>* (ledger_of rt mail w) (ledger_of rt mail w')"

lemma sim_refl: "side ok w \<Longrightarrow> sim rt mail ok w w"
  by (simp add: sim_def)

lemma sim_trans: "sim rt mail ok w w' \<Longrightarrow> sim rt mail ok w' w'' \<Longrightarrow> sim rt mail ok w w''"
  by (auto simp: sim_def intro: rtranclp_trans)

lemma sim_quiet: "side ok w \<Longrightarrow> quiet mail w w' \<Longrightarrow> sim rt mail ok w w'"
  by (auto simp: sim_def quiet_side quiet_ledger)

lemma sim_side: "sim rt mail ok w w' \<Longrightarrow> side ok w'"
  by (simp add: sim_def)

lemma linv_lsteps: "lstep\<^sup>*\<^sup>* L L' \<Longrightarrow> linv L \<Longrightarrow> linv L'"
  by (induction rule: rtranclp_induct) (auto intro: linv_lstep)

lemma spawn_child_sim:
  assumes "runtime_laws rt mail ok" and "side ok w" and "alive w co" and "spawn_child rt self k ex w = Inr w'"
  shows "sim rt mail ok w w' \<and> w_current w' = w_current w \<and> (\<forall>r. alive w r \<longrightarrow> alive w' r)"
proof -
  from assms(4) obtain th child w1 where sp: "Coroutine_spawn rt th (co_inherited (w_cos w self)) k ex w = Inr (child, w1)"
    and w': "w' = upd_co self (\<lambda>c. c\<lparr>co_children := co_children c @ [child]\<rparr>) w1"
    by (auto simp: spawn_child_def bindR_eq_Inr)
  from spawn_effect [OF assms(1,2) sp] obtain i where sl: "lg_slot (ledger_of rt mail w) th i = None"
    and l: "ledger_of rt mail w1 = led_spawn th i (ledger_of rt mail w)" and s: "side ok w1"
    and c: "w_current w1 = w_current w" and a: "\<forall>r. alive w r \<longrightarrow> alive w1 r" by blast
  have q: "quiet mail w1 w'" unfolding w' by (rule quiet_upd_co) simp_all
  have "lg_live (ledger_of rt mail w) \<noteq> {}" using assms(3) by auto
  from LSpawn [OF this sl] l s have "sim rt mail ok w w1" by (simp add: sim_def)
  from sim_trans [OF this sim_quiet [OF s q]] c a quiet_current [OF q] quiet_alive [OF q]
  show ?thesis by simp
qed

fun is_spawn :: "'k act \<Rightarrow> bool" where
  "is_spawn (ASpawn k) = True"
| "is_spawn _ = False"

lemma clock_mail:
  assumes "mio_laws mio mail"
  shows "mail (snd (Timer_new mio e)) = mail e" and "mail (snd (set_timeout mio d t e)) = mail e"
    and "mail (snd (Timer_try_read mio t e)) = mail e"
  using mio_laws_frame(8) [OF assms]
  by (simp_all add: Timer_new_def set_timeout_def Timer_try_read_def should_resume_def case_prod_beta)

lemma do_act_quiet:
  assumes "runtime_laws rt mail ok" and "w_current w th = Some co" and "alive w co"
    and "do_act rt th a w = Inr (r, w')" and "\<not> is_spawn a"
  shows "quiet mail w w'"
proof (cases a)
  case ANewChannel
  with assms(4) show ?thesis by (auto split: prod.splits dest: new_channel_quiet)
next
  case (ANewSyncChannel n)
  with assms(4) show ?thesis by (auto split: prod.splits dest: alloc_channel_quiet)
next
  case (ANewSource x)
  with assms(4) show ?thesis by (auto split: prod.splits dest: new_source_quiet)
next
  case ATimerNew
  let ?t = "Timer_new (rt_mio rt) (w_env w)"
  from ATimerNew assms(4) have w': "w' = snd (new_source (TimerIo (fst ?t)) (set_env (snd ?t) w))"
    by (simp add: case_prod_beta)
  have "quiet mail w (set_env (snd ?t) w)"
    by (rule quiet_io) (simp_all add: lmail_def clock_mail(1) [OF runtime_lawsD(1) [OF assms(1)]])
  from quiet_trans [OF this new_source_quiet [OF surjective_pairing]] show ?thesis unfolding w' .
next
  case (ATimerSet s d)
  with assms(4) show ?thesis
    by (auto simp: bindR_eq_Inr case_prod_beta clock_mail [OF runtime_lawsD(1) [OF assms(1)]] intro!: timer_op_quiet)
next
  case (ATimerTryRead s)
  with assms(4) show ?thesis
    by (auto simp: bindR_eq_Inr case_prod_beta clock_mail [OF runtime_lawsD(1) [OF assms(1)]] intro!: timer_op_quiet)
next
  case (ADropReceiver c)
  with assms(4) show ?thesis by (auto simp: bindR_eq_Inr dest: chan_pure_quiet)
next
  case (ASelectAdd s rw)
  with assms(2-4) show ?thesis by (auto simp: select_add_def tl_current_coroutine_def bindR_eq_Inr intro: push_blocked_quiet)
next
  case (ASend c v)
  with assms(4) show ?thesis by (auto simp: bindR_eq_Inr dest: chan_send_quiet [OF assms(1)])
next
  case (ATryRecv c)
  with assms(4) have "\<exists>x. chan_op c (\<lambda>ch e. Inr (fst (try_recv ch), snd (try_recv ch), e)) w = Inr (x, w')"
    by (auto simp: bindR_eq_Inr case_prod_beta)
  then show ?thesis by (auto dest: chan_pure_quiet)
next
  case (ACloneSender c)
  with assms(4) show ?thesis by (auto simp: bindR_eq_Inr dest: chan_pure_quiet)
next
  case (ADropSender c)
  with assms(4) show ?thesis by (auto simp: bindR_eq_Inr dest: chan_drop_quiet [OF assms(1)])
next
  case ABroadcastShutdown
  with assms(4) show ?thesis
    by (auto simp: mioco_shutdown_def bindR_eq_Inr dest: broadcast_shutdown_quiet [OF assms(1)])
next
  case (AUserIo n)
  with assms(4) show ?thesis
    using runtime_lawsD(3) [OF assms(1), of n "w_env w"] by (auto split: prod.splits intro!: quiet_io lmail_mail)
qed (use assms(4,5) in \<open>auto simp: set_userdata_def set_children_userdata_def get_userdata_def thread_num_def
      bindR_eq_Inr intro!: quiet_upd_co\<close>)

lemma do_act_sim:
  assumes "runtime_laws rt mail ok" and "side ok w" and "w_current w th = Some co" and "alive w co"
    and "do_act rt th a w = Inr (r, w')"
  shows "sim rt mail ok w w' \<and> w_current w' = w_current w \<and> alive w' co"
proof (cases "is_spawn a")
  case False
  from do_act_quiet [OF assms(1,3-5) False] have "quiet mail w w'" .
  with assms(2,4) show ?thesis by (simp add: sim_quiet quiet_current quiet_alive)
next
  case True
  then obtain k where a: "a = ASpawn k" by (cases a) simp_all
  with assms(3,5) obtain cs w1 where n: "new_channel w = (cs, w1)" and sp: "spawn_child rt co k (fst cs) w1 = Inr w'"
    by (auto simp: mioco_spawn_def tl_current_coroutine_def bindR_eq_Inr split: prod.splits)
  from new_channel_quiet [OF n] have q: "quiet mail w w1" .
  then have "side ok w1" "alive w1 co" using assms(2,4) by (simp_all add: quiet_side quiet_alive)
  from spawn_child_sim [OF assms(1) this sp] sim_quiet [OF assms(2) q] q assms(4) show ?thesis
    by (auto simp: quiet_current quiet_alive intro: sim_trans)
qed

lemma switch_quiet:
  assumes "w_current w th = Some co" and "alive w co" and "do_switch rt th sw w = Inr w'"
  shows "quiet mail w w'"
proof -
  have st: "quiet mail w (upd_co co (\<lambda>c. c\<lparr>co_state := x\<rparr>) w)" if "x \<noteq> Finished" for x
    by (rule quiet_upd_co_alive) (use assms(2) that in simp_all)
  have "quiet mail w (Coroutine_block_on co s rw w)" for s rw
    unfolding Coroutine_block_on_def
    by (rule quiet_trans [OF st [of Blocked] push_blocked_quiet]) (simp_all add: alive_def upd_co_def)
  with st [of Blocked] st [of Yielding] assms(1,3) show ?thesis
    by (cases sw) (auto simp: yield_now_def block_on_def select_wait_def tl_current_coroutine_def bindR_eq_Inr Let_def
        dest!: jump_out_quiet intro: quiet_trans)
qed

lemma run_seg_sim:
  assumes "runtime_laws rt mail ok"
  shows "side ok w \<Longrightarrow> w_current w th = Some co \<Longrightarrow> alive w co \<Longrightarrow> run_seg rt th seg w = Inr (out, w') \<Longrightarrow>
    sim rt mail ok w w' \<and> w_current w' = w_current w \<and> alive w' co"
proof (induction seg arbitrary: w)
  case (Switch sw k)
  then have "quiet mail w w'" by (auto simp: bindR_eq_Inr dest: switch_quiet)
  with Switch.prems show ?case by (simp add: sim_quiet quiet_current quiet_alive)
next
  case (Act a f)
  from Act.prems(4) obtain r w1 where d: "do_act rt th a w = Inr (r, w1)" and rest: "run_seg rt th (f r) w1 = Inr (out, w')"
    by (auto simp: bindR_eq_Inr)
  from do_act_sim [OF assms Act.prems(1-3) d] have s1: "sim rt mail ok w w1" and c1: "w_current w1 = w_current w" and a1: "alive w1 co"
    by auto
  from Act.IH [OF _ sim_side [OF s1] _ a1 rest] c1 Act.prems(2) s1 show ?case
    by (auto intro: sim_trans)
qed (auto intro: sim_refl)

text \<open>The thread-local pointer is no part of the ledger.\<close>

lemma ledger_current [simp]:
  "ledger_of rt mail (w\<lparr>w_current := x\<rparr>) = ledger_of rt mail w" "side ok (w\<lparr>w_current := x\<rparr>) = side ok w"
  "alive (w\<lparr>w_current := x\<rparr>) r = alive w r"
  by (simp_all add: ledger_of_def side_def alive_def fun_eq_iff)

lemma sim_current [simp]:
  "sim rt mail ok (w\<lparr>w_current := x\<rparr>) w' = sim rt mail ok w w'"
  "sim rt mail ok w (w'\<lparr>w_current := x\<rparr>) = sim rt mail ok w w'"
  by (simp_all add: sim_def)

lemma start_segment_quiet:
  assumes "start_segment rt rc ctx w = Inr (se, w')"
  shows "quiet mail w w'"
proof -
  from assms obtain w1 where e: "enter_context rc w = Inr w1"
    and "w' = w1 \<or> w' = upd_co rc (\<lambda>c. c\<lparr>co_func := None\<rparr>) w1"
    by (cases ctx) (auto simp: start_segment_def bindR_eq_Inr Let_def split: if_splits)
  then have "quiet mail w1 w'" by (auto intro: quiet_upd_co)
  with enter_context_quiet [OF e] show ?thesis by (rule quiet_trans)
qed

text \<open>How a run of a coroutine that is not finished splits into its parts.\<close>

lemma jump_in_cases:
  assumes "jump_in rt th rc w = Inr w'" and "alive w rc"
  obtains ctx seg ex w2 out w3 where
    "rt_dbg rt \<longrightarrow> co_state (w_cos w rc) = Ready \<or> co_killed (w_cos w rc)"
    "co_context (w_cos w rc) = Some ctx"
    "start_segment rt rc ctx (upd_co rc (\<lambda>c. c\<lparr>co_context := None\<rparr>) (w\<lparr>w_current := (w_current w)(th := Some rc)\<rparr>))
       = Inr ((seg, ex), w2)"
    "run_seg rt th seg w2 = Inr (out, w3)"
    "leave_coroutine rt th rc (w_current w th) ex out w3 = Inr w'"
  using assms
  by (auto simp: jump_in_def alive_def tl_current_coroutine_ptr_save_def bindR_eq_Inr split: if_splits)

lemma sim_upd_context:
  assumes "sim rt mail ok w v"
  shows "sim rt mail ok w (upd_co rc (\<lambda>c. c\<lparr>co_context := x\<rparr>) v)"
  by (rule sim_trans [OF assms sim_quiet [OF sim_side [OF assms] quiet_upd_co]]) simp_all

lemma leave_coroutine_sim:
  assumes "runtime_laws rt mail ok" and "side ok w" and "w_current w th = Some rc" and "alive w rc"
    and "leave_coroutine rt th rc prev ex out w = Inr w'"
  shows "sim rt mail ok w w'"
proof (cases out)
  case (Paused k)
  with assms(5) sim_upd_context [OF sim_refl [OF assms(2)]] show ?thesis
    by (auto simp: leave_coroutine_def tl_current_coroutine_ptr_restore_def)
next
  case (Ended res)
  with assms(5) obtain w1 w2 where f: "finish rt th ex res w = Inr w1" and t: "take_out_context rc w1 = Inr w2"
    and w': "w' = tl_current_coroutine_ptr_restore th prev (upd_co rc (\<lambda>c. c\<lparr>co_context := Some Exited\<rparr>) w2)"
    by (auto simp: leave_coroutine_def bindR_eq_Inr)
  from finish_effect [OF assms(1-4) f] obtain h ts where h: "co_handler_shared (w_cos w rc) = Some h"
      and l: "ledger_of rt mail w1 = led_finish rc h (co_the_id (w_cos w rc)) ts (ledger_of rt mail w)"
      and s1: "side ok w1" by blast
  have "lstep (ledger_of rt mail w) (ledger_of rt mail w1)"
    unfolding l by (rule LFinish) (use assms(4) lg_home_alive [OF assms(4) h] in simp_all)
  with s1 have "sim rt mail ok w w1" by (auto simp: sim_def)
  then have "sim rt mail ok w w2" by (rule sim_trans [OF _ sim_quiet [OF s1 take_out_context_quiet [OF t]]])
  from sim_upd_context [OF this] w' show ?thesis by (simp add: tl_current_coroutine_ptr_restore_def)
qed

lemma jump_in_sim:
  assumes "runtime_laws rt mail ok" and "side ok w" and "jump_in rt th rc w = Inr w'"
  shows "sim rt mail ok w w'"
proof (cases "alive w rc")
  case False
  with assms show ?thesis by (simp add: jump_in_def alive_def sim_refl)
next
  case True
  let ?w0 = "w\<lparr>w_current := (w_current w)(th := Some rc)\<rparr>"
  from assms(3) True obtain ctx seg ex w2 out w3 where
    st: "start_segment rt rc ctx (upd_co rc (\<lambda>c. c\<lparr>co_context := None\<rparr>) ?w0) = Inr ((seg, ex), w2)"
    and run: "run_seg rt th seg w2 = Inr (out, w3)"
    and fin: "leave_coroutine rt th rc (w_current w th) ex out w3 = Inr w'"
    by (rule jump_in_cases)
  have "quiet mail ?w0 (upd_co rc (\<lambda>c. c\<lparr>co_context := None\<rparr>) ?w0)" by (rule quiet_upd_co) simp_all
  then have q: "quiet mail ?w0 w2" using start_segment_quiet [OF st] by (rule quiet_trans)
  then have s2: "side ok w2" and c2: "w_current w2 th = Some rc" and a2: "alive w2 rc"
    using assms(2) True quiet_side [OF q] quiet_current [OF q] quiet_alive [OF q] by simp_all
  from sim_quiet [OF _ q, of ok rt] assms(2) have sim2: "sim rt mail ok w w2" by simp
  from run_seg_sim [OF assms(1) s2 c2 a2 run] have sim3: "sim rt mail ok w2 w3" and c3: "w_current w3 th = Some rc"
    and a3: "alive w3 rc" using c2 by auto
  from leave_coroutine_sim [OF assms(1) sim_side [OF sim3] c3 a3 fin] sim2 sim3 show ?thesis
    by (blast intro: sim_trans)
qed

lemma kill_sim:
  assumes "runtime_laws rt mail ok" and "side ok w" and "kill rt th c w = Inr w'"
  shows "sim rt mail ok w w'"
proof -
  let ?w = "upd_co (ctrl_rc c) (\<lambda>c. c\<lparr>co_killed := True\<rparr>) w"
  have q: "quiet mail w ?w" by (rule quiet_upd_co) simp_all
  from sim_trans [OF sim_quiet [OF assms(2) q]
      jump_in_sim [OF assms(1) quiet_side [OF q assms(2)] assms(3) [unfolded kill_def]]] show ?thesis .
qed

lemma ctrl_drop_sim:
  "runtime_laws rt mail ok \<Longrightarrow> side ok w \<Longrightarrow> ctrl_drop rt th c w = Inr w' \<Longrightarrow> sim rt mail ok w w'"
  by (auto simp: ctrl_drop_def split: if_splits intro: kill_sim sim_refl)

lemma requeue_quiet:
  assumes "requeue rt r w = Inr w'"
  shows "quiet mail w w'"
proof -
  have add: "quiet mail v (upd_hs h (add_ready x) v)" for v h x by (rule quiet_upd_hs) simp
  show ?thesis
  proof (cases "co_state (w_cos w r)")
    case Yielding
    then have "quiet mail w (unblock_after_yield r w)"
      unfolding unblock_after_yield_def by (intro quiet_upd_co_alive) (simp_all add: alive_def)
    with Yielding assms show ?thesis
      by (auto simp: requeue_def bindR_eq_Inr Let_def intro: quiet_trans add)
  qed (use assms in \<open>auto simp: requeue_def bindR_eq_Inr intro: add\<close>)
qed

lemma after_resume_quiet:
  assumes "runtime_laws rt mail ok" and "side ok w" and "after_resume rt th c w = Inr w'"
  shows "quiet mail w w'"
proof -
  let ?r = "ctrl_rc c"
  from assms(3) obtain b w1 w2 w3 where reg: "register_all rt th ?r w = Inr (b, w1)"
    and dereg: "(if b then deregister_all rt th ?r w1 else Inr w1) = Inr w2"
    and ch: "start_children ?r w2 = Inr w3" and rest: "requeue rt ?r w3 = Inr w'"
    by (auto simp: after_resume_def bindR_eq_Inr)
  have "quiet mail w1 w2" using dereg by (auto split: if_splits dest: deregister_all_quiet [OF assms(1)])
  with register_all_quiet [OF assms(1,2) reg] start_children_quiet [OF ch] requeue_quiet [OF rest]
  show ?thesis by (blast intro: quiet_trans)
qed

lemma resume_sim:
  assumes "runtime_laws rt mail ok" and "side ok w" and "resume rt th c w = Inr w'"
  shows "sim rt mail ok w w'"
proof -
  from assms(3) obtain w1 where j: "jump_in rt th (ctrl_rc c) w = Inr w1"
    and a: "after_resume rt th (c\<lparr>was_handled := True\<rparr>) w1 = Inr w'" by (auto simp: resume_def bindR_eq_Inr)
  from jump_in_sim [OF assms(1,2) j] have s: "sim rt mail ok w w1" .
  from after_resume_quiet [OF assms(1) sim_side [OF s] a] have "sim rt mail ok w1 w'"
    by (rule sim_quiet [OF sim_side [OF s]])
  with s show ?thesis by (rule sim_trans)
qed

lemma migrate_sim:
  assumes "runtime_laws rt mail ok" and "side ok w" and "alive w (ctrl_rc c)" and "migrate rt th c to w = Inr w'"
  shows "sim rt mail ok w w'"
proof -
  from migrate_effect [OF assms] obtain h t where h: "co_handler_shared (w_cos w (ctrl_rc c)) = Some h"
    and l: "ledger_of rt mail w' = led_migrate (ctrl_rc c) h (co_the_id (w_cos w (ctrl_rc c))) (ctrl_new (ctrl_rc c)) t (ledger_of rt mail w)"
    and s: "side ok w'" by blast
  have "lstep (ledger_of rt mail w) (ledger_of rt mail w')"
    unfolding l by (rule LMigrate) (use assms(3) lg_home_alive [OF assms(3) h] in \<open>simp_all add: ctrl_new_def\<close>)
  with s show ?thesis by (auto simp: sim_def)
qed

end
