(* ===== verification/Controls.thy ===== *)
theory Controls
  imports Refinement
begin

text \<open>
  Who may resume a coroutine. A \<open>CoroutineControl\<close> is the right to resume or migrate one coroutine; the
  controls of a thread wait in the queues of its \<open>HandlerShared\<close> and of its scheduler, or travel in a
  \<open>Migration\<close>. The invariant \<open>ctl\<close> of this theory: on a thread that is not shutting down every
  coroutine that is ready has exactly one control and every other coroutine has none. So no ready
  coroutine is forgotten, none is resumed twice, and \<open>resume\<close> and \<open>migrate\<close> only meet ready coroutines.

  \<open>H\<close> is the set of coroutines whose control has been taken out of the queues by the callback that
  runs; it is empty between callbacks.
\<close>

text \<open>What of a world the invariant reads, with the states of the coroutines in \<open>R\<close> and the contexts of those in \<open>X\<close> left open.\<close>

definition cview where
  "cview R X w = (\<lambda>t. hs_spawned (w_hs w t), \<lambda>t. hs_ready (w_hs w t),
     w_sched w, w_shutting w, \<lambda>r. co_children (w_cos w r), \<lambda>r. co_handler_shared (w_cos w r),
     \<lambda>r. if r \<in> R then None else Some (co_state (w_cos w r)),
     \<lambda>r. if r \<in> X then None else Some (co_context (w_cos w r), co_func (w_cos w r)))"

lemma cviewD:
  assumes "cview R X w' = cview R X w"
  shows "hs_spawned (w_hs w' t) = hs_spawned (w_hs w t)"
    and "hs_ready (w_hs w' t) = hs_ready (w_hs w t)"
    and "w_sched w' = w_sched w" and "w_shutting w' = w_shutting w"
    and "co_children (w_cos w' r) = co_children (w_cos w r)"
    and "co_handler_shared (w_cos w' r) = co_handler_shared (w_cos w r)"
    and "r \<notin> R \<Longrightarrow> co_state (w_cos w' r) = co_state (w_cos w r)"
    and "r \<notin> X \<Longrightarrow> co_context (w_cos w' r) = co_context (w_cos w r)"
    and "r \<notin> X \<Longrightarrow> co_func (w_cos w' r) = co_func (w_cos w r)"
  using assms by (auto simp: cview_def fun_eq_iff split: if_splits)

lemma cview_mono:
  assumes "cview R X w' = cview R X w" and "R \<subseteq> R'" and "X \<subseteq> X'"
  shows "cview R' X' w' = cview R' X' w"
  using assms by (auto simp: cview_def fun_eq_iff split: if_splits)

lemma cview_more:
  fixes w w' :: "('el, 'sl, 'k, 'sg, 'sc) world"
  assumes "io_world.more w' = io_world.more w"
  shows "cview R X w' = cview R X w"
  using world_more [OF assms] by (simp add: cview_def fun_eq_iff)

lemma cview_io_updates [simp]:
  fixes w :: "('el, 'sl, 'k, 'sg, 'sc) world"
  shows "cview R X (set_env e w) = cview R X w" "cview R X (set_chan c ch w) = cview R X w"
    "cview R X (set_src s x w) = cview R X w" "cview R X (mark_blocked s n rw w) = cview R X w"
  by (rule cview_more, simp)+

lemma cview_upd_co:
  assumes "co_children (f (w_cos w r)) = co_children (w_cos w r)"
    and "co_handler_shared (f (w_cos w r)) = co_handler_shared (w_cos w r)"
    and "r \<notin> R \<Longrightarrow> co_state (f (w_cos w r)) = co_state (w_cos w r)"
    and "r \<notin> X \<Longrightarrow> co_context (f (w_cos w r)) = co_context (w_cos w r) \<and> co_func (f (w_cos w r)) = co_func (w_cos w r)"
  shows "cview R X (upd_co r f w) = cview R X w"
  using assms by (auto simp: cview_def upd_co_def fun_eq_iff)

lemma cview_upd_hs:
  assumes "hs_spawned (f (w_hs w t)) = hs_spawned (w_hs w t)" and "hs_ready (f (w_hs w t)) = hs_ready (w_hs w t)"
  shows "cview R X (upd_hs t f w) = cview R X w"
  using assms by (auto simp: cview_def upd_hs_def fun_eq_iff)

lemma cview_current [simp]: "cview R X (w\<lparr>w_current := x\<rparr>) = cview R X w"
  by (simp add: cview_def fun_eq_iff)

lemma cview_num [simp]: "cview R X (w\<lparr>w_num := x\<rparr>) = cview R X w"
  by (simp add: cview_def fun_eq_iff)

text \<open>The operations that leave the controls alone.\<close>

lemma rc_register_cview:
  fixes w w' :: "('el, 'sl, 'k, 'sg, 'sc) world"
  assumes "rc_register dbg mio th co s w = Inr (b, w')"
  shows "cview R X w' = cview R X w"
  using rc_register_view [OF assms] by (intro cview_more) (simp add: io_view_def)

lemma rc_deregister_cview:
  fixes w w' :: "('el, 'sl, 'k, 'sg, 'sc) world"
  assumes "rc_deregister dbg mio th co s w = Inr w'"
  shows "cview R X w' = cview R X w"
  using rc_deregister_view [OF assms] by (intro cview_more) (simp add: io_view_def)

lemma deregister_all_cview:
  assumes "deregister_all rt th r w = Inr w'"
  shows "cview R X w' = cview R X w"
proof -
  have "cview R X w' = cview R X (upd_co r (\<lambda>c. c\<lparr>co_blocked_on := []\<rparr>) w)"
    by (rule foldR_cong_inv [OF assms [unfolded deregister_all_def]]) (rule rc_deregister_cview)
  also have "\<dots> = cview R X w" by (rule cview_upd_co) simp_all
  finally show ?thesis .
qed

lemma unblock_cview:
  assumes "unblock rt th r event w = Inr w'"
  shows "cview {r} X w' = cview {r} X w"
  unfolding deregister_all_cview [OF assms [unfolded unblock_def]] by (rule cview_upd_co) simp_all

lemma register_one_cview:
  assumes "register_one rt th i s u = Inr v"
  shows "cview R X (snd v) = cview R X (snd u)"
  using assms by (cases u) (auto simp: register_one_def bindR_eq_Inr split: if_splits dest: rc_register_cview)

lemma register_all_cview:
  assumes "register_all rt th r w = Inr (b, w')"
  shows "cview {r} X w' = cview {r} X w"
proof -
  from assms obtain acc w1
    where l: "foldR (register_one rt th (co_the_id (w_cos w r))) (co_blocked_on (w_cos w r)) (None, w) = Inr (acc, w1)"
      and rest: "(case acc of Some event \<Rightarrow> bindR (unblock rt th r event w1) (\<lambda>w2. Inr (True, w2)) | None \<Rightarrow> Inr (False, w1)) = Inr (b, w')"
    by (auto simp: register_all_def bindR_eq_Inr)
  have "cview {r} X w1 = cview {r} X w"
    using foldR_cong_inv [OF l, of "\<lambda>u. cview {r} X (snd u)"] register_one_cview by fastforce
  with rest show ?thesis by (auto simp: bindR_eq_Inr split: option.splits dest: unblock_cview [where X = X])
qed

lemma enter_context_cview: "enter_context r w = Inr w' \<Longrightarrow> cview R X w' = cview R X w"
  by (auto simp: enter_context_def bindR_eq_Inr intro: cview_upd_hs)

lemma take_out_context_cview: "take_out_context r w = Inr w' \<Longrightarrow> cview R X w' = cview R X w"
  by (auto simp: take_out_context_def bindR_eq_Inr split: if_splits intro: cview_upd_hs)

lemma jump_out_cview: "jump_out rt r w = Inr w' \<Longrightarrow> cview R X w' = cview R X w"
  by (auto simp: jump_out_def bindR_eq_Inr Let_def dest: take_out_context_cview)

lemma push_blocked_cview: "cview R X (push_blocked r s rw w) = cview R X w"
  unfolding push_blocked_def by (subst cview_upd_co) simp_all

lemma chan_op_cview:
  fixes w w' :: "('el, 'sl, 'k, 'sg, 'sc) world"
  shows "chan_op c f w = Inr (r, w') \<Longrightarrow> cview R X w' = cview R X w"
  by (auto simp: chan_op_def bindR_eq_Inr)

lemma send_msg_cview: "send_msg rt t m w = Inr w' \<Longrightarrow> cview R X w' = cview R X w"
  by (auto simp: send_msg_def bindR_eq_Inr)

lemma broadcast_cview: "broadcast rt t m w = Inr w' \<Longrightarrow> cview R X w' = cview R X w"
  unfolding broadcast_def by (erule foldR_cong_inv) (rule send_msg_cview)

lemma alloc_channel_cview:
  assumes "alloc_channel ch w = (cs, w')"
  shows "cview R X w' = cview R X w"
proof -
  let ?w = "set_src (w_nsrc w) (RcEventSource_new (ReceiverIo (w_nchan w))) (set_chan (w_nchan w) ch w)"
  from assms have "cview R X w' = cview R X ?w" by (auto simp: alloc_channel_def Let_def cview_def)
  then show ?thesis by simp
qed

lemma new_channel_cview: "new_channel w = (cs, w') \<Longrightarrow> cview R X w' = cview R X w"
  unfolding new_channel_def by (rule alloc_channel_cview)

lemma new_source_cview:
  assumes "new_source t w = (s, w')"
  shows "cview R X w' = cview R X w"
proof -
  from assms have "cview R X w' = cview R X (set_src (w_nsrc w) (RcEventSource_new t) w)"
    by (auto simp: new_source_def Let_def cview_def)
  then show ?thesis by simp
qed

lemma timer_op_cview:
  fixes w w' :: "('el, 'sl, 'k, 'sg, 'sc) world"
  shows "timer_op s f w = Inr (r, w') \<Longrightarrow> cview R X w' = cview R X w"
  by (auto simp: timer_op_def case_prod_beta Let_def split: io.splits)

lemma do_act_cview:
  assumes "do_act rt th a w = Inr (r, w')" and "\<not> is_spawn a"
  shows "cview R X w' = cview R X w"
  using assms
  by (cases a)
    (auto simp: bindR_eq_Inr select_add_def set_userdata_def set_children_userdata_def get_userdata_def thread_num_def
      mioco_shutdown_def broadcast_shutdown_def push_blocked_cview
      split: prod.splits intro!: cview_upd_co dest: chan_op_cview broadcast_cview new_channel_cview alloc_channel_cview new_source_cview timer_op_cview)

lemma jump_out_state: "jump_out rt r w = Inr w' \<Longrightarrow> w_cos w' = w_cos w"
  by (auto simp: jump_out_def take_out_context_def bindR_eq_Inr Let_def upd_hs_def split: if_splits)

lemma switch_cview:
  assumes "w_current w th = Some co" and "do_switch rt th sw w = Inr w'"
  shows "cview {co} X w' = cview {co} X w \<and> co_state (w_cos w' co) \<in> {Blocked, Yielding}
    \<and> co_func (w_cos w' co) = co_func (w_cos w co)"
proof -
  have st: "cview {co} X (upd_co co (\<lambda>c. c\<lparr>co_state := x\<rparr>) w) = cview {co} X w" for x
    by (rule cview_upd_co) simp_all
  from assms obtain v rc where v: "v = upd_co co (\<lambda>c. c\<lparr>co_state := Yielding\<rparr>) w
      \<or> v = upd_co co (\<lambda>c. c\<lparr>co_state := Blocked\<rparr>) w \<or> (\<exists>s rw. v = Coroutine_block_on co s rw w)"
    and j: "jump_out rt rc v = Inr w'"
    by (cases sw) (auto simp: yield_now_def block_on_def select_wait_def tl_current_coroutine_def bindR_eq_Inr Let_def)
  from v have "cview {co} X v = cview {co} X w" by (auto simp: Coroutine_block_on_def push_blocked_cview st)
  moreover from v have "co_state (w_cos v co) \<in> {Blocked, Yielding}" "co_func (w_cos v co) = co_func (w_cos w co)"
    by (auto simp: Coroutine_block_on_def push_blocked_def upd_co_def)
  ultimately show ?thesis by (simp add: jump_out_cview [OF j] jump_out_state [OF j])
qed

text \<open>
  What user code can do to the controls before it switches away: only add children to its own list,
  fresh ones, ready and on its own thread.
\<close>

definition ran :: "co_ref \<Rightarrow> ('el, 'sl, 'k, 'sg, 'sc) world \<Rightarrow> ('el, 'sl, 'k, 'sg, 'sc) world \<Rightarrow> bool" where
  "ran r w w' \<longleftrightarrow>
     w_nco w \<le> w_nco w' \<and> w_sched w' = w_sched w \<and> w_shutting w' = w_shutting w
   \<and> (\<forall>t. hs_spawned (w_hs w' t) = hs_spawned (w_hs w t))
   \<and> (\<forall>t. hs_ready (w_hs w' t) = hs_ready (w_hs w t))
   \<and> co_children (w_cos w' r) = co_children (w_cos w r) @ [w_nco w..<w_nco w']
   \<and> co_handler_shared (w_cos w' r) = co_handler_shared (w_cos w r)
   \<and> (\<forall>x. x \<noteq> r \<longrightarrow> x \<notin> {w_nco w..<w_nco w'} \<longrightarrow>
        co_state (w_cos w' x) = co_state (w_cos w x) \<and> co_children (w_cos w' x) = co_children (w_cos w x)
        \<and> co_handler_shared (w_cos w' x) = co_handler_shared (w_cos w x)
        \<and> co_context (w_cos w' x) = co_context (w_cos w x) \<and> co_func (w_cos w' x) = co_func (w_cos w x))
   \<and> (\<forall>x \<in> {w_nco w..<w_nco w'}.
        co_state (w_cos w' x) = Ready \<and> co_children (w_cos w' x) = []
        \<and> co_handler_shared (w_cos w' x) = co_handler_shared (w_cos w r)
        \<and> co_context (w_cos w' x) = Some Fresh \<and> co_func (w_cos w' x) \<noteq> None)"

lemma ran_cview:
  assumes "cview {r} {r} w' = cview {r} {r} w" and "w_nco w' = w_nco w"
  shows "ran r w w'"
  using cviewD [OF assms(1)] assms(2) by (simp add: ran_def)

lemma ran_trans:
  assumes "ran r w w1" and "ran r w1 w2" and "r < w_nco w"
  shows "ran r w w2"
proof -
  have n: "w_nco w \<le> w_nco w1" "w_nco w1 \<le> w_nco w2" using assms by (simp_all add: ran_def)
  then have up: "[w_nco w..<w_nco w2] = [w_nco w..<w_nco w1] @ [w_nco w1..<w_nco w2]"
    by (metis le_Suc_ex upt_add_eq_append)
  have new: "co_state (w_cos w2 x) = Ready \<and> co_children (w_cos w2 x) = []
        \<and> co_handler_shared (w_cos w2 x) = co_handler_shared (w_cos w r)
        \<and> co_context (w_cos w2 x) = Some Fresh \<and> co_func (w_cos w2 x) \<noteq> None"
    if "x \<in> {w_nco w..<w_nco w2}" for x
  proof (cases "x < w_nco w1")
    case True
    with that assms(3) have "x \<noteq> r" "x \<notin> {w_nco w1..<w_nco w2}" "x \<in> {w_nco w..<w_nco w1}" by auto
    with assms(1,2) show ?thesis by (simp add: ran_def)
  next
    case False
    with that have "x \<in> {w_nco w1..<w_nco w2}" by auto
    with assms(1,2) show ?thesis by (simp add: ran_def)
  qed
  have old: "co_state (w_cos w2 x) = co_state (w_cos w x) \<and> co_children (w_cos w2 x) = co_children (w_cos w x)
        \<and> co_handler_shared (w_cos w2 x) = co_handler_shared (w_cos w x)
        \<and> co_context (w_cos w2 x) = co_context (w_cos w x) \<and> co_func (w_cos w2 x) = co_func (w_cos w x)"
    if "x \<noteq> r" "x \<notin> {w_nco w..<w_nco w2}" for x
  proof -
    from that n have "x \<notin> {w_nco w..<w_nco w1}" "x \<notin> {w_nco w1..<w_nco w2}" by auto
    with that(1) assms(1,2) show ?thesis by (simp add: ran_def)
  qed
  show ?thesis using assms(1,2) n up new old unfolding ran_def by (simp del: atLeastLessThan_iff)
qed

lemma spawn_ran:
  assumes "runtime_laws rt mail ok" and "side ok w" and "r < w_nco w" and "w_current w th = Some r"
    and "do_act rt th (ASpawn k) w = Inr (x, w')"
  shows "ran r w w' \<and> w_nco w' = w_nco w + 1 \<and> co_func (w_cos w' r) = co_func (w_cos w r)"
proof -
  from assms(4,5) obtain cs w1 h child w2 where n: "new_channel w = (cs, w1)"
    and h: "co_handler_shared (w_cos w1 r) = Some h"
    and sp: "Coroutine_spawn rt h (co_inherited (w_cos w1 r)) k (fst cs) w1 = Inr (child, w2)"
    and w': "w' = upd_co r (\<lambda>c. c\<lparr>co_children := co_children c @ [child]\<rparr>) w2"
    by (auto simp: mioco_spawn_def spawn_child_def tl_current_coroutine_def bindR_eq_Inr split: prod.splits)
  have q: "quiet mail w w1" by (rule new_channel_quiet [OF n])
  note v1 = cviewD [OF new_channel_cview [OF n, of "{}" "{}"]]
  have n1: "w_nco w1 = w_nco w" using q by (simp add: quiet_def)
  from sp obtain i s' where "slab_insert_with (rt_slab rt) (\<lambda>i. w_nco w1) (slab_reserve (rt_slab rt) (hs_coroutines (w_hs w1 h))) = Some (i, s')"
    by (auto simp: Coroutine_spawn_def Let_def split: option.splits)
  from spawn_effect [OF assms(1) quiet_side [OF q assms(2)] sp] have child: "child = w_nco w"
    and new: "co_state (w_cos w2 child) = Ready" "co_children (w_cos w2 child) = []" "co_handler_shared (w_cos w2 child) = Some h"
      "co_context (w_cos w2 child) = Some Fresh" "co_func (w_cos w2 child) \<noteq> None"
    by (auto simp: n1)
  from sp child have rest: "w_nco w2 = w_nco w + 1" "w_sched w2 = w_sched w1" "w_shutting w2 = w_shutting w1"
    "\<And>t. hs_spawned (w_hs w2 t) = hs_spawned (w_hs w1 t)" "\<And>t. hs_ready (w_hs w2 t) = hs_ready (w_hs w1 t)"
    "\<And>x. x \<noteq> w_nco w \<Longrightarrow> w_cos w2 x = w_cos w1 x"
    by (auto simp: Coroutine_spawn_def Let_def n1 upd_co_def upd_hs_def coroutines_inc_def split: option.splits)
  show ?thesis
    using assms(3) v1 new rest h unfolding ran_def w' child by (auto simp: upd_co_def)
qed

lemma run_seg_ran:
  assumes "runtime_laws rt mail ok"
  shows "side ok w \<Longrightarrow> r < w_nco w \<Longrightarrow> w_current w th = Some r \<Longrightarrow> alive w r \<Longrightarrow>
    run_seg rt th seg w = Inr (out, w') \<Longrightarrow>
    ran r w w' \<and> (\<forall>k. out = Paused k \<longrightarrow> co_state (w_cos w' r) \<in> {Blocked, Yielding})
    \<and> co_func (w_cos w' r) = co_func (w_cos w r)"
proof (induction seg arbitrary: w)
  case (Switch sw k)
  then have sw: "do_switch rt th sw w = Inr w'" by (auto simp: bindR_eq_Inr)
  from switch_quiet [OF Switch.prems(3,4) sw, where mail = mail] have "w_nco w' = w_nco w" by (simp add: quiet_def)
  with switch_cview [OF Switch.prems(3) sw] show ?case by (auto intro: ran_cview)
next
  case (Act a f)
  from Act.prems(5) obtain x w1 where d: "do_act rt th a w = Inr (x, w1)" and rest: "run_seg rt th (f x) w1 = Inr (out, w')"
    by (auto simp: bindR_eq_Inr)
  have r1: "ran r w w1 \<and> co_func (w_cos w1 r) = co_func (w_cos w r)"
  proof (cases "is_spawn a")
    case True
    then obtain k where "a = ASpawn k" by (cases a) simp_all
    with spawn_ran [OF assms Act.prems(1-3)] d show ?thesis by blast
  next
    case False
    from do_act_quiet [OF assms Act.prems(3,4) d False] have "w_nco w1 = w_nco w" by (simp add: quiet_def)
    with do_act_cview [OF d False] cviewD(9) [OF do_act_cview [OF d False, of "{}" "{}"]] show ?thesis by (auto intro: ran_cview)
  qed
  from do_act_sim [OF assms Act.prems(1,3,4) d] have s1: "side ok w1" and c1: "w_current w1 th = Some r" and a1: "alive w1 r"
    using Act.prems(3) by (auto dest: sim_side)
  from r1 Act.prems(2) have "r < w_nco w1" by (simp add: ran_def)
  from Act.IH [OF _ s1 this c1 a1 rest] r1 Act.prems(2) show ?case by (auto intro: ran_trans)
qed (auto simp: ran_cview)

lemma coroutines_dec_cview: "coroutines_dec rt h w = Inr w' \<Longrightarrow> cview R X w' = cview R X w"
  by (auto simp: coroutines_dec_def bindR_eq_Inr Let_def broadcast_terminate_def split: if_splits dest: broadcast_cview)

lemma report_exit_cview: "report_exit rt h ex res w = Inr w' \<Longrightarrow> cview R X w' = cview R X w"
  by (auto simp: report_exit_def bindR_eq_Inr split: sum.splits if_splits dest: chan_op_cview send_msg_cview)

lemma chan_op_cos: "chan_op c f w = Inr (r, w') \<Longrightarrow> w_cos w' = w_cos w"
  by (auto simp: chan_op_def bindR_eq_Inr set_env_def set_chan_def)

lemma send_msg_cos: "send_msg rt t m w = Inr w' \<Longrightarrow> w_cos w' = w_cos w"
  by (auto simp: send_msg_def bindR_eq_Inr set_env_def)

lemma broadcast_cos: "broadcast rt t m w = Inr w' \<Longrightarrow> w_cos w' = w_cos w"
  unfolding broadcast_def by (erule foldR_cong_inv) (rule send_msg_cos)

lemma coroutines_dec_cos: "coroutines_dec rt h w = Inr w' \<Longrightarrow> w_cos w' = w_cos w"
  by (auto simp: coroutines_dec_def bindR_eq_Inr Let_def broadcast_terminate_def split: if_splits dest: broadcast_cos)

lemma report_exit_cos: "report_exit rt h ex res w = Inr w' \<Longrightarrow> w_cos w' = w_cos w"
  by (auto simp: report_exit_def bindR_eq_Inr split: sum.splits if_splits dest: chan_op_cos send_msg_cos)

lemma finish_cview:
  assumes "w_current w th = Some co" and "finish rt th ex res w = Inr w'"
  shows "cview {co} X w' = cview {co} X w \<and> co_state (w_cos w' co) = Finished"
proof -
  let ?w1 = "upd_co co (\<lambda>c. c\<lparr>co_blocked_on := [], co_self_rc := None, co_state := Finished\<rparr>) w"
  from assms obtain h s w2 w3 where dec: "coroutines_dec rt h (upd_hs h (\<lambda>x. x\<lparr>hs_coroutines := s\<rparr>) ?w1) = Inr w2"
    and rep: "report_exit rt h ex res w2 = Inr w3"
    and drp: "\<exists>u. chan_op ex (\<lambda>ch e. bindR (Sender_drop (notify_token rt) ch e) (\<lambda>(ch', e'). Inr ((), ch', e'))) w3 = Inr (u, w')"
    by (auto simp: finish_def tl_current_coroutine_def Let_def bindR_eq_Inr upd_co_def)
  have "cview {co} X w' = cview {co} X (upd_hs h (\<lambda>x. x\<lparr>hs_coroutines := s\<rparr>) ?w1)"
    using drp coroutines_dec_cview [OF dec] report_exit_cview [OF rep] by (auto dest: chan_op_cview)
  also have "\<dots> = cview {co} X ?w1" by (rule cview_upd_hs) simp_all
  also have "\<dots> = cview {co} X w" by (rule cview_upd_co) simp_all
  finally have v: "cview {co} X w' = cview {co} X w" .
  have "w_cos w' = w_cos (upd_hs h (\<lambda>x. x\<lparr>hs_coroutines := s\<rparr>) ?w1)"
    using drp coroutines_dec_cos [OF dec] report_exit_cos [OF rep] by (auto dest: chan_op_cos)
  with v show ?thesis by (simp add: upd_hs_def upd_co_def)
qed

lemma start_segment_cview:
  assumes "start_segment rt rc ctx w = Inr (se, w')"
  shows "cview R {rc} w' = cview R {rc} w"
proof -
  from assms obtain w1 where e: "enter_context rc w = Inr w1"
    and "w' = w1 \<or> w' = upd_co rc (\<lambda>c. c\<lparr>co_func := None\<rparr>) w1"
    by (cases ctx) (auto simp: start_segment_def bindR_eq_Inr Let_def split: if_splits)
  then have "cview R {rc} w' = cview R {rc} w1" by (auto intro: cview_upd_co)
  with enter_context_cview [OF e] show ?thesis by simp
qed

text \<open>Between runs a live coroutine has a context to continue at: its start, or the switch it paused at.\<close>

definition ctx_ok :: "'k coroutine \<Rightarrow> bool" where
  "ctx_ok c \<longleftrightarrow> (co_context c = Some Fresh \<and> co_func c \<noteq> None)
     \<or> (\<exists>k ex. co_context c = Some (Suspended k ex) \<and> co_func c = None)"

lemma start_segment_func:
  assumes "start_segment rt rc ctx w = Inr (se, w')"
  shows "co_func (w_cos w' rc) = None
    \<or> (\<exists>k ex. ctx = Suspended k ex \<and> co_func (w_cos w' rc) = co_func (w_cos w rc))"
  using assms
  by (cases ctx) (auto simp: start_segment_def enter_context_def bindR_eq_Inr Let_def upd_co_def upd_hs_def split: if_splits)

lemma leave_coroutine_ran:
  assumes "runtime_laws rt mail ok" and "side ok w" and "w_current w th = Some rc" and "alive w rc"
    and "\<forall>k. out = Paused k \<longrightarrow> co_state (w_cos w rc) \<in> {Blocked, Yielding}"
    and "leave_coroutine rt th rc prev ex out w = Inr w'"
  shows "cview {rc} {rc} w' = cview {rc} {rc} w \<and> w_nco w' = w_nco w \<and> co_state (w_cos w' rc) \<noteq> Ready
    \<and> (alive w' rc \<longrightarrow> (\<exists>k. co_context (w_cos w' rc) = Some (Suspended k ex)) \<and> co_func (w_cos w' rc) = co_func (w_cos w rc))"
proof (cases out)
  case (Paused k)
  with assms(5,6) show ?thesis
    by (auto simp: leave_coroutine_def tl_current_coroutine_ptr_restore_def cview_upd_co upd_co_def cview_def fun_eq_iff)
next
  case (Ended res)
  with assms(6) obtain w1 w2 where f: "finish rt th ex res w = Inr w1" and t: "take_out_context rc w1 = Inr w2"
    and w': "w' = tl_current_coroutine_ptr_restore th prev (upd_co rc (\<lambda>c. c\<lparr>co_context := Some Exited\<rparr>) w2)"
    by (auto simp: leave_coroutine_def bindR_eq_Inr)
  from finish_effect [OF assms(1-4) f] obtain h ts
    where "ledger_of rt mail w1 = led_finish rc h (co_the_id (w_cos w rc)) ts (ledger_of rt mail w)" by blast
  from arg_cong [OF this, of lg_next] have "w_nco w1 = w_nco w" by (simp add: led_finish_def)
  moreover from t have "w_nco w2 = w_nco w1" "w_cos w2 = w_cos w1"
    by (auto simp: take_out_context_def bindR_eq_Inr upd_hs_def split: if_splits)
  moreover have "cview {rc} {rc} w' = cview {rc} {rc} w2"
    unfolding w' tl_current_coroutine_ptr_restore_def cview_current by (rule cview_upd_co) simp_all
  ultimately show ?thesis
    using finish_cview [OF assms(3) f] take_out_context_cview [OF t, of "{rc}" "{rc}"]
    by (simp add: w' tl_current_coroutine_ptr_restore_def upd_co_def alive_def)
qed

lemma jump_in_ran:
  assumes "runtime_laws rt mail ok" and "side ok w" and "r < w_nco w" and "alive w r"
    and "jump_in rt th r w = Inr w'"
  shows "ran r w w' \<and> co_state (w_cos w' r) \<noteq> Ready \<and> (ctx_ok (w_cos w r) \<longrightarrow> alive w' r \<longrightarrow> ctx_ok (w_cos w' r))"
proof -
  let ?w0 = "w\<lparr>w_current := (w_current w)(th := Some r)\<rparr>"
  from assms(5,4) obtain ctx seg ex w2 out w3 where ctx: "co_context (w_cos w r) = Some ctx" and
    st: "start_segment rt r ctx (upd_co r (\<lambda>c. c\<lparr>co_context := None\<rparr>) ?w0) = Inr ((seg, ex), w2)"
    and run: "run_seg rt th seg w2 = Inr (out, w3)"
    and fin: "leave_coroutine rt th r (w_current w th) ex out w3 = Inr w'"
    by (rule jump_in_cases)
  have "quiet mail ?w0 (upd_co r (\<lambda>c. c\<lparr>co_context := None\<rparr>) ?w0)" by (rule quiet_upd_co) simp_all
  then have q: "quiet mail ?w0 w2" using start_segment_quiet [OF st] by (rule quiet_trans)
  then have s2: "side ok w2" and c2: "w_current w2 th = Some r" and a2: "alive w2 r" and n2: "w_nco w2 = w_nco w"
    using assms(2,4) quiet_side [OF q] quiet_current [OF q] quiet_alive [OF q] by (simp_all add: quiet_def)
  have v2: "cview {r} {r} w2 = cview {r} {r} w"
    unfolding start_segment_cview [OF st] by (subst cview_upd_co) simp_all
  from start_segment_func [OF st] have f2: "ctx_ok (w_cos w r) \<longrightarrow> co_func (w_cos w2 r) = None"
    using ctx by (auto simp: upd_co_def ctx_ok_def)
  have r2: "r < w_nco w2" using assms(3) n2 by simp
  note ran3 = run_seg_ran [OF assms(1) s2 r2 c2 a2 run]
  from run_seg_sim [OF assms(1) s2 c2 a2 run] have s3: "side ok w3" and c3: "w_current w3 th = Some r" and a3: "alive w3 r"
    using c2 by (auto dest: sim_side)
  from ran3 have paused: "\<forall>k. out = Paused k \<longrightarrow> co_state (w_cos w3 r) \<in> {Blocked, Yielding}" by blast
  note l = leave_coroutine_ran [OF assms(1) s3 c3 a3 paused fin]
  from ran3 r2 have "r < w_nco w3" by (simp add: ran_def)
  with ran3 l r2 have "ran r w2 w'" by (blast intro: ran_trans ran_cview)
  with v2 n2 assms(3) have "ran r w w'" by (blast intro: ran_trans ran_cview)
  with l ran3 f2 show ?thesis by (auto simp: ctx_ok_def)
qed

text \<open>The coroutines whose controls a thread holds, and the invariant.\<close>

abbreviation spawned_rcs :: "('el, 'sl, 'k, 'sg, 'sc) world \<Rightarrow> thread_id \<Rightarrow> co_ref list" where
  "spawned_rcs w t \<equiv> map ctrl_rc (hs_spawned (w_hs w t))"

abbreviation ready_rcs :: "('el, 'sl, 'k, 'sg, 'sc) world \<Rightarrow> thread_id \<Rightarrow> co_ref list" where
  "ready_rcs w t \<equiv> map ctrl_rc (hs_ready (w_hs w t))"

abbreviation delayed_rcs :: "('el, 'sl, 'k, 'sg, 'sc) world \<Rightarrow> thread_id \<Rightarrow> co_ref list" where
  "delayed_rcs w t \<equiv> map ctrl_rc (st_held (w_sched w t))"

definition owned :: "('el, 'sl, 'k, 'sg, 'sc) world \<Rightarrow> thread_id \<Rightarrow> co_ref list" where
  "owned w t = spawned_rcs w t @ ready_rcs w t @ delayed_rcs w t"

definition ctl :: "co_ref set \<Rightarrow> ('el, 'sl, 'k, 'sg, 'sc) world \<Rightarrow> bool" where
  "ctl H w \<longleftrightarrow>
     (\<forall>t. \<not> w_shutting w t \<longrightarrow> distinct (owned w t))
   \<and> (\<forall>t r. \<not> w_shutting w t \<longrightarrow> r \<in> set (owned w t) \<longrightarrow>
        r \<notin> H \<and> co_state (w_cos w r) = Ready \<and> co_handler_shared (w_cos w r) = Some t)
   \<and> (\<forall>t r. \<not> w_shutting w t \<longrightarrow> co_state (w_cos w r) = Ready \<longrightarrow> co_handler_shared (w_cos w r) = Some t \<longrightarrow>
        r \<in> H \<or> r \<in> set (owned w t))
   \<and> (\<forall>r. alive w r \<longrightarrow> co_handler_shared (w_cos w r) = None \<longrightarrow> co_state (w_cos w r) = Ready)
   \<and> (\<forall>r. co_state (w_cos w r) \<noteq> Yielding)"

definition ctxs :: "('el, 'sl, 'k, 'sg, 'sc) world \<Rightarrow> bool" where
  "ctxs w \<longleftrightarrow> (\<forall>r. alive w r \<longrightarrow> ctx_ok (w_cos w r))"

definition childless :: "('el, 'sl, 'k, 'sg, 'sc) world \<Rightarrow> bool" where
  "childless w \<longleftrightarrow> (\<forall>r. co_children (w_cos w r) = [])"

text \<open>No control that waits was handled: \<open>resume\<close> and \<open>migrate\<close> consume theirs.\<close>

definition unspent :: "('el, 'sl, 'k, 'sg, 'sc) world \<Rightarrow> bool" where
  "unspent w \<longleftrightarrow>
     (\<forall>t. \<forall>c \<in> set (hs_spawned (w_hs w t) @ hs_ready (w_hs w t) @ st_held (w_sched w t)). \<not> was_handled c)"

lemma unspent_cview:
  assumes "cview R X w' = cview R X w"
  shows "unspent w' = unspent w"
  using cviewD [OF assms] by (simp add: unspent_def)

lemma unspent_upd_hs:
  assumes "unspent w" and "\<And>c. c \<in> set (hs_spawned (f (w_hs w t)) @ hs_ready (f (w_hs w t))) \<Longrightarrow> \<not> was_handled c"
  shows "unspent (upd_hs t f w)"
  using assms by (auto simp: unspent_def upd_hs_def)

lemma unspentD:
  "unspent w \<Longrightarrow> c \<in> set (hs_spawned (w_hs w t) @ hs_ready (w_hs w t) @ st_held (w_sched w t)) \<Longrightarrow> \<not> was_handled c"
  unfolding unspent_def by blast

lemma unspent_add_ready: "unspent w \<Longrightarrow> \<not> was_handled c \<Longrightarrow> unspent (upd_hs t (add_ready c) w)"
  by (rule unspent_upd_hs) (auto simp: add_ready_def dest: unspentD [of w _ t])

lemma unspent_set_sched:
  assumes "unspent w" and "\<And>c. c \<in> set (st_held (fst s)) \<Longrightarrow> \<not> was_handled c"
  shows "unspent (set_sched th s w)"
  unfolding unspent_def
proof (intro allI ballI)
  fix t c
  assume "c \<in> set (hs_spawned (w_hs (set_sched th s w) t) @ hs_ready (w_hs (set_sched th s w) t)
                @ st_held (w_sched (set_sched th s w) t))"
  then show "\<not> was_handled c"
    using unspentD [OF assms(1), of c t] assms(2) [of c] by (cases "t = th") (auto simp: set_sched_def)
qed

lemma unspent_upd_co [simp]: "unspent (upd_co r f w) = unspent w"
  by (simp add: unspent_def upd_co_def)

lemma ctlI:
  assumes "\<And>t. \<not> w_shutting w t \<Longrightarrow> distinct (owned w t)"
    and "\<And>t r. \<not> w_shutting w t \<Longrightarrow> r \<in> set (owned w t) \<Longrightarrow>
        r \<notin> H \<and> co_state (w_cos w r) = Ready \<and> co_handler_shared (w_cos w r) = Some t"
    and "\<And>t r. \<not> w_shutting w t \<Longrightarrow> co_state (w_cos w r) = Ready \<Longrightarrow> co_handler_shared (w_cos w r) = Some t \<Longrightarrow>
        r \<in> H \<or> r \<in> set (owned w t)"
    and "\<And>r. alive w r \<Longrightarrow> co_handler_shared (w_cos w r) = None \<Longrightarrow> co_state (w_cos w r) = Ready"
    and "\<And>r. co_state (w_cos w r) \<noteq> Yielding"
  shows "ctl H w"
  using assms unfolding ctl_def by blast

lemma ctl_distinct: "ctl H w \<Longrightarrow> \<not> w_shutting w t \<Longrightarrow> distinct (owned w t)"
  unfolding ctl_def by blast

lemma ctl_owned:
  "ctl H w \<Longrightarrow> \<not> w_shutting w t \<Longrightarrow> r \<in> set (owned w t) \<Longrightarrow>
   r \<notin> H \<and> co_state (w_cos w r) = Ready \<and> co_handler_shared (w_cos w r) = Some t"
  unfolding ctl_def by blast

lemma ctl_ready:
  "ctl H w \<Longrightarrow> \<not> w_shutting w t \<Longrightarrow> co_state (w_cos w r) = Ready \<Longrightarrow> co_handler_shared (w_cos w r) = Some t \<Longrightarrow>
   r \<in> H \<or> r \<in> set (owned w t)"
  unfolding ctl_def by blast

lemma ctl_flying:
  "ctl H w \<Longrightarrow> alive w r \<Longrightarrow> co_handler_shared (w_cos w r) = None \<Longrightarrow> co_state (w_cos w r) = Ready"
  unfolding ctl_def by blast

lemma ctl_not_yielding: "ctl H w \<Longrightarrow> co_state (w_cos w r) \<noteq> Yielding"
  unfolding ctl_def by blast

lemma alive_less:
  assumes "linv (ledger_of rt mail w)" and "alive w r"
  shows "r < w_nco w"
  using linv_count [OF assms(1)] assms(2) by (simp add: count_ok_def)

text \<open>What resuming a coroutine does to the queues: children behind the spawned, itself behind the ready.\<close>

definition resumed_as ::
  "thread_id \<Rightarrow> co_ref \<Rightarrow> co_ref list \<Rightarrow> ('el, 'sl, 'k, 'sg, 'sc) world \<Rightarrow> ('el, 'sl, 'k, 'sg, 'sc) world \<Rightarrow> bool" where
  "resumed_as th r K w w' \<longleftrightarrow>
     w_shutting w' = w_shutting w \<and> w_sched w' = w_sched w
   \<and> (\<forall>t. spawned_rcs w' t = spawned_rcs w t @ (if t = th then K else []))
   \<and> (\<forall>t. ready_rcs w' t = ready_rcs w t @ (if t = th \<and> co_state (w_cos w' r) = Ready then [r] else []))
   \<and> distinct K \<and> (\<forall>x \<in> set K. w_nco w \<le> x \<and> co_state (w_cos w' x) = Ready \<and> co_handler_shared (w_cos w' x) = Some th)
   \<and> (\<forall>x. x \<notin> set K \<longrightarrow> co_handler_shared (w_cos w' x) = co_handler_shared (w_cos w x))
   \<and> (\<forall>x. x \<notin> set K \<longrightarrow> x \<noteq> r \<longrightarrow> co_state (w_cos w' x) = co_state (w_cos w x))
   \<and> co_state (w_cos w' r) \<noteq> Yielding"

lemma distinct_interleave:
  "distinct (a @ b @ c) \<Longrightarrow> distinct (k @ q) \<Longrightarrow> set (a @ b @ c) \<inter> set (k @ q) = {} \<Longrightarrow>
   distinct ((a @ k) @ (b @ q) @ c)"
  by auto

lemma resumed_as_ctl:
  assumes "resumed_as th r K w w'" and "ctl H w" and "r \<in> H" and "r < w_nco w" and "\<not> w_shutting w th"
    and "co_handler_shared (w_cos w r) = Some th" and "\<And>x. alive w x \<Longrightarrow> x < w_nco w"
    and "\<And>x. x \<in> H \<Longrightarrow> x < w_nco w"
  shows "ctl (H - {r}) w'"
proof -
  note R = assms(1) [unfolded resumed_as_def]
  let ?q = "if co_state (w_cos w' r) = Ready then [r] else []"
  have rK: "r \<notin> set K" using R assms(4) by auto
  have own: "set (owned w' t) = set (owned w t) \<union> (if t = th then set K \<union> set ?q else {})" for t
    using R by (auto simp: owned_def)
  have shut: "w_shutting w' t = w_shutting w t" for t using R by simp
  have low: "x < w_nco w" if "x \<in> set (owned w t)" "\<not> w_shutting w t" for x t
    using ctl_owned [OF assms(2) that(2,1)] assms(7) [of x] by (simp add: alive_def)
  have notin: "x \<notin> set (owned w t)" if "x \<in> set K \<or> x = r" "\<not> w_shutting w t" for x t
  proof
    assume own: "x \<in> set (owned w t)"
    from ctl_owned [OF assms(2) that(2) own] assms(3) have "x \<noteq> r" by blast
    with that(1) R have "w_nco w \<le> x" by blast
    with low [OF own that(2)] show False by simp
  qed
  have st: "co_state (w_cos w' x) = co_state (w_cos w x)" "co_handler_shared (w_cos w' x) = co_handler_shared (w_cos w x)"
    if "x \<notin> set K" "x \<noteq> r" for x using that R by auto
  have hr: "co_handler_shared (w_cos w' r) = Some th" using R rK assms(6) by simp
  have inK: "co_state (w_cos w' x) = Ready" "co_handler_shared (w_cos w' x) = Some th" if "x \<in> set K" for x
    using that R by auto
  show ?thesis
  proof (rule ctlI)
    fix t
    assume ns: "\<not> w_shutting w' t"
    have d: "distinct (owned w t)" using ctl_distinct [OF assms(2)] ns shut by simp
    show "distinct (owned w' t)"
    proof (cases "t = th")
      case True
      have "set (owned w th) \<inter> (set K \<union> {r}) = {}" using notin [of _ th] assms(5) by blast
      then have "set (owned w th) \<inter> set (K @ ?q) = {}" by auto
      moreover have "distinct (K @ ?q)" using R rK by auto
      moreover have "owned w' th = (spawned_rcs w th @ K) @ (ready_rcs w th @ ?q) @ delayed_rcs w th"
        using R by (simp add: owned_def)
      ultimately show ?thesis using d True by (metis distinct_interleave owned_def)
    next
      case False
      with d R show ?thesis by (simp add: owned_def)
    qed
  next
    fix t x
    assume ns: "\<not> w_shutting w' t" and "x \<in> set (owned w' t)"
    then consider "x \<in> set (owned w t)" | "t = th" "x \<in> set K" | "t = th" "x = r" "co_state (w_cos w' r) = Ready"
      by (auto simp: own split: if_splits)
    then show "x \<notin> H - {r} \<and> co_state (w_cos w' x) = Ready \<and> co_handler_shared (w_cos w' x) = Some t"
    proof cases
      case 1
      then have "x \<notin> set K" "x \<noteq> r" using notin ns shut by auto
      with ctl_owned [OF assms(2) _ 1] ns shut st show ?thesis by simp
    next
      case 2
      with R assms(8) have "x \<notin> H" by fastforce
      with 2 inK show ?thesis by simp
    next
      case 3
      then show ?thesis using hr by simp
    qed
  next
    fix t x
    assume ns: "\<not> w_shutting w' t" and s: "co_state (w_cos w' x) = Ready" and h: "co_handler_shared (w_cos w' x) = Some t"
    show "x \<in> H - {r} \<or> x \<in> set (owned w' t)"
      using ns s h inK [of x] hr st [of x] ctl_ready [OF assms(2), of t x] shut own [of t]
      by (cases "x \<in> set K"; cases "x = r") auto
  next
    fix x
    assume "alive w' x" "co_handler_shared (w_cos w' x) = None"
    then show "co_state (w_cos w' x) = Ready"
      using inK [of x] hr st [of x] ctl_flying [OF assms(2), of x] by (cases "x \<in> set K"; cases "x = r") (auto simp: alive_def)
  next
    fix x
    show "co_state (w_cos w' x) \<noteq> Yielding"
      using inK [of x] st [of x] ctl_not_yielding [OF assms(2), of x] R by (cases "x \<in> set K"; cases "x = r") auto
  qed
qed

lemma requeue_shape:
  assumes "requeue rt r w = Inr w'" and "co_handler_shared (w_cos w r) = Some th"
  shows "w_shutting w' = w_shutting w \<and> w_sched w' = w_sched w \<and> w_nco w' = w_nco w
    \<and> (\<forall>t. spawned_rcs w' t = spawned_rcs w t)
    \<and> (\<forall>t. ready_rcs w' t = ready_rcs w t @ (if t = th \<and> co_state (w_cos w' r) = Ready then [r] else []))
    \<and> (\<forall>x. co_handler_shared (w_cos w' x) = co_handler_shared (w_cos w x) \<and> co_children (w_cos w' x) = co_children (w_cos w x)
         \<and> co_context (w_cos w' x) = co_context (w_cos w x) \<and> co_func (w_cos w' x) = co_func (w_cos w x))
    \<and> (\<forall>x. x \<noteq> r \<longrightarrow> co_state (w_cos w' x) = co_state (w_cos w x))
    \<and> co_state (w_cos w' r) \<noteq> Yielding"
  using assms
  by (cases "co_state (w_cos w r)")
    (auto simp: requeue_def unblock_after_yield_def bindR_eq_Inr Let_def upd_co_def upd_hs_def add_ready_def
      ctrl_new_def set_is_yielding_def)

lemma spawned_fold_add:
  "map ctrl_rc (hs_spawned (fold (\<lambda>child. add_spawned (ctrl_new child)) cs h)) = map ctrl_rc (hs_spawned h) @ cs
   \<and> hs_ready (fold (\<lambda>child. add_spawned (ctrl_new child)) cs h) = hs_ready h"
  by (induction cs arbitrary: h) (auto simp: add_spawned_def ctrl_new_def)

lemma start_children_shape:
  assumes "start_children r w = Inr w'" and "co_handler_shared (w_cos w r) = Some th"
  shows "w_shutting w' = w_shutting w \<and> w_sched w' = w_sched w \<and> w_nco w' = w_nco w
    \<and> (\<forall>t. spawned_rcs w' t = spawned_rcs w t @ (if t = th then co_children (w_cos w r) else []))
    \<and> (\<forall>t. ready_rcs w' t = ready_rcs w t)
    \<and> (\<forall>x. co_handler_shared (w_cos w' x) = co_handler_shared (w_cos w x) \<and> co_state (w_cos w' x) = co_state (w_cos w x)
         \<and> co_context (w_cos w' x) = co_context (w_cos w x) \<and> co_func (w_cos w' x) = co_func (w_cos w x))
    \<and> (\<forall>x. co_children (w_cos w' x) = (if x = r then [] else co_children (w_cos w x)))"
  using assms by (auto simp: start_children_def bindR_eq_Inr upd_co_def upd_hs_def spawned_fold_add)

lemma after_resume_shape:
  assumes "after_resume rt th c w = Inr w'" and "co_handler_shared (w_cos w (ctrl_rc c)) = Some h"
  shows "w_shutting w' = w_shutting w \<and> w_sched w' = w_sched w
    \<and> (\<forall>t. spawned_rcs w' t = spawned_rcs w t @ (if t = h then co_children (w_cos w (ctrl_rc c)) else []))
    \<and> (\<forall>t. ready_rcs w' t = ready_rcs w t @ (if t = h \<and> co_state (w_cos w' (ctrl_rc c)) = Ready then [ctrl_rc c] else []))
    \<and> (\<forall>x. co_handler_shared (w_cos w' x) = co_handler_shared (w_cos w x)
         \<and> co_context (w_cos w' x) = co_context (w_cos w x) \<and> co_func (w_cos w' x) = co_func (w_cos w x))
    \<and> (\<forall>x. co_children (w_cos w' x) = (if x = ctrl_rc c then [] else co_children (w_cos w x)))
    \<and> (\<forall>x. x \<noteq> ctrl_rc c \<longrightarrow> co_state (w_cos w' x) = co_state (w_cos w x))
    \<and> co_state (w_cos w' (ctrl_rc c)) \<noteq> Yielding"
proof -
  let ?r = "ctrl_rc c"
  from assms(1) obtain b w1 w2 w3 where reg: "register_all rt th ?r w = Inr (b, w1)"
    and dereg: "(if b then deregister_all rt th ?r w1 else Inr w1) = Inr w2"
    and ch: "start_children ?r w2 = Inr w3" and rq: "requeue rt ?r w3 = Inr w'"
    by (auto simp: after_resume_def bindR_eq_Inr)
  have "cview {?r} {} w2 = cview {?r} {} w1" using dereg by (auto split: if_splits dest: deregister_all_cview)
  with register_all_cview [OF reg] have "cview {?r} {} w2 = cview {?r} {} w" by simp
  note v2 = cviewD [OF this]
  from v2(6) assms(2) have h2: "co_handler_shared (w_cos w2 ?r) = Some h" by simp
  note s3 = start_children_shape [OF ch h2]
  from s3 h2 have h3: "co_handler_shared (w_cos w3 ?r) = Some h" by simp
  note s4 = requeue_shape [OF rq h3]
  show ?thesis using v2 s3 s4 by simp
qed

lemma after_resume_alive:
  assumes "runtime_laws rt mail ok" and "side ok w" and "after_resume rt th c w = Inr w'"
  shows "alive w' x = alive w x"
  by (rule quiet_alive [OF after_resume_quiet [OF assms]])

text \<open>Resuming a coroutine from a control in hand keeps the invariant; the control is spent.\<close>

lemma resume_shape:
  assumes "runtime_laws rt mail ok" and "side ok w" and "linv (ledger_of rt mail w)" and "childless w"
    and "alive w (ctrl_rc c)" and "co_handler_shared (w_cos w (ctrl_rc c)) = Some th" and "resume rt th c w = Inr w'"
    and "ctxs w"
  shows "\<exists>K. resumed_as th (ctrl_rc c) K w w' \<and> childless w' \<and> ctxs w'"
proof -
  let ?r = "ctrl_rc c"
  from assms(7) obtain w1 where j: "jump_in rt th ?r w = Inr w1"
    and a: "after_resume rt th (c\<lparr>was_handled := True\<rparr>) w1 = Inr w'" by (auto simp: resume_def bindR_eq_Inr)
  have rn: "?r < w_nco w" by (rule alive_less [OF assms(3,5)])
  from jump_in_ran [OF assms(1,2) rn assms(5) j] have R: "ran ?r w w1"
    and cr: "alive w1 ?r \<longrightarrow> ctx_ok (w_cos w1 ?r)" using assms(5,8) by (auto simp: ctxs_def)
  let ?K = "[w_nco w..<w_nco w1]"
  have s1: "side ok w1" by (rule sim_side [OF jump_in_sim [OF assms(1,2) j]])
  from R assms(6) have h: "co_handler_shared (w_cos w1 ?r) = Some th" by (simp add: ran_def)
  with after_resume_shape [OF a] have S: "w_shutting w' = w_shutting w1 \<and> w_sched w' = w_sched w1
    \<and> (\<forall>t. spawned_rcs w' t = spawned_rcs w1 t @ (if t = th then co_children (w_cos w1 ?r) else []))
    \<and> (\<forall>t. ready_rcs w' t = ready_rcs w1 t @ (if t = th \<and> co_state (w_cos w' ?r) = Ready then [?r] else []))
    \<and> (\<forall>x. co_handler_shared (w_cos w' x) = co_handler_shared (w_cos w1 x)
         \<and> co_context (w_cos w' x) = co_context (w_cos w1 x) \<and> co_func (w_cos w' x) = co_func (w_cos w1 x))
    \<and> (\<forall>x. co_children (w_cos w' x) = (if x = ?r then [] else co_children (w_cos w1 x)))
    \<and> (\<forall>x. x \<noteq> ?r \<longrightarrow> co_state (w_cos w' x) = co_state (w_cos w1 x))
    \<and> co_state (w_cos w' ?r) \<noteq> Yielding" by simp
  have ch: "co_children (w_cos w1 ?r) = ?K" using R assms(4) by (simp add: ran_def childless_def)
  have new: "x \<noteq> ?r" "co_state (w_cos w1 x) = Ready" "co_children (w_cos w1 x) = []"
      "co_handler_shared (w_cos w1 x) = Some th" "ctx_ok (w_cos w1 x)" if "x \<in> set ?K" for x
    using that R rn assms(6) unfolding ran_def ctx_ok_def by auto
  have old: "co_state (w_cos w1 x) = co_state (w_cos w x)" "co_children (w_cos w1 x) = []"
      "co_handler_shared (w_cos w1 x) = co_handler_shared (w_cos w x)" "alive w1 x \<Longrightarrow> ctx_ok (w_cos w1 x)"
      if "x \<noteq> ?r" "x \<notin> set ?K" for x
    using that R assms(4,8) unfolding ran_def childless_def ctxs_def ctx_ok_def alive_def by auto
  have "childless w'"
    unfolding childless_def using S new(3) old(2) by metis
  moreover have "ctxs w'"
    unfolding ctxs_def
  proof (intro allI impI)
    fix x assume x: "alive w' x"
    have fin: "co_state (w_cos w1 ?r) = Finished \<Longrightarrow> co_state (w_cos w' ?r) = Finished"
      using after_resume_alive [OF assms(1) _ a, of ?r] s1 by (auto simp: alive_def)
    have "ctx_ok (w_cos w1 x)"
    proof (cases "x = ?r")
      case True
      with x fin cr show ?thesis by (auto simp: alive_def)
    next
      case False
      with x S have "alive w1 x" by (simp add: alive_def)
      with False new(5) old(4) show ?thesis by (cases "x \<in> set ?K") auto
    qed
    with S show "ctx_ok (w_cos w' x)" by (simp add: ctx_ok_def)
  qed
  moreover have "resumed_as th ?r ?K w w'"
    unfolding resumed_as_def
  proof (intro conjI allI ballI impI)
    fix x assume "x \<notin> set ?K"
    then show "co_handler_shared (w_cos w' x) = co_handler_shared (w_cos w x)"
      using S old(3) [of x] h assms(6) by (cases "x = ?r") auto
  next
    fix x assume x: "x \<in> set ?K"
    show "w_nco w \<le> x" using x by simp
    show "co_state (w_cos w' x) = Ready" "co_handler_shared (w_cos w' x) = Some th"
      using S new [OF x] by simp_all
  qed (use S R ch old in \<open>simp_all add: ran_def del: set_upt\<close>)
  ultimately show ?thesis by blast
qed

lemma start_children_unspent:
  assumes "start_children r w = Inr w'" and "unspent w"
  shows "unspent w'"
proof -
  have F: "set (hs_spawned (fold (\<lambda>child. add_spawned (ctrl_new child)) cs h)) = set (hs_spawned h) \<union> ctrl_new ` set cs"
    for cs and h :: "'sl handler_shared"
    by (induction cs arbitrary: h) (auto simp: add_spawned_def)
  from assms(1) obtain th where w': "w' = upd_hs th (\<lambda>h. fold (\<lambda>child. add_spawned (ctrl_new child)) (co_children (w_cos w r)) h)
      (upd_co r (\<lambda>c. c\<lparr>co_children := []\<rparr>) w)"
    by (auto simp: start_children_def bindR_eq_Inr)
  have "w_hs (upd_co r (\<lambda>c. c\<lparr>co_children := []\<rparr>) w) = w_hs w" by (simp add: upd_co_def)
  moreover have "\<not> was_handled (ctrl_new x)" for x by (simp add: ctrl_new_def)
  ultimately show ?thesis
    unfolding w' using assms(2)
    by (intro unspent_upd_hs) (auto simp: F spawned_fold_add, auto simp: unspent_def)
qed

lemma requeue_unspent: "requeue rt r w = Inr w' \<Longrightarrow> unspent w \<Longrightarrow> unspent w'"
  by (auto simp: requeue_def unblock_after_yield_def bindR_eq_Inr Let_def ctrl_new_def set_is_yielding_def
      split: if_splits intro: unspent_add_ready)

lemma after_resume_unspent:
  assumes "after_resume rt th c w = Inr w'" and "unspent w"
  shows "unspent w'"
proof -
  let ?r = "ctrl_rc c"
  from assms(1) obtain b w1 w2 w3 where reg: "register_all rt th ?r w = Inr (b, w1)"
    and dereg: "(if b then deregister_all rt th ?r w1 else Inr w1) = Inr w2"
    and ch: "start_children ?r w2 = Inr w3" and rq: "requeue rt ?r w3 = Inr w'"
    by (auto simp: after_resume_def bindR_eq_Inr)
  have "cview {?r} {} w2 = cview {?r} {} w1" using dereg by (auto split: if_splits dest: deregister_all_cview)
  with register_all_cview [OF reg] have "cview {?r} {} w2 = cview {?r} {} w" by simp
  with assms(2) have "unspent w2" using unspent_cview by blast
  from requeue_unspent [OF rq start_children_unspent [OF ch this]] show ?thesis .
qed

lemma resume_unspent:
  assumes "runtime_laws rt mail ok" and "side ok w" and "alive w (ctrl_rc c)" and "ctrl_rc c < w_nco w"
    and "resume rt th c w = Inr w'" and "unspent w"
  shows "unspent w'"
proof -
  from assms(5) obtain w1 where j: "jump_in rt th (ctrl_rc c) w = Inr w1"
    and a: "after_resume rt th (c\<lparr>was_handled := True\<rparr>) w1 = Inr w'" by (auto simp: resume_def bindR_eq_Inr)
  from jump_in_ran [OF assms(1,2,4,3) j] have "unspent w1" using assms(6) by (simp add: ran_def unspent_def)
  with after_resume_unspent [OF a] show ?thesis by blast
qed

end
