(* ===== verification/Callbacks.thy ===== *)
theory Callbacks
  imports Controls
begin

text \<open>
  The invariant of a whole instance and that every callback of the event loop keeps it: \<open>inst\<close> joins
  the ledger invariant, the control invariant and the rule that a thread which is shutting down
  has no live coroutine left. Then the step relation \<open>istep\<close> of an instance, in which mio's callbacks
  on the threads, messages taken from mailboxes and activity outside mioco interleave.
\<close>

text \<open>The ledgers that the abstract specification reaches from a given one that satisfies its invariant.\<close>

definition lfrom :: "ledger \<Rightarrow> ledger \<Rightarrow> bool" where
  "lfrom L0 L \<longleftrightarrow> linv L0 \<and> lstep\<^sup>*\<^sup>* L0 L"

lemma lfrom_linv: "lfrom L0 L \<Longrightarrow> linv L"
  by (auto simp: lfrom_def dest: linv_lsteps)

lemma lfrom_steps: "lfrom L0 L \<Longrightarrow> lstep\<^sup>*\<^sup>* L L' \<Longrightarrow> lfrom L0 L'"
  by (auto simp: lfrom_def intro: rtranclp_trans)

lemma lfrom_step: "lfrom L0 L \<Longrightarrow> lstep L L' \<Longrightarrow> lfrom L0 L'"
  by (auto simp: lfrom_def intro: rtranclp.rtrancl_into_rtrancl)

lemma lfrom_refl: "linv L \<Longrightarrow> lfrom L L"
  by (simp add: lfrom_def)

definition quenched :: "('el, 'sl, 'k, 'sg, 'sc) world \<Rightarrow> bool" where
  "quenched w \<longleftrightarrow> (\<forall>t r. w_shutting w t \<longrightarrow> co_handler_shared (w_cos w r) = Some t \<longrightarrow> \<not> alive w r)"

definition hand :: "thread_id \<Rightarrow> co_ref set \<Rightarrow> ('el, 'sl, 'k, 'sg, 'sc) world \<Rightarrow> bool" where
  "hand th H w \<longleftrightarrow> \<not> w_shutting w th
     \<and> (\<forall>x \<in> H. co_state (w_cos w x) = Ready \<and> co_handler_shared (w_cos w x) = Some th)"

definition inst ::
  "ledger \<Rightarrow> ('el, 'sl, 'k, 'sg, 'sc) rt \<Rightarrow> ('el \<Rightarrow> thread_id \<Rightarrow> Message list) \<Rightarrow> ('sl \<Rightarrow> bool) \<Rightarrow> co_ref set \<Rightarrow>
   ('el, 'sl, 'k, 'sg, 'sc) world \<Rightarrow> bool" where
  "inst L0 rt mail ok H w \<longleftrightarrow>
     side ok w \<and> lfrom L0 (ledger_of rt mail w) \<and> ctl H w \<and> childless w \<and> quenched w \<and> ctxs w \<and> unspent w"

lemma instD:
  assumes "inst L0 rt mail ok H w"
  shows "side ok w" and "linv (ledger_of rt mail w)" and "ctl H w" and "childless w" and "quenched w"
    and "ctxs w" and "lfrom L0 (ledger_of rt mail w)" and "unspent w"
  using assms lfrom_linv by (auto simp: inst_def)

lemma hand_alive: "hand th H w \<Longrightarrow> x \<in> H \<Longrightarrow> alive w x"
  by (auto simp: hand_def alive_def)

lemma resume_inst:
  assumes "runtime_laws rt mail ok" and "inst L0 rt mail ok H w" and "hand th H w" and "ctrl_rc c \<in> H"
    and "resume rt th c w = Inr w'"
  shows "inst L0 rt mail ok (H - {ctrl_rc c}) w' \<and> hand th (H - {ctrl_rc c}) w' \<and> w_sched w' = w_sched w"
proof -
  let ?r = "ctrl_rc c"
  note I = instD [OF assms(2)]
  have a: "alive w ?r" by (rule hand_alive [OF assms(3,4)])
  have h: "co_handler_shared (w_cos w ?r) = Some th" and ns: "\<not> w_shutting w th"
    using assms(3,4) by (auto simp: hand_def)
  have less: "x < w_nco w" if "alive w x" for x by (rule alive_less [OF I(2) that])
  have Hless: "x < w_nco w" if "x \<in> H" for x by (rule less [OF hand_alive [OF assms(3) that]])
  from resume_shape [OF assms(1) I(1,2,4) a h assms(5) I(6)] obtain K
    where R: "resumed_as th ?r K w w'" and ch: "childless w'" "ctxs w'" by blast
  from resumed_as_ctl [OF R I(3) assms(4) less [OF a] ns h less Hless] have c: "ctl (H - {?r}) w'" .
  from resume_sim [OF assms(1) I(1) assms(5)] have s: "side ok w'"
    and l: "lstep\<^sup>*\<^sup>* (ledger_of rt mail w) (ledger_of rt mail w')" by (auto simp: sim_def)
  note R' = R [unfolded resumed_as_def]
  have "unspent w'" by (rule resume_unspent [OF assms(1) I(1) a less [OF a] assms(5) I(8)])
  moreover have "quenched w'"
    unfolding quenched_def
  proof (intro allI impI)
    fix t x
    assume t: "w_shutting w' t" and x: "co_handler_shared (w_cos w' x) = Some t"
    from t R' have t': "w_shutting w t" by simp
    with ns have "t \<noteq> th" by auto
    with x R' have nk: "x \<notin> set K" by auto
    with x R' h \<open>t \<noteq> th\<close> have "x \<noteq> ?r" by auto
    with nk R' x t' I(5) show "\<not> alive w' x" by (simp add: quenched_def alive_def)
  qed
  moreover have "hand th (H - {?r}) w'"
    unfolding hand_def
  proof (intro conjI ballI)
    show "\<not> w_shutting w' th" using R' ns by simp
    fix x assume x: "x \<in> H - {?r}"
    then have "x \<notin> set K" using R' Hless [of x] by fastforce
    with x R' assms(3) show "co_state (w_cos w' x) = Ready" "co_handler_shared (w_cos w' x) = Some th"
      by (simp_all add: hand_def)
  qed
  ultimately show ?thesis using s lfrom_steps [OF I(7) l] c ch R' by (simp add: inst_def)
qed

text \<open>Migrating a coroutine moves its control from the hand into a mailbox.\<close>

lemma migrate_shape:
  assumes "migrate rt th c to w = Inr w'"
  shows "w_shutting w' = w_shutting w \<and> w_sched w' = w_sched w
    \<and> (\<forall>t. hs_spawned (w_hs w' t) = hs_spawned (w_hs w t)) \<and> (\<forall>t. hs_ready (w_hs w' t) = hs_ready (w_hs w t))
    \<and> (\<forall>x. co_children (w_cos w' x) = co_children (w_cos w x) \<and> co_state (w_cos w' x) = co_state (w_cos w x)
         \<and> co_context (w_cos w' x) = co_context (w_cos w x) \<and> co_func (w_cos w' x) = co_func (w_cos w x))
    \<and> (\<forall>x. co_handler_shared (w_cos w' x) = (if x = ctrl_rc c then None else co_handler_shared (w_cos w x)))"
proof -
  let ?r = "ctrl_rc c"
  from assms obtain w1 h s t where d: "deregister_all rt th ?r w = Inr w1"
    and snd: "send_msg rt t (Migration (ctrl_new ?r))
       (upd_hs h (\<lambda>x. x\<lparr>hs_coroutines := s\<rparr>) (upd_co ?r (\<lambda>c. c\<lparr>co_handler_shared := None\<rparr>) w1)) = Inr w'"
    by (auto simp: migrate_def detach_from_def bindR_eq_Inr Let_def upd_co_def upd_hs_def)
  note v1 = cviewD [OF deregister_all_cview [OF d, of "{}" "{}"]]
  let ?w2 = "upd_co ?r (\<lambda>c. c\<lparr>co_handler_shared := None\<rparr>) w1"
  have "cview {} {} w' = cview {} {} ?w2"
    using send_msg_cview [OF snd, of "{}" "{}"] cview_upd_hs [of "\<lambda>x. x\<lparr>hs_coroutines := s\<rparr>" ?w2 h "{}" "{}"] by simp
  note v2 = cviewD [OF this]
  show ?thesis using v1 v2 by (auto simp: upd_co_def)
qed

lemma migrate_inst:
  assumes "runtime_laws rt mail ok" and "inst L0 rt mail ok H w" and "hand th H w" and "ctrl_rc c \<in> H"
    and "migrate rt th c to w = Inr w'"
  shows "inst L0 rt mail ok (H - {ctrl_rc c}) w' \<and> hand th (H - {ctrl_rc c}) w' \<and> w_sched w' = w_sched w"
proof -
  let ?r = "ctrl_rc c"
  note I = instD [OF assms(2)]
  have a: "alive w ?r" by (rule hand_alive [OF assms(3,4)])
  note M = migrate_shape [OF assms(5)]
  from migrate_sim [OF assms(1) I(1) a assms(5)] have s: "side ok w'"
    and l: "lstep\<^sup>*\<^sup>* (ledger_of rt mail w) (ledger_of rt mail w')" by (auto simp: sim_def)
  have own: "owned w' t = owned w t" for t using M by (simp add: owned_def)
  have al: "alive w' x = alive w x" for x using M by (simp add: alive_def)
  have st: "co_state (w_cos w' x) = co_state (w_cos w x)" for x using M by simp
  have hs: "co_handler_shared (w_cos w' x) = (if x = ?r then None else co_handler_shared (w_cos w x))" for x using M by simp
  have sh: "w_shutting w' = w_shutting w" using M by simp
  have "ctl (H - {?r}) w'"
  proof (rule ctlI)
    show "distinct (owned w' t)" if "\<not> w_shutting w' t" for t
      using that ctl_distinct [OF I(3)] by (simp add: own sh)
    show "x \<notin> H - {?r} \<and> co_state (w_cos w' x) = Ready \<and> co_handler_shared (w_cos w' x) = Some t"
      if "\<not> w_shutting w' t" "x \<in> set (owned w' t)" for t x
    proof -
      from that have "x \<notin> H \<and> co_state (w_cos w x) = Ready \<and> co_handler_shared (w_cos w x) = Some t"
        using ctl_owned [OF I(3)] by (simp add: own sh)
      moreover from this assms(4) have "x \<noteq> ?r" by auto
      ultimately show ?thesis by (simp add: st hs)
    qed
    show "x \<in> H - {?r} \<or> x \<in> set (owned w' t)"
      if "\<not> w_shutting w' t" "co_state (w_cos w' x) = Ready" "co_handler_shared (w_cos w' x) = Some t" for t x
      using that ctl_ready [OF I(3), of t x] by (auto simp: own sh st hs split: if_splits)
    show "co_state (w_cos w' x) = Ready" if "alive w' x" "co_handler_shared (w_cos w' x) = None" for x
      using that ctl_flying [OF I(3), of x] assms(3,4) by (auto simp: al st hs hand_def split: if_splits)
    show "co_state (w_cos w' x) \<noteq> Yielding" for x using ctl_not_yielding [OF I(3)] by (simp add: st)
  qed
  moreover have "quenched w'" using I(5) by (simp add: quenched_def al hs sh)
  moreover have "hand th (H - {?r}) w'" using assms(3) by (simp add: hand_def st hs sh)
  moreover have "childless w'" "ctxs w'" "unspent w'"
    using I(4,6,8) M by (simp_all add: childless_def ctxs_def ctx_ok_def unspent_def al)
  ultimately show ?thesis using s lfrom_steps [OF I(7) l] M by (simp add: inst_def)
qed

text \<open>
  Unwinding. User code that is told to unwind runs its destructors and ends; what the theorems about
  shutting down need of it is that it neither switches away nor spawns on the way. This is the
  documented behaviour of a Rust panic that nobody catches.
\<close>

primrec unwinding :: "'k seg \<Rightarrow> bool" where
  "unwinding (Ret r) = True"
| "unwinding (Unwind p) = True"
| "unwinding (Switch sw k) = False"
| "unwinding (Act a f) = (\<not> is_spawn a \<and> (\<forall>r. unwinding (f r)))"

definition code_unwinds :: "('el, 'sl, 'k, 'sg, 'sc) rt \<Rightarrow> bool" where
  "code_unwinds rt \<longleftrightarrow> (\<forall>k. unwinding (rt_code rt k WakeKilled))"

lemma unwinding_run:
  assumes "runtime_laws rt mail ok"
  shows "unwinding seg \<Longrightarrow> w_current w th = Some r \<Longrightarrow> alive w r \<Longrightarrow> run_seg rt th seg w = Inr (out, w') \<Longrightarrow>
    quiet mail w w' \<and> cview {} {} w' = cview {} {} w \<and> (\<exists>res. out = Ended res)"
proof (induction seg arbitrary: w)
  case (Act a f)
  from Act.prems(4) obtain x w1 where d: "do_act rt th a w = Inr (x, w1)" and rest: "run_seg rt th (f x) w1 = Inr (out, w')"
    by (auto simp: bindR_eq_Inr)
  from Act.prems(1) have ns: "\<not> is_spawn a" "unwinding (f x)" by simp_all
  from do_act_quiet [OF assms Act.prems(2,3) d ns(1)] have q: "quiet mail w w1" .
  from Act.IH [OF _ ns(2) _ _ rest] Act.prems(2,3) q do_act_cview [OF d ns(1), of "{}" "{}"] show ?case
    by (auto simp: quiet_current quiet_alive intro: quiet_trans)
qed auto

lemma kill_effect:
  assumes "runtime_laws rt mail ok" and "code_unwinds rt" and "side ok w" and "alive w (ctrl_rc c)"
    and "ctx_ok (w_cos w (ctrl_rc c))" and "kill rt th c w = Inr w'"
  shows "cview {ctrl_rc c} {ctrl_rc c} w' = cview {ctrl_rc c} {ctrl_rc c} w \<and> \<not> alive w' (ctrl_rc c)
    \<and> (\<exists>h ts. co_handler_shared (w_cos w (ctrl_rc c)) = Some h
         \<and> ledger_of rt mail w' = led_finish (ctrl_rc c) h (co_the_id (w_cos w (ctrl_rc c))) ts (ledger_of rt mail w))
    \<and> side ok w'"
proof -
  let ?r = "ctrl_rc c"
  let ?w1 = "upd_co ?r (\<lambda>c. c\<lparr>co_killed := True\<rparr>) w"
  let ?w2 = "upd_co ?r (\<lambda>c. c\<lparr>co_context := None\<rparr>) (?w1\<lparr>w_current := (w_current ?w1)(th := Some ?r)\<rparr>)"
  have q1: "quiet mail w ?w1" by (rule quiet_upd_co) simp_all
  have a1: "alive ?w1 ?r" using assms(4) quiet_alive [OF q1] by simp
  from assms(6) have "jump_in rt th ?r ?w1 = Inr w'" by (simp add: kill_def)
  from this a1 obtain ctx seg ex w3 out w4 where ctx: "co_context (w_cos ?w1 ?r) = Some ctx"
    and st: "start_segment rt ?r ctx ?w2 = Inr ((seg, ex), w3)"
    and run: "run_seg rt th seg w3 = Inr (out, w4)"
    and fin: "leave_coroutine rt th ?r (w_current ?w1 th) ex out w4 = Inr w'"
    by (rule jump_in_cases)
  have "\<exists>k. seg = rt_code rt k WakeKilled"
    using st ctx assms(5)
    by (cases ctx) (auto simp: start_segment_def enter_context_def bindR_eq_Inr Let_def upd_co_def upd_hs_def
        was_running_before_def ctx_ok_def split: if_splits, metis)
  with assms(2) have un: "unwinding seg" by (auto simp: code_unwinds_def)
  let ?w1c = "?w1\<lparr>w_current := (w_current ?w1)(th := Some ?r)\<rparr>"
  have "quiet mail ?w1c ?w2" by (rule quiet_upd_co) simp_all
  then have q3: "quiet mail ?w1c w3" using start_segment_quiet [OF st] by (rule quiet_trans)
  have c3: "w_current w3 th = Some ?r" and a3: "alive w3 ?r"
    using quiet_current [OF q3] quiet_alive [OF q3] a1 by simp_all
  from unwinding_run [OF assms(1) un c3 a3 run] obtain res where q4: "quiet mail w3 w4"
    and v4: "cview {} {} w4 = cview {} {} w3" and out: "out = Ended res" by blast
  from out fin obtain w5 w6 where f: "finish rt th ex res w4 = Inr w5" and t: "take_out_context ?r w5 = Inr w6"
    and w': "w' = tl_current_coroutine_ptr_restore th (w_current ?w1 th) (upd_co ?r (\<lambda>c. c\<lparr>co_context := Some Exited\<rparr>) w6)"
    by (auto simp: leave_coroutine_def bindR_eq_Inr)
  have c4: "w_current w4 th = Some ?r" and a4: "alive w4 ?r" using quiet_current [OF q4] quiet_alive [OF q4] c3 a3 by simp_all
  have q14: "quiet mail ?w1c w4" by (rule quiet_trans [OF q3 q4])
  have s4: "side ok w4" using quiet_side [OF q14] quiet_side [OF q1 assms(3)] by simp
  have l4: "ledger_of rt mail w4 = ledger_of rt mail w"
    using quiet_ledger [OF q14] quiet_ledger [OF q1, of rt] by simp
  have id4: "co_the_id (w_cos w4 ?r) = co_the_id (w_cos w ?r)" "co_handler_shared (w_cos w4 ?r) = co_handler_shared (w_cos w ?r)"
    using q14 a1 by (simp_all add: quiet_def upd_co_def)
  let ?w7 = "upd_co ?r (\<lambda>c. c\<lparr>co_context := Some Exited\<rparr>) w6"
  have q57: "quiet mail w5 ?w7"
    by (rule quiet_trans [OF take_out_context_quiet [OF t] quiet_upd_co]) simp_all
  have v: "cview {?r} {?r} w' = cview {?r} {?r} w"
  proof -
    have "cview {?r} {?r} w' = cview {?r} {?r} w6"
      unfolding w' tl_current_coroutine_ptr_restore_def cview_current by (rule cview_upd_co) simp_all
    also have "\<dots> = cview {?r} {?r} w5" by (rule take_out_context_cview [OF t])
    also have "\<dots> = cview {?r} {?r} w4" using finish_cview [OF c4 f] by blast
    also have "\<dots> = cview {?r} {?r} w3" by (rule cview_mono [OF v4]) simp_all
    also have "\<dots> = cview {?r} {?r} ?w2" by (rule start_segment_cview [OF st])
    also have "\<dots> = cview {?r} {?r} ?w1c" by (rule cview_upd_co) simp_all
    also have "\<dots> = cview {?r} {?r} w" unfolding cview_current by (rule cview_upd_co) simp_all
    finally show ?thesis .
  qed
  from finish_effect [OF assms(1) s4 c4 a4 f] obtain h ts where h: "co_handler_shared (w_cos w ?r) = Some h"
    and l5: "ledger_of rt mail w5 = led_finish ?r h (co_the_id (w_cos w ?r)) ts (ledger_of rt mail w)" and s5: "side ok w5"
    by (auto simp: id4 l4)
  have "ledger_of rt mail w' = ledger_of rt mail w5" "side ok w'" "\<not> alive w' ?r"
    using quiet_ledger [OF q57, of rt] quiet_side [OF q57 s5] quiet_alive [OF q57, of ?r] finish_cview [OF c4 f]
    by (simp_all add: w' tl_current_coroutine_ptr_restore_def alive_def)
  with v h l5 show ?thesis by auto
qed

text \<open>Dropping a control that was not handled kills its coroutine; the control is spent.\<close>

lemma drop_inst:
  assumes "runtime_laws rt mail ok" and "code_unwinds rt" and "inst L0 rt mail ok H w" and "hand th H w" and "ctrl_rc c \<in> H"
    and "\<not> was_handled c" and "ctrl_drop rt th c w = Inr w'"
  shows "inst L0 rt mail ok (H - {ctrl_rc c}) w' \<and> hand th (H - {ctrl_rc c}) w' \<and> w_sched w' = w_sched w"
proof -
  let ?r = "ctrl_rc c"
  note I = instD [OF assms(3)]
  have a: "alive w ?r" by (rule hand_alive [OF assms(4,5)])
  have h: "co_handler_shared (w_cos w ?r) = Some th" using assms(4,5) by (auto simp: hand_def)
  have k: "kill rt th c w = Inr w'" using assms(6,7) by (simp add: ctrl_drop_def)
  have "ctx_ok (w_cos w ?r)" using I(6) a by (simp add: ctxs_def)
  from kill_effect [OF assms(1,2) I(1) a this k] h obtain ts
    where v: "cview {?r} {?r} w' = cview {?r} {?r} w" and d: "\<not> alive w' ?r" and s: "side ok w'"
      and l: "ledger_of rt mail w' = led_finish ?r th (co_the_id (w_cos w ?r)) ts (ledger_of rt mail w)" by auto
  note V = cviewD [OF v]
  have own: "owned w' t = owned w t" for t using V by (simp add: owned_def)
  have st: "co_state (w_cos w' x) = (if x = ?r then Finished else co_state (w_cos w x))" for x
    using V(7) [of x] d by (auto simp: alive_def)
  have al: "alive w' x = (x \<noteq> ?r \<and> alive w x)" for x by (simp add: alive_def st)
  have "ctl (H - {?r}) w'"
  proof (rule ctlI)
    show "distinct (owned w' t)" if "\<not> w_shutting w' t" for t
      using that ctl_distinct [OF I(3)] by (simp add: own V)
    show "x \<notin> H - {?r} \<and> co_state (w_cos w' x) = Ready \<and> co_handler_shared (w_cos w' x) = Some t"
      if "\<not> w_shutting w' t" "x \<in> set (owned w' t)" for t x
    proof -
      from that ctl_owned [OF I(3), of t x] have "x \<notin> H \<and> co_state (w_cos w x) = Ready \<and> co_handler_shared (w_cos w x) = Some t"
        by (simp add: own V)
      moreover from this assms(5) have "x \<noteq> ?r" by auto
      ultimately show ?thesis by (simp add: st V)
    qed
    show "x \<in> H - {?r} \<or> x \<in> set (owned w' t)"
      if "\<not> w_shutting w' t" "co_state (w_cos w' x) = Ready" "co_handler_shared (w_cos w' x) = Some t" for t x
      using that ctl_ready [OF I(3), of t x] by (auto simp: own V st split: if_splits)
    show "co_state (w_cos w' x) = Ready" if "alive w' x" "co_handler_shared (w_cos w' x) = None" for x
      using that ctl_flying [OF I(3), of x] by (simp add: al st V)
    show "co_state (w_cos w' x) \<noteq> Yielding" for x using ctl_not_yielding [OF I(3), of x] by (simp add: st)
  qed
  moreover have "lfrom L0 (ledger_of rt mail w')"
    unfolding l by (rule lfrom_step [OF I(7) LFinish]) (use a lg_home_alive [OF a h] in simp_all)
  moreover have "childless w'" "unspent w'" "quenched w'"
    using I(4,5,8) by (simp_all add: childless_def quenched_def unspent_def al V)
  moreover have "ctxs w'" unfolding ctxs_def
  proof (intro allI impI)
    fix x assume "alive w' x"
    then have "x \<noteq> ?r" "alive w x" by (simp_all add: al)
    with I(6) V(8,9) [of x] show "ctx_ok (w_cos w' x)" by (simp add: ctxs_def ctx_ok_def)
  qed
  moreover have "hand th (H - {?r}) w'" using assms(4) by (simp add: hand_def st V)
  ultimately show ?thesis using s V(3) by (simp add: inst_def)
qed

lemma do_action_inst:
  assumes "runtime_laws rt mail ok" and "code_unwinds rt" and "inst L0 rt mail ok H w" and "hand th H w"
    and "ctrl_rc (action_ctrl a) \<in> H" and "\<not> was_handled (action_ctrl a)" and "do_action rt th a w = Inr w'"
  shows "inst L0 rt mail ok (H - {ctrl_rc (action_ctrl a)}) w' \<and> hand th (H - {ctrl_rc (action_ctrl a)}) w'
    \<and> w_sched w' = w_sched w"
  using assms by (cases a) (simp_all add: resume_inst migrate_inst drop_inst)

lemma do_actions_inst:
  assumes "runtime_laws rt mail ok" and "code_unwinds rt"
  shows "inst L0 rt mail ok H w \<Longrightarrow> hand th H w \<Longrightarrow> distinct (map (ctrl_rc \<circ> action_ctrl) as) \<Longrightarrow>
    set (map (ctrl_rc \<circ> action_ctrl) as) = H \<Longrightarrow> \<forall>a \<in> set as. \<not> was_handled (action_ctrl a) \<Longrightarrow>
    foldR (do_action rt th) as w = Inr w' \<Longrightarrow>
    inst L0 rt mail ok {} w' \<and> hand th {} w' \<and> w_sched w' = w_sched w"
proof (induction as arbitrary: H w)
  case (Cons a as)
  from Cons.prems(6) obtain w1 where d: "do_action rt th a w = Inr w1" and r: "foldR (do_action rt th) as w1 = Inr w'"
    by (auto simp: bindR_eq_Inr)
  have "ctrl_rc (action_ctrl a) \<in> H" "\<not> was_handled (action_ctrl a)" using Cons.prems(4,5) by auto
  note D = do_action_inst [OF assms Cons.prems(1,2) this d]
  have "H = insert (ctrl_rc (action_ctrl a)) (set (map (ctrl_rc \<circ> action_ctrl) as))"
    and "ctrl_rc (action_ctrl a) \<notin> set (map (ctrl_rc \<circ> action_ctrl) as)" using Cons.prems(3,4) by auto
  then have "set (map (ctrl_rc \<circ> action_ctrl) as) = H - {ctrl_rc (action_ctrl a)}" by (metis Diff_insert_absorb)
  from Cons.IH [OF _ _ _ this _ r] D Cons.prems(3,5) show ?case by auto
qed simp

text \<open>Moving controls between the queues of a thread and the hand.\<close>

lemma shuffle_ctl:
  assumes "ctl H w" and "hand th H w" and "w_cos w1 = w_cos w" and "w_shutting w1 = w_shutting w"
    and "\<And>t. t \<noteq> th \<Longrightarrow> owned w1 t = owned w t" and "distinct (owned w1 th)"
    and "set (owned w1 th) \<inter> H1 = {}" and "set (owned w1 th) \<union> H1 = set (owned w th) \<union> H"
  shows "ctl H1 w1 \<and> hand th H1 w1"
proof -
  have ns: "\<not> w_shutting w th" using assms(2) by (simp add: hand_def)
  have here: "co_state (w_cos w x) = Ready \<and> co_handler_shared (w_cos w x) = Some th"
    if "x \<in> set (owned w th) \<union> H" for x
    using that assms(2) ctl_owned [OF assms(1) ns, of x] by (auto simp: hand_def)
  have "hand th H1 w1" unfolding hand_def using ns assms(3,4,8) here by auto
  moreover have "ctl H1 w1"
  proof (rule ctlI)
    show "distinct (owned w1 t)" if "\<not> w_shutting w1 t" for t
      using that assms(4-6) ctl_distinct [OF assms(1), of t] by (cases "t = th") auto
    show "x \<notin> H1 \<and> co_state (w_cos w1 x) = Ready \<and> co_handler_shared (w_cos w1 x) = Some t"
      if t: "\<not> w_shutting w1 t" "x \<in> set (owned w1 t)" for t x
    proof (cases "t = th")
      case True
      with t assms(3,7,8) here [of x] show ?thesis by auto
    next
      case False
      with t assms(3-5) have x: "co_state (w_cos w x) = Ready \<and> co_handler_shared (w_cos w x) = Some t"
        using ctl_owned [OF assms(1), of t x] by simp
      with False here [of x] assms(3,8) show ?thesis by auto
    qed
    show "x \<in> H1 \<or> x \<in> set (owned w1 t)"
      if "\<not> w_shutting w1 t" "co_state (w_cos w1 x) = Ready" "co_handler_shared (w_cos w1 x) = Some t" for t x
    proof -
      from that assms(3,4) have x: "x \<in> H \<or> x \<in> set (owned w t)" using ctl_ready [OF assms(1), of t x] by simp
      show ?thesis
      proof (cases "t = th")
        case True
        with x assms(8) show ?thesis by auto
      next
        case False
        with that(3) assms(3) here [of x] have "x \<notin> H" by auto
        with x False assms(5) show ?thesis by simp
      qed
    qed
    show "co_state (w_cos w1 x) = Ready" if "alive w1 x" "co_handler_shared (w_cos w1 x) = None" for x
      using that ctl_flying [OF assms(1), of x] assms(3) by (simp add: alive_def)
    show "co_state (w_cos w1 x) \<noteq> Yielding" for x using ctl_not_yielding [OF assms(1)] assms(3) by simp
  qed
  ultimately show ?thesis by blast
qed

text \<open>A shuffle of the queues of one thread changes nothing else the invariant reads.\<close>

definition same_but_queues :: "('el, 'sl, 'k, 'sg, 'sc) world \<Rightarrow> ('el, 'sl, 'k, 'sg, 'sc) world \<Rightarrow> bool" where
  "same_but_queues w w1 \<longleftrightarrow> w_cos w1 = w_cos w \<and> w_shutting w1 = w_shutting w \<and> w_nco w1 = w_nco w
     \<and> w_num w1 = w_num w \<and> w_env w1 = w_env w \<and> w_current w1 = w_current w
     \<and> (\<forall>t. hs_coroutines (w_hs w1 t) = hs_coroutines (w_hs w t))"

lemma same_but_queues_quiet: "same_but_queues w w1 \<Longrightarrow> quiet mail w w1"
  by (simp add: same_but_queues_def quiet_def alive_def)

lemma shuffle_inst:
  assumes "inst L0 rt mail ok H w" and "hand th H w" and "same_but_queues w w1"
    and "\<And>t. t \<noteq> th \<Longrightarrow> owned w1 t = owned w t" and "distinct (owned w1 th)"
    and "set (owned w1 th) \<inter> H1 = {}" and "set (owned w1 th) \<union> H1 = set (owned w th) \<union> H" and "unspent w1"
  shows "inst L0 rt mail ok H1 w1 \<and> hand th H1 w1"
proof -
  note I = instD [OF assms(1)]
  have w1: "w_cos w1 = w_cos w" "w_shutting w1 = w_shutting w" using assms(3) by (simp_all add: same_but_queues_def)
  from shuffle_ctl [OF I(3) assms(2) w1 assms(4-7)] have "ctl H1 w1" "hand th H1 w1" by auto
  moreover have "side ok w1" "ledger_of rt mail w1 = ledger_of rt mail w"
    using quiet_side [OF same_but_queues_quiet [OF assms(3)] I(1)] quiet_ledger [OF same_but_queues_quiet [OF assms(3)]] by auto
  moreover have "childless w1" "quenched w1" "ctxs w1"
    using I(4-6) w1 by (simp_all add: childless_def quenched_def ctxs_def alive_def)
  ultimately show ?thesis using I(7) assms(8) by (simp add: inst_def)
qed

lemma inst_distinct: "inst L0 rt mail ok H w \<Longrightarrow> hand th H w \<Longrightarrow> distinct (owned w th) \<and> set (owned w th) \<inter> H = {}"
  using ctl_distinct [of H w th] ctl_owned [of H w th] by (auto simp: inst_def hand_def)

lemma shuffle_mset_inst:
  assumes "inst L0 rt mail ok (set hs) w" and "hand th (set hs) w" and "distinct hs" and "same_but_queues w w1"
    and "\<And>t. t \<noteq> th \<Longrightarrow> owned w1 t = owned w t"
    and "mset (owned w1 th) + mset hs1 = mset (owned w th) + mset hs" and "unspent w1"
  shows "inst L0 rt mail ok (set hs1) w1 \<and> hand th (set hs1) w1 \<and> distinct hs1"
proof -
  have "distinct (owned w th @ hs)" using inst_distinct [OF assms(1,2)] assms(3) by simp
  moreover have m: "mset (owned w1 th @ hs1) = mset (owned w th @ hs)" using assms(6) by simp
  ultimately have "distinct (owned w1 th @ hs1)" using mset_eq_imp_distinct_iff by blast
  moreover from m have "set (owned w1 th @ hs1) = set (owned w th @ hs)" by (rule mset_eq_setD)
  ultimately show ?thesis using shuffle_inst [OF assms(1,2,4,5) _ _ _ assms(7), of "set hs1"] by auto
qed

lemma pop_spawned_inst:
  assumes "inst L0 rt mail ok {} w" and "hand th {} w" and "hs_spawned (w_hs w th) = c # cs"
  shows "inst L0 rt mail ok {ctrl_rc c} (upd_hs th (\<lambda>h. h\<lparr>hs_spawned := cs\<rparr>) w)
    \<and> hand th {ctrl_rc c} (upd_hs th (\<lambda>h. h\<lparr>hs_spawned := cs\<rparr>) w) \<and> \<not> was_handled c"
proof -
  have u: "\<not> was_handled x" if "x \<in> set (c # cs @ hs_spawned (w_hs w th) @ hs_ready (w_hs w th))" for x
    using unspentD [OF instD(8) [OF assms(1)], of x th] assms(3) that by auto
  have "unspent (upd_hs th (\<lambda>h. h\<lparr>hs_spawned := cs\<rparr>) w)"
    by (rule unspent_upd_hs [OF instD(8) [OF assms(1)]]) (use u in auto)
  with shuffle_mset_inst [of L0 rt mail ok "[]" w th "upd_hs th (\<lambda>h. h\<lparr>hs_spawned := cs\<rparr>) w" "[ctrl_rc c]"] assms u [of c]
  show ?thesis by (simp add: owned_def upd_hs_def same_but_queues_def)
qed

lemma pop_ready_inst:
  assumes "inst L0 rt mail ok {} w" and "hand th {} w" and "hs_ready (w_hs w th) = c # cs"
  shows "inst L0 rt mail ok {ctrl_rc c} (upd_hs th (\<lambda>h. h\<lparr>hs_ready := cs\<rparr>) w)
    \<and> hand th {ctrl_rc c} (upd_hs th (\<lambda>h. h\<lparr>hs_ready := cs\<rparr>) w) \<and> \<not> was_handled c"
proof -
  have u: "\<not> was_handled x" if "x \<in> set (c # cs @ hs_spawned (w_hs w th) @ hs_ready (w_hs w th))" for x
    using unspentD [OF instD(8) [OF assms(1)], of x th] assms(3) that by auto
  have "unspent (upd_hs th (\<lambda>h. h\<lparr>hs_ready := cs\<rparr>) w)"
    by (rule unspent_upd_hs [OF instD(8) [OF assms(1)]]) (use u in auto)
  with shuffle_mset_inst [of L0 rt mail ok "[]" w th "upd_hs th (\<lambda>h. h\<lparr>hs_ready := cs\<rparr>) w" "[ctrl_rc c]"] assms u [of c]
  show ?thesis by (simp add: owned_def upd_hs_def same_but_queues_def)
qed

text \<open>
  The scheduler acts on, or keeps, exactly the controls it is given: the law of \<open>scheduler_thread\<close>,
  here for a callback on the controls in hand.
\<close>

lemma callback_inst:
  assumes "runtime_laws rt mail ok" and "code_unwinds rt" and "inst L0 rt mail ok (set (map ctrl_rc cs)) w"
    and "hand th (set (map ctrl_rc cs)) w" and "distinct (map ctrl_rc cs)" and "\<forall>c \<in> set cs. \<not> was_handled c"
    and "callback (userdata_of w) (w_sched w th, w_sched_shared w) = (as, s)"
    and "mset (map action_ctrl as) + mset (st_held (fst s)) = mset cs + mset (st_held (w_sched w th))"
    and "do_actions rt th callback w = Inr w'"
  shows "inst L0 rt mail ok {} w' \<and> hand th {} w' \<and> w_sched w' th = fst s"
proof -
  let ?w1 = "set_sched th s w" and ?hs1 = "map (ctrl_rc \<circ> action_ctrl) as"
  have "image_mset ctrl_rc (mset (map action_ctrl as) + mset (st_held (fst s)))
      = image_mset ctrl_rc (mset cs + mset (st_held (w_sched w th)))" by (simp only: assms(8))
  then have m: "mset ?hs1 + mset (map ctrl_rc (st_held (fst s))) = mset (map ctrl_rc cs) + mset (delayed_rcs w th)"
    by (simp add: image_mset.compositionality)
  have "set (map action_ctrl as) \<union> set (st_held (fst s)) = set cs \<union> set (st_held (w_sched w th))"
    using arg_cong [OF assms(8), of set_mset] by simp
  with assms(6) instD(8) [OF assms(3)] have nh: "\<not> was_handled c" if "c \<in> set (map action_ctrl as) \<union> set (st_held (fst s))" for c
    using that by (auto simp: unspent_def)
  have "unspent ?w1" by (rule unspent_set_sched [OF instD(8) [OF assms(3)]]) (simp add: nh)
  moreover have "mset (owned ?w1 th) + mset ?hs1 = mset (owned w th) + mset (map ctrl_rc cs)"
  proof -
    have "mset (owned ?w1 th) + mset ?hs1
        = mset (spawned_rcs w th @ ready_rcs w th) + (mset ?hs1 + mset (map ctrl_rc (st_held (fst s))))"
      by (simp add: owned_def set_sched_def ac_simps)
    also have "\<dots> = mset (owned w th) + mset (map ctrl_rc cs)"
      unfolding m by (simp add: owned_def ac_simps)
    finally show ?thesis .
  qed
  ultimately have "inst L0 rt mail ok (set ?hs1) ?w1 \<and> hand th (set ?hs1) ?w1 \<and> distinct ?hs1"
    by (intro shuffle_mset_inst [OF assms(3,4,5)]) (simp_all add: same_but_queues_def set_sched_def owned_def)
  moreover from assms(7,9) have "foldR (do_action rt th) as ?w1 = Inr w'" by (simp add: do_actions_def)
  moreover have "\<forall>a \<in> set as. \<not> was_handled (action_ctrl a)" using nh by simp
  ultimately show ?thesis using do_actions_inst [OF assms(1,2), of L0 "set ?hs1" ?w1 th as w'] by (auto simp: set_sched_def)
qed

lemma scheduler_spawned_inst:
  assumes "runtime_laws rt mail ok" and "code_unwinds rt" and "inst L0 rt mail ok {ctrl_rc c} w" and "hand th {ctrl_rc c} w"
    and "\<not> was_handled c" and "scheduler_spawned rt th c w = Inr w'"
  shows "inst L0 rt mail ok {} w' \<and> hand th {} w'"
proof -
  let ?cb = "sch_spawned (rt_sched rt) (userdata_of w) c (w_sched w th, w_sched_shared w)"
  have "mset (map action_ctrl (fst ?cb)) + mset (st_held (fst (snd ?cb))) = mset [c] + mset (st_held (w_sched w th))"
    using scheduler_thread.spawned_keeps [OF sched_lawsD(1) [OF runtime_lawsD(4) [OF assms(1)]], of "userdata_of w" c] by simp
  from callback_inst [where callback = "\<lambda>ud. sch_spawned (rt_sched rt) ud c" and cs = "[c]", OF assms(1,2) _ _ _ _ surjective_pairing [of ?cb] this] assms(3-6) show ?thesis
    by (simp add: scheduler_spawned_def)
qed

lemma scheduler_ready_inst:
  assumes "runtime_laws rt mail ok" and "code_unwinds rt" and "inst L0 rt mail ok {ctrl_rc c} w" and "hand th {ctrl_rc c} w"
    and "\<not> was_handled c" and "scheduler_ready rt th c w = Inr w'"
  shows "inst L0 rt mail ok {} w' \<and> hand th {} w'"
proof -
  let ?cb = "sch_ready (rt_sched rt) (userdata_of w) c (w_sched w th, w_sched_shared w)"
  have "mset (map action_ctrl (fst ?cb)) + mset (st_held (fst (snd ?cb))) = mset [c] + mset (st_held (w_sched w th))"
    using scheduler_thread.ready_keeps [OF sched_lawsD(1) [OF runtime_lawsD(4) [OF assms(1)]], of "userdata_of w" c] by simp
  from callback_inst [where callback = "\<lambda>ud. sch_ready (rt_sched rt) ud c" and cs = "[c]", OF assms(1,2) _ _ _ _ surjective_pairing [of ?cb] this] assms(3-6) show ?thesis
    by (simp add: scheduler_ready_def)
qed

lemma scheduler_tick_inst:
  assumes "runtime_laws rt mail ok" and "code_unwinds rt" and "inst L0 rt mail ok {} w" and "hand th {} w"
    and "scheduler_tick rt th w = Inr w'"
  shows "inst L0 rt mail ok {} w' \<and> hand th {} w'"
proof -
  let ?cb = "sch_tick (rt_sched rt) (userdata_of w) (w_sched w th, w_sched_shared w)"
  have "mset (map action_ctrl (fst ?cb)) + mset (st_held (fst (snd ?cb))) = mset [] + mset (st_held (w_sched w th))"
    using scheduler_thread.tick_keeps [OF sched_lawsD(1) [OF runtime_lawsD(4) [OF assms(1)]], of "userdata_of w"] by simp
  from callback_inst [where callback = "sch_tick (rt_sched rt)" and cs = "[]", OF assms(1,2) _ _ _ _ surjective_pairing [of ?cb] this] assms(3-5) show ?thesis
    by (simp add: scheduler_tick_def)
qed

text \<open>The delivery loop.\<close>

lemma deliver_round_inst:
  assumes "runtime_laws rt mail ok" and "code_unwinds rt" and "inst L0 rt mail ok {} w" and "hand th {} w"
    and "deliver_round rt th w = Inl (Inr w') \<or> deliver_round rt th w = Inr w'"
  shows "inst L0 rt mail ok {} w' \<and> hand th {} w'"
proof -
  from assms(5) obtain b1 b2 w1 where
    1: "(case hs_spawned (w_hs w th) of c # cs \<Rightarrow>
           bindR (scheduler_spawned rt th c (upd_hs th (\<lambda>h. h\<lparr>hs_spawned := cs\<rparr>) w)) (\<lambda>w1. Inr (False, w1))
         | [] \<Rightarrow> Inr (True, w)) = Inr (b1, w1)" and
    2: "(case hs_ready (w_hs w1 th) of c # cs \<Rightarrow>
           bindR (scheduler_ready rt th c (upd_hs th (\<lambda>h. h\<lparr>hs_ready := cs\<rparr>) w1)) (\<lambda>w2. Inr (False, w2))
         | [] \<Rightarrow> Inr (True, w1)) = Inr (b2, w')"
    by (auto simp: deliver_round_def Let_def split: sum.splits if_splits)
  from 1 have "inst L0 rt mail ok {} w1 \<and> hand th {} w1"
    using assms(3,4) pop_spawned_inst [OF assms(3,4)]
    by (auto simp: bindR_eq_Inr split: list.splits dest: scheduler_spawned_inst [OF assms(1,2)])
  with 2 pop_ready_inst [of L0 rt mail ok w1 th] show ?thesis
    by (auto simp: bindR_eq_Inr split: list.splits dest: scheduler_ready_inst [OF assms(1,2)])
qed

lemma deliver_inst:
  assumes "runtime_laws rt mail ok" and "code_unwinds rt" and "inst L0 rt mail ok {} w" and "hand th {} w"
    and "deliver_to_scheduler rt th w = Some (Inr w')"
  shows "inst L0 rt mail ok {} w' \<and> hand th {} w'"
proof -
  have "\<exists>u. (inst L0 rt mail ok {} u \<and> hand th {} u) \<and> deliver_round rt th u = Inl (Inr w')"
    by (rule rust_loop_inv [OF assms(5) [unfolded deliver_to_scheduler_def]])
      (use assms(3,4) deliver_round_inst [OF assms(1,2)] in blast)+
  then show ?thesis using deliver_round_inst [OF assms(1,2)] by blast
qed

text \<open>Steps that change neither the ledger nor the controls.\<close>

lemma inst_same:
  assumes "inst L0 rt mail ok H w" and "quiet mail w w'" and "cview {} {} w' = cview {} {} w"
  shows "inst L0 rt mail ok H w'"
proof -
  note I = instD [OF assms(1)] and V = cviewD [OF assms(3)]
  have own: "owned w' t = owned w t" for t using V by (simp add: owned_def)
  have al: "alive w' x = alive w x" for x by (rule quiet_alive [OF assms(2)])
  have "ctl H w'" using I(3) unfolding ctl_def by (simp add: own al V)
  moreover have "childless w'" "quenched w'" "ctxs w'" "unspent w'"
    using I(4-6,8) by (simp_all add: childless_def quenched_def ctxs_def ctx_ok_def unspent_def al V)
  ultimately show ?thesis
    using quiet_side [OF assms(2) I(1)] quiet_ledger [OF assms(2)] I(7) by (simp add: inst_def)
qed

lemma inst_env:
  assumes "inst L0 rt mail ok H w" and "lmail mail e = lmail mail (w_env w)"
  shows "inst L0 rt mail ok H (set_env e w)"
  by (rule inst_same [OF assms(1)]) (use assms(2) in \<open>auto intro: quiet_io\<close>)

lemma hand_empty: "hand th {} w \<longleftrightarrow> \<not> w_shutting w th"
  by (simp add: hand_def)

lemma bindO_eq_Inr: "bindO m f = Some (Inr y) \<longleftrightarrow> (\<exists>x. m = Some (Inr x) \<and> f x = Some (Inr y))"
proof (cases m)
  case (Some r)
  then show ?thesis by (cases r) auto
qed simp

lemma set_sched_inst:
  assumes "inst L0 rt mail ok H w" and "hand th H w" and "st_held (fst s) = st_held (w_sched w th)"
  shows "inst L0 rt mail ok H (set_sched th s w)"
proof -
  have own: "owned (set_sched th s w) t = owned w t" for t using assms(3) by (simp add: owned_def set_sched_def)
  have "unspent (set_sched th s w)" using instD(8) [OF assms(1)] assms(3) by (simp add: unspent_def set_sched_def)
  moreover have "same_but_queues w (set_sched th s w)" by (simp add: same_but_queues_def set_sched_def)
  ultimately show ?thesis using inst_distinct [OF assms(1,2)] shuffle_inst [OF assms(1,2), of "set_sched th s w" H] own by simp
qed

lemma Handler_tick_inst:
  assumes "runtime_laws rt mail ok" and "code_unwinds rt" and "inst L0 rt mail ok {} w" and "Handler_tick rt th w = Some (Inr w')"
  shows "inst L0 rt mail ok {} w'"
proof (cases "w_shutting w th")
  case True
  with assms(3,4) show ?thesis by (simp add: Handler_tick_def)
next
  case False
  with assms(4) obtain w1 w2 where t: "scheduler_tick rt th w = Inr w1"
    and d: "deliver_to_scheduler rt th w1 = Some (Inr w2)"
    by (auto simp: Handler_tick_def bindO_eq_Inr)
  have "hand th {} w" using False by (simp add: hand_empty)
  with scheduler_tick_inst [OF assms(1,2,3) _ t] deliver_inst [OF assms(1,2) _ _ d]
  have I: "inst L0 rt mail ok {} w2" "hand th {} w2" by blast+
  obtain tmo s where ts: "sch_timeout (rt_sched rt) (w_sched w2 th, w_sched_shared w2) = (tmo, s)" by (rule prod.exhaust)
  have "st_held (fst s) = st_held (w_sched w2 th)"
    using sched_lawsD(3) [OF runtime_lawsD(4) [OF assms(1)], of "(w_sched w2 th, w_sched_shared w2)"] by (simp add: ts)
  note I3 = set_sched_inst [OF I this]
  show ?thesis
  proof (cases tmo)
    case None
    with I3 False t d ts assms(4) show ?thesis by (simp add: Handler_tick_def)
  next
    case (Some timeout)
    with False t d ts assms(4) obtain token
      where w': "w' = set_env (snd (mio_timeout_ms (rt_mio rt) th token timeout (w_env (set_sched th s w2)))) (set_sched th s w2)"
      by (auto simp: Handler_tick_def bindR_eq_Inr case_prod_beta Let_def split: option.splits)
    show ?thesis
      unfolding w' by (rule inst_env [OF I3 lmail_mail]) (rule mio_laws_frame(4) [OF runtime_lawsD(1) [OF assms(1)]])
  qed
qed

text \<open>An event makes a blocked coroutine ready and puts its new control in hand.\<close>

lemma wake_inst:
  assumes "inst L0 rt mail ok {} w" and "alive w r" and "co_state (w_cos w r) = Blocked"
    and "co_handler_shared (w_cos w r) = Some th" and "\<not> w_shutting w th"
    and "quiet mail w w'" and "cview {r} {} w' = cview {r} {} w" and "co_state (w_cos w' r) = Ready"
  shows "inst L0 rt mail ok {r} w' \<and> hand th {r} w'"
proof -
  note I = instD [OF assms(1)] and V = cviewD [OF assms(7)]
  have own: "owned w' t = owned w t" for t using V by (simp add: owned_def)
  have al: "alive w' x = alive w x" for x by (rule quiet_alive [OF assms(6)])
  have st: "co_state (w_cos w' x) = (if x = r then Ready else co_state (w_cos w x))" for x
    using V(7) [of x] assms(8) by simp
  have "ctl {r} w'"
  proof (rule ctlI)
    show "distinct (owned w' t)" if "\<not> w_shutting w' t" for t
      using that ctl_distinct [OF I(3)] by (simp add: own V)
    show "x \<notin> {r} \<and> co_state (w_cos w' x) = Ready \<and> co_handler_shared (w_cos w' x) = Some t"
      if "\<not> w_shutting w' t" "x \<in> set (owned w' t)" for t x
    proof -
      from that ctl_owned [OF I(3), of t x] have x: "co_state (w_cos w x) = Ready" "co_handler_shared (w_cos w x) = Some t"
        by (simp_all add: own V)
      with assms(3) show ?thesis by (auto simp: st V)
    qed
    show "x \<in> {r} \<or> x \<in> set (owned w' t)"
      if "\<not> w_shutting w' t" "co_state (w_cos w' x) = Ready" "co_handler_shared (w_cos w' x) = Some t" for t x
      using that ctl_ready [OF I(3), of t x] by (auto simp: own V st split: if_splits)
    show "co_state (w_cos w' x) = Ready" if "alive w' x" "co_handler_shared (w_cos w' x) = None" for x
      using that ctl_flying [OF I(3), of x] by (simp add: al st V)
    show "co_state (w_cos w' x) \<noteq> Yielding" for x using ctl_not_yielding [OF I(3), of x] by (simp add: st)
  qed
  moreover have "childless w'" "quenched w'" "ctxs w'" "unspent w'"
    using I(4-6,8) by (simp_all add: childless_def quenched_def ctxs_def ctx_ok_def unspent_def al V)
  moreover have "hand th {r} w'" using assms(4,5,8) by (simp add: hand_def V)
  ultimately show ?thesis
    using quiet_side [OF assms(6) I(1)] quiet_ledger [OF assms(6)] I(7) by (simp add: inst_def)
qed

lemma unblock_ready: "unblock rt th r event w = Inr w' \<Longrightarrow> co_state (w_cos w' r) = Ready"
  using cviewD(7) [of "{}" "{}" w' _ r, OF deregister_all_cview] by (fastforce simp: unblock_def upd_co_def)

lemma slot_attached:
  assumes "inst L0 rt mail ok H w" and "slab_get (rt_slab rt) i (hs_coroutines (w_hs w th)) = Some rc"
  shows "alive w rc \<and> co_handler_shared (w_cos w rc) = Some th \<and> co_the_id (w_cos w rc) = i \<and> \<not> w_shutting w th"
proof -
  note I = instD [OF assms(1)]
  from slot_home [OF I(2), of th i rc] assms(2) have a: "alive w rc" and h: "lg_home (ledger_of rt mail w) rc = Some (th, i)"
    by simp_all
  from a h have "co_handler_shared (w_cos w rc) = Some th" "co_the_id (w_cos w rc) = i" by (auto simp: ledger_of_def)
  with a I(5) show ?thesis by (auto simp: quenched_def)
qed

lemma Handler_ready_inst:
  assumes "runtime_laws rt mail ok" and "code_unwinds rt" and "inst L0 rt mail ok {} w" and "Handler_ready rt th token events w = Some (Inr w')"
  shows "inst L0 rt mail ok {} w'"
proof -
  obtain i io where ids: "token_to_ids token = (i, io)" by (cases "token_to_ids token")
  show ?thesis
  proof (cases "slab_get (rt_slab rt) i (hs_coroutines (w_hs w th))")
    case None
    with ids assms(3,4) show ?thesis by (simp add: Handler_ready_def)
  next
    case (Some rc)
    note A = slot_attached [OF assms(3) Some]
    from Some ids assms(4) obtain b w1 w2 where ev: "co_event rt th rc token events w = Inr (b, w1)"
      and rd: "(if b then scheduler_ready rt th (ctrl_new rc) w1 else Inr w1) = Inr w2"
      and dl: "deliver_to_scheduler rt th w2 = Some (Inr w')"
      by (auto simp: Handler_ready_def bindO_eq_Inr bindR_eq_Inr)
    have "inst L0 rt mail ok {} w2 \<and> hand th {} w2"
    proof (cases "co_state (w_cos w rc) = Blocked")
      case False
      then have "\<not> is_blocked (co_state (w_cos w rc))" by (cases "co_state (w_cos w rc)") simp_all
      with ev rd have "w2 = w" by (auto simp: co_event_def ids split: if_splits)
      with assms(3) A show ?thesis by (simp add: hand_empty)
    next
      case True
      with ev ids obtain e where ub: "unblock rt th rc e w = Inr w1" and b by (auto simp: co_event_def bindR_eq_Inr)
      from wake_inst [OF assms(3) _ True _ _ unblock_quiet [OF assms(1) _ ub] unblock_cview [OF ub] unblock_ready [OF ub]] A
      have "inst L0 rt mail ok {rc} w1 \<and> hand th {rc} w1" by blast
      with rd \<open>b\<close> scheduler_ready_inst [OF assms(1,2), of L0 "ctrl_new rc" w1 th w2] show ?thesis by (simp add: ctrl_new_def)
    qed
    with deliver_inst [OF assms(1,2) _ _ dl] show ?thesis by blast
  qed
qed

text \<open>
  On a thread that is shutting down: \<open>inst_but th\<close> is the invariant while the coroutines of the
  thread are being killed, with those still alive allowed.
\<close>

definition inst_but ::
  "ledger \<Rightarrow> ('el, 'sl, 'k, 'sg, 'sc) rt \<Rightarrow> ('el \<Rightarrow> thread_id \<Rightarrow> Message list) \<Rightarrow> ('sl \<Rightarrow> bool) \<Rightarrow> thread_id \<Rightarrow>
   ('el, 'sl, 'k, 'sg, 'sc) world \<Rightarrow> bool" where
  "inst_but L0 rt mail ok th w \<longleftrightarrow>
     side ok w \<and> lfrom L0 (ledger_of rt mail w) \<and> ctl {} w \<and> childless w \<and> ctxs w \<and> unspent w \<and> w_shutting w th
   \<and> (\<forall>t r. t \<noteq> th \<longrightarrow> w_shutting w t \<longrightarrow> co_handler_shared (w_cos w r) = Some t \<longrightarrow> \<not> alive w r)"

lemma inst_but_inst:
  assumes "inst_but L0 rt mail ok th w" and "\<And>i. slab_get (rt_slab rt) i (hs_coroutines (w_hs w th)) = None"
  shows "inst L0 rt mail ok {} w"
proof -
  from assms(1) have L: "linv (ledger_of rt mail w)" by (auto simp: inst_but_def intro: lfrom_linv)
  have "\<not> alive w r" if "co_handler_shared (w_cos w r) = Some th" for r
    using home_slot [OF L, of r th "co_the_id (w_cos w r)"] lg_home_alive [of w r th rt mail] that assms(2) by fastforce
  with assms(1) have "quenched w" unfolding quenched_def inst_but_def by metis
  with assms(1) show ?thesis by (simp add: inst_def inst_but_def)
qed

lemma kill_inst:
  assumes "runtime_laws rt mail ok" and "code_unwinds rt" and "inst_but L0 rt mail ok th w"
    and "alive w (ctrl_rc c)" and "co_handler_shared (w_cos w (ctrl_rc c)) = Some th"
    and "kill rt th' c w = Inr w'"
  shows "inst_but L0 rt mail ok th w'
    \<and> (\<forall>i. slab_get (rt_slab rt) i (hs_coroutines (w_hs w' th)) =
         (if i = co_the_id (w_cos w (ctrl_rc c)) then None else slab_get (rt_slab rt) i (hs_coroutines (w_hs w th))))"
proof -
  let ?r = "ctrl_rc c"
  note I = assms(3) [unfolded inst_but_def]
  have "ctx_ok (w_cos w ?r)" using I assms(4) by (simp add: ctxs_def)
  from kill_effect [OF assms(1,2) _ assms(4) this assms(6)] I assms(5) obtain ts
    where v: "cview {?r} {?r} w' = cview {?r} {?r} w" and d: "\<not> alive w' ?r" and s: "side ok w'"
      and l: "ledger_of rt mail w' = led_finish ?r th (co_the_id (w_cos w ?r)) ts (ledger_of rt mail w)" by auto
  note V = cviewD [OF v]
  have own: "owned w' t = owned w t" for t using V by (simp add: owned_def)
  have st: "co_state (w_cos w' x) = (if x = ?r then Finished else co_state (w_cos w x))" for x
    using V(7) [of x] d by (auto simp: alive_def)
  have al: "alive w' x = (x \<noteq> ?r \<and> alive w x)" for x by (simp add: alive_def st)
  have C: "ctl {} w" and sh: "w_shutting w th" using I by simp_all
  have "ctl {} w'"
  proof (rule ctlI)
    show "distinct (owned w' t)" if "\<not> w_shutting w' t" for t
      using that ctl_distinct [OF C] by (simp add: own V)
    show "x \<notin> {} \<and> co_state (w_cos w' x) = Ready \<and> co_handler_shared (w_cos w' x) = Some t"
      if "\<not> w_shutting w' t" "x \<in> set (owned w' t)" for t x
    proof -
      from that ctl_owned [OF C, of t x] have x: "co_state (w_cos w x) = Ready" "co_handler_shared (w_cos w x) = Some t"
        by (simp_all add: own V)
      with that(1) sh assms(5) have "x \<noteq> ?r" by (auto simp: V)
      with x show ?thesis by (simp add: st V)
    qed
    show "x \<in> {} \<or> x \<in> set (owned w' t)"
      if "\<not> w_shutting w' t" "co_state (w_cos w' x) = Ready" "co_handler_shared (w_cos w' x) = Some t" for t x
      using that ctl_ready [OF C, of t x] by (auto simp: own V st split: if_splits)
    show "co_state (w_cos w' x) = Ready" if "alive w' x" "co_handler_shared (w_cos w' x) = None" for x
      using that ctl_flying [OF C, of x] by (simp add: al st V)
    show "co_state (w_cos w' x) \<noteq> Yielding" for x using ctl_not_yielding [OF C, of x] by (simp add: st)
  qed
  moreover have "lfrom L0 (ledger_of rt mail w')"
    unfolding l by (rule lfrom_step [OF _ LFinish]) (use I assms(4,5) lg_home_alive [OF assms(4,5)] in simp_all)
  moreover have "childless w'" "unspent w'" using I by (simp_all add: childless_def unspent_def V)
  moreover have "ctxs w'" unfolding ctxs_def
  proof (intro allI impI)
    fix x assume "alive w' x"
    then have "x \<noteq> ?r" "alive w x" by (simp_all add: al)
    with I V(8,9) [of x] show "ctx_ok (w_cos w' x)" by (simp add: ctxs_def ctx_ok_def)
  qed
  moreover have "\<forall>i. slab_get (rt_slab rt) i (hs_coroutines (w_hs w' th)) =
         (if i = co_the_id (w_cos w ?r) then None else slab_get (rt_slab rt) i (hs_coroutines (w_hs w th)))"
    using arg_cong [OF l, of "\<lambda>L. lg_slot L th"] by (simp add: led_finish_def set_slot_def fun_eq_iff ledger_of_def)
  ultimately show ?thesis using s I by (simp add: inst_but_def al V)
qed

lemma shutdown_one_inst:
  assumes "runtime_laws rt mail ok" and "code_unwinds rt" and "inst_but L0 rt mail ok th w"
    and "shutdown_one_coroutine rt th i w = Inr w'"
  shows "inst_but L0 rt mail ok th w'
    \<and> (\<forall>j. slab_get (rt_slab rt) j (hs_coroutines (w_hs w' th)) =
         (if j = i then None else slab_get (rt_slab rt) j (hs_coroutines (w_hs w th))))"
proof -
  have ok: "ok (hs_coroutines (w_hs w th))" using assms(3) by (simp add: inst_but_def side_def)
  have contains: "slab_contains (rt_slab rt) i (hs_coroutines (w_hs w th))
      = (slab_get (rt_slab rt) i (hs_coroutines (w_hs w th)) \<noteq> None)"
  proof -
    from runtime_lawsD(2) [OF assms(1)]
    have "\<forall>i s. ok s \<longrightarrow> slab_contains (rt_slab rt) i s = (slab_get (rt_slab rt) i s \<noteq> None)"
      unfolding slab_laws_def by (elim conjE) assumption
    with ok show ?thesis by blast
  qed
  show ?thesis
  proof (cases "slab_get (rt_slab rt) i (hs_coroutines (w_hs w th))")
    case None
    with contains assms(3,4) show ?thesis by (simp add: shutdown_one_coroutine_def)
  next
    case (Some rc)
    with contains assms(4) have k: "kill rt th (ctrl_new rc) w = Inr w'"
      by (simp add: shutdown_one_coroutine_def ctrl_drop_def ctrl_new_def)
    from assms(3) have L: "linv (ledger_of rt mail w)" by (auto simp: inst_but_def intro: lfrom_linv)
    from slot_home [OF L, of th i rc] Some have a: "alive w rc" and h: "lg_home (ledger_of rt mail w) rc = Some (th, i)"
      by simp_all
    from a h have hs: "co_handler_shared (w_cos w rc) = Some th" and id: "co_the_id (w_cos w rc) = i"
      by (auto simp: ledger_of_def)
    from kill_inst [OF assms(1-3), of "ctrl_new rc" th w'] a hs id k show ?thesis by (simp add: ctrl_new_def)
  qed
qed

lemma shutdown_loop:
  assumes "runtime_laws rt mail ok" and "code_unwinds rt"
  shows "inst_but L0 rt mail ok th w \<Longrightarrow> foldR (\<lambda>i. shutdown_one_coroutine rt th (f i)) is w = Inr w' \<Longrightarrow>
    inst_but L0 rt mail ok th w'
    \<and> (\<forall>j. slab_get (rt_slab rt) j (hs_coroutines (w_hs w' th)) =
         (if j \<in> f ` set is then None else slab_get (rt_slab rt) j (hs_coroutines (w_hs w th))))"
proof (induction "is" arbitrary: w)
  case (Cons i "is")
  then obtain w1 where 1: "shutdown_one_coroutine rt th (f i) w = Inr w1"
    and 2: "foldR (\<lambda>i. shutdown_one_coroutine rt th (f i)) is w1 = Inr w'" by (auto simp: bindR_eq_Inr)
  from shutdown_one_inst [OF assms Cons.prems(1) 1] Cons.IH [OF _ 2] show ?case by auto
qed simp

lemma Handler_shutdown_inst:
  assumes "runtime_laws rt mail ok" and "code_unwinds rt" and "inst L0 rt mail ok {} w" and "Handler_shutdown rt th w = Inr w'"
  shows "inst L0 rt mail ok {} w' \<and> w_shutting w' th"
proof -
  let ?w1 = "w\<lparr>w_shutting := (w_shutting w)(th := True)\<rparr>"
  note I = instD [OF assms(3)]
  have but: "inst_but L0 rt mail ok th ?w1"
  proof -
    have "ledger_of rt mail ?w1 = ledger_of rt mail w" by (simp add: ledger_of_def alive_def fun_eq_iff)
    moreover have "ctl {} ?w1" using I(3) unfolding ctl_def owned_def alive_def by simp
    ultimately show ?thesis
      using I by (simp add: inst_but_def side_def childless_def ctxs_def quenched_def unspent_def alive_def)
  qed
  define len where "len = slab_count (rt_slab rt) (hs_coroutines (w_hs w th)) + slab_remaining (rt_slab rt) (hs_coroutines (w_hs w th))"
  define f where "f = (\<lambda>i. Id (co_usize STARTING_ID + of_nat i))"
  from assms(4) have "foldR (\<lambda>i. shutdown_one_coroutine rt th (f i)) [0..<len] ?w1 = Inr w'"
    by (simp add: Handler_shutdown_def len_def f_def)
  note S = shutdown_loop [OF assms(1,2) but this]
  have "slab_get (rt_slab rt) j (hs_coroutines (w_hs w' th)) = None" for j
  proof (cases "slab_get (rt_slab rt) j (hs_coroutines (w_hs w th))")
    case None
    with S show ?thesis by simp
  next
    case (Some x)
    from runtime_lawsD(2) [OF assms(1)]
    have "\<forall>i s. ok s \<longrightarrow> slab_get (rt_slab rt) i s \<noteq> None \<longrightarrow>
      (\<exists>k < slab_count (rt_slab rt) s + slab_remaining (rt_slab rt) s. i = Id (co_usize STARTING_ID + of_nat k))"
      unfolding slab_laws_def by (elim conjE) assumption
    with I(1) Some obtain k where "k < len" "j = f k" by (auto simp: side_def len_def f_def)
    then have "j \<in> f ` set [0..<len]" by auto
    with S show ?thesis by simp
  qed
  moreover from S have but': "inst_but L0 rt mail ok th w'" by blast
  ultimately have "inst L0 rt mail ok {} w'" by (intro inst_but_inst)
  with but' show ?thesis by (simp add: inst_but_def)
qed

text \<open>A coroutine that arrives from another thread.\<close>

lemma register_all_state:
  assumes "register_all rt th r w = Inr (b, w')"
  shows "co_state (w_cos w' r) = (if b then Ready else co_state (w_cos w r))"
proof -
  from assms obtain acc w1
    where l: "foldR (register_one rt th (co_the_id (w_cos w r))) (co_blocked_on (w_cos w r)) (None, w) = Inr (acc, w1)"
      and rest: "(case acc of Some event \<Rightarrow> bindR (unblock rt th r event w1) (\<lambda>w2. Inr (True, w2)) | None \<Rightarrow> Inr (False, w1)) = Inr (b, w')"
    by (auto simp: register_all_def bindR_eq_Inr)
  have "cview {} {} w1 = cview {} {} w"
    using foldR_cong_inv [OF l, of "\<lambda>u. cview {} {} (snd u)"] register_one_cview by fastforce
  from cviewD(7) [OF this, of r] have "co_state (w_cos w1 r) = co_state (w_cos w r)" by simp
  with rest show ?thesis by (auto simp: bindR_eq_Inr split: option.splits dest: unblock_ready)
qed

lemma reattach_shape:
  assumes "reattach_to rt th c w = Inr w'"
  shows "w_shutting w' = w_shutting w \<and> (\<forall>t. owned w' t = owned w t) \<and> unspent w' = unspent w
    \<and> (\<forall>x. co_children (w_cos w' x) = co_children (w_cos w x) \<and> co_context (w_cos w' x) = co_context (w_cos w x)
         \<and> co_func (w_cos w' x) = co_func (w_cos w x))
    \<and> (\<forall>x. co_handler_shared (w_cos w' x) = (if x = ctrl_rc c then Some th else co_handler_shared (w_cos w x)))
    \<and> (\<forall>x. x \<noteq> ctrl_rc c \<longrightarrow> co_state (w_cos w' x) = co_state (w_cos w x))
    \<and> (co_state (w_cos w (ctrl_rc c)) = Ready \<longrightarrow> co_state (w_cos w' (ctrl_rc c)) = Ready)"
proof -
  let ?r = "ctrl_rc c"
  from assms obtain i s' b
    where reg: "register_all rt th ?r (upd_co ?r (\<lambda>c. c\<lparr>co_the_id := i, co_handler_shared := Some th\<rparr>)
        (upd_hs th (\<lambda>_. (w_hs w th)\<lparr>hs_coroutines := s'\<rparr>) w)) = Inr (b, w')"
    by (auto simp: reattach_to_def HandlerShared_attach_def attach_to_def bindR_eq_Inr split: option.splits)
  note V = cviewD [OF register_all_cview [OF reg, of "{}"]] and S = register_all_state [OF reg]
  show ?thesis using V S by (auto simp: upd_co_def upd_hs_def owned_def unspent_def)
qed

lemma ledger_env: "ledger_of rt mail (set_env e w) = (ledger_of rt mail w)\<lparr>lg_mail := lmail mail e\<rparr>"
  by (simp add: ledger_of_def set_env_def alive_def fun_eq_iff)

text \<open>The invariant after a \<open>Migration\<close> was taken out of the mailbox and its coroutine attached.\<close>

lemma migration_attached:
  assumes "runtime_laws rt mail ok" and "inst L0 rt mail ok {} w"
    and "lmail mail (w_env w) th = Migration c # ms" and "lmail mail e = (lmail mail (w_env w))(th := ms)"
    and "reattach_to rt th c (set_env e w) = Inr w'"
  shows "side ok w' \<and> lfrom L0 (ledger_of rt mail w') \<and> childless w' \<and> ctxs w' \<and> unspent w' \<and> ctl {ctrl_rc c} w'
    \<and> w_shutting w' = w_shutting w \<and> co_state (w_cos w' (ctrl_rc c)) = Ready
    \<and> co_handler_shared (w_cos w' (ctrl_rc c)) = Some th
    \<and> (\<forall>t r. r \<noteq> ctrl_rc c \<longrightarrow> w_shutting w' t \<longrightarrow> co_handler_shared (w_cos w' r) = Some t \<longrightarrow> \<not> alive w' r)"
proof -
  let ?r = "ctrl_rc c" and ?w = "set_env e w"
  note I = instD [OF assms(2)]
  have cos: "w_cos ?w = w_cos w" and al: "alive ?w x = alive w x" for x by (simp_all add: set_env_def alive_def)
  have "?r \<in> set (flights (ledger_of rt mail w) th)" by (simp add: assms(3))
  from flight_live [OF I(2) this] have a: "alive w ?r" and h: "co_handler_shared (w_cos w ?r) = None"
    by (auto simp: ledger_of_def)
  have rdy: "co_state (w_cos w ?r) = Ready" by (rule ctl_flying [OF I(3) a h])
  have s0: "side ok ?w" using I(1) by (simp add: side_def alive_def set_env_def)
  from reattach_effect [OF assms(1) s0 _ assms(5)] a al obtain i
    where sl: "lg_slot (ledger_of rt mail ?w) th i = None"
      and l: "ledger_of rt mail w' = led_attach ?r th i (ledger_of rt mail ?w)"
      and s: "side ok w'" and al': "\<And>x. alive w' x = alive w x" by auto
  have pop: "ledger_of rt mail ?w = led_pop th (ledger_of rt mail w)"
    using assms(3,4) by (simp add: ledger_env led_pop_def)
  have "lfrom L0 (ledger_of rt mail w')"
    unfolding l pop by (rule lfrom_step [OF I(7) LAttach, of th c ms]) (use assms(3) sl in \<open>simp_all add: set_env_def\<close>)
  moreover note M = reattach_shape [OF assms(5)]
  have own: "owned w' t = owned w t" for t using M by (simp add: owned_def set_env_def)
  have st: "co_state (w_cos w' x) = co_state (w_cos w x)" for x
    using M rdy by (cases "x = ?r") (auto simp: cos)
  have hs: "co_handler_shared (w_cos w' x) = (if x = ?r then Some th else co_handler_shared (w_cos w x))" for x
    using M by (simp add: cos)
  have sh: "w_shutting w' = w_shutting w" using M by (simp add: set_env_def)
  have "ctl {?r} w'"
  proof (rule ctlI)
    show "distinct (owned w' t)" if "\<not> w_shutting w' t" for t
      using that ctl_distinct [OF I(3)] by (simp add: own sh)
    show "x \<notin> {?r} \<and> co_state (w_cos w' x) = Ready \<and> co_handler_shared (w_cos w' x) = Some t"
      if "\<not> w_shutting w' t" "x \<in> set (owned w' t)" for t x
    proof -
      from that ctl_owned [OF I(3), of t x] have x: "co_state (w_cos w x) = Ready" "co_handler_shared (w_cos w x) = Some t"
        by (simp_all add: own sh)
      with h show ?thesis by (auto simp: st hs)
    qed
    show "x \<in> {?r} \<or> x \<in> set (owned w' t)"
      if "\<not> w_shutting w' t" "co_state (w_cos w' x) = Ready" "co_handler_shared (w_cos w' x) = Some t" for t x
      using that ctl_ready [OF I(3), of t x] by (auto simp: own sh st hs split: if_splits)
    show "co_state (w_cos w' x) = Ready" if "alive w' x" "co_handler_shared (w_cos w' x) = None" for x
      using that ctl_flying [OF I(3), of x] by (simp add: al' st hs split: if_splits)
    show "co_state (w_cos w' x) \<noteq> Yielding" for x using ctl_not_yielding [OF I(3)] by (simp add: st)
  qed
  moreover have "childless w'" "ctxs w'" "unspent w'"
    using I(4,6,8) M by (simp_all add: childless_def ctxs_def ctx_ok_def unspent_def set_env_def al')
  moreover have "\<forall>t r. r \<noteq> ?r \<longrightarrow> w_shutting w' t \<longrightarrow> co_handler_shared (w_cos w' r) = Some t \<longrightarrow> \<not> alive w' r"
    using I(5) by (simp add: quenched_def sh hs al')
  ultimately show ?thesis using s st rdy hs sh by simp
qed

lemma migration_inst:
  assumes "runtime_laws rt mail ok" and "code_unwinds rt" and "inst L0 rt mail ok {} w"
    and "lmail mail (w_env w) th = Migration c # ms" and "lmail mail e = (lmail mail (w_env w))(th := ms)"
    and "Handler_notify rt th (Migration c) (set_env e w) = Some (Inr w')"
  shows "inst L0 rt mail ok {} w'"
proof -
  let ?r = "ctrl_rc c"
  from assms(6) obtain w1 where re: "reattach_to rt th c (set_env e w) = Inr w1"
    and rest: "(if w_shutting w1 th then Some (ctrl_drop rt th c w1)
       else bindO (Some (scheduler_ready rt th c w1)) (deliver_to_scheduler rt th)) = Some (Inr w')"
    by (auto simp: bindO_eq_Inr)
  note M = migration_attached [OF assms(1,3,4,5) re]
  have fresh: "\<not> was_handled c" using linv_fresh_ctrl [OF instD(2) [OF assms(3)], of c th] assms(4) by simp
  show ?thesis
  proof (cases "w_shutting w1 th")
    case True
    with rest fresh have k: "kill rt th c w1 = Inr w'" by (simp add: ctrl_drop_def)
    have "ctl {} w1"
    proof (rule ctlI)
      from M have C: "ctl {?r} w1" and h: "co_handler_shared (w_cos w1 ?r) = Some th" by auto
      show "distinct (owned w1 t)" if "\<not> w_shutting w1 t" for t by (rule ctl_distinct [OF C that])
      show "x \<notin> {} \<and> co_state (w_cos w1 x) = Ready \<and> co_handler_shared (w_cos w1 x) = Some t"
        if "\<not> w_shutting w1 t" "x \<in> set (owned w1 t)" for t x using ctl_owned [OF C that] by simp
      show "x \<in> {} \<or> x \<in> set (owned w1 t)"
        if "\<not> w_shutting w1 t" "co_state (w_cos w1 x) = Ready" "co_handler_shared (w_cos w1 x) = Some t" for t x
        using ctl_ready [OF C that] that h True by auto
      show "co_state (w_cos w1 x) = Ready" if "alive w1 x" "co_handler_shared (w_cos w1 x) = None" for x
        by (rule ctl_flying [OF C that])
      show "co_state (w_cos w1 x) \<noteq> Yielding" for x by (rule ctl_not_yielding [OF C])
    qed
    with M True have "inst_but L0 rt mail ok th w1" unfolding inst_but_def by (metis option.inject)
    moreover have "alive w1 ?r" using M by (simp add: alive_def)
    ultimately have K: "inst_but L0 rt mail ok th w'" "\<forall>i. slab_get (rt_slab rt) i (hs_coroutines (w_hs w' th)) =
         (if i = co_the_id (w_cos w1 ?r) then None else slab_get (rt_slab rt) i (hs_coroutines (w_hs w1 th)))"
      using kill_inst [OF assms(1,2) _ _ _ k] M by blast+
    have "slab_get (rt_slab rt) i (hs_coroutines (w_hs w1 th)) = None" if "i \<noteq> co_the_id (w_cos w1 ?r)" for i
    proof (rule ccontr)
      assume "slab_get (rt_slab rt) i (hs_coroutines (w_hs w1 th)) \<noteq> None"
      then obtain x where x: "lg_slot (ledger_of rt mail w1) th i = Some x" by auto
      from M have "linv (ledger_of rt mail w1)" by (blast intro: lfrom_linv)
      from slot_home [OF this x] have "alive w1 x" "lg_home (ledger_of rt mail w1) x = Some (th, i)" by simp_all
      then have "co_handler_shared (w_cos w1 x) = Some th" "co_the_id (w_cos w1 x) = i" by (auto simp: ledger_of_def)
      with that \<open>alive w1 x\<close> True M show False by metis
    qed
    with K show ?thesis by (intro inst_but_inst [OF K(1)]) simp
  next
    case False
    with M have "inst L0 rt mail ok {?r} w1 \<and> hand th {?r} w1"
      unfolding inst_def hand_def quenched_def by (metis option.inject singletonD)
    moreover from rest False obtain w2 where sr: "scheduler_ready rt th c w1 = Inr w2"
      and dl: "deliver_to_scheduler rt th w2 = Some (Inr w')" by (auto simp: bindO_eq_Inr)
    ultimately show ?thesis using fresh scheduler_ready_inst [OF assms(1,2) _ _ _ sr] deliver_inst [OF assms(1,2) _ _ dl] by blast
  qed
qed

text \<open>
  One step of an instance: a callback of mio on some thread, with any event, a message taken from the
  front of a mailbox, or activity outside mioco, which may send wake-ups and change channels and
  sources. Callbacks of different threads interleave as wholes.
\<close>

inductive istep ::
  "('el, 'sl, 'k, 'sg, 'sc) rt \<Rightarrow> ('el \<Rightarrow> thread_id \<Rightarrow> Message list) \<Rightarrow> ('el, 'sl, 'k, 'sg, 'sc) world \<Rightarrow> ('el, 'sl, 'k, 'sg, 'sc) world \<Rightarrow> bool"
  for rt mail where
  ITick: "Handler_tick rt th w = Some (Inr w') \<Longrightarrow> istep rt mail w w'"
| IReady: "Handler_ready rt th token events w = Some (Inr w') \<Longrightarrow> istep rt mail w w'"
| ITimeout: "Handler_timeout rt th token w = Some (Inr w') \<Longrightarrow> istep rt mail w w'"
| INotify: "mail (w_env w) th = m # ms \<Longrightarrow> mail e = (mail (w_env w))(th := ms) \<Longrightarrow>
    Handler_notify rt th m (set_env e w) = Some (Inr w') \<Longrightarrow> istep rt mail w w'"
| IOutside: "lmail mail e = lmail mail (w_env w) \<Longrightarrow>
    istep rt mail w (w\<lparr>w_env := e, w_chans := chs, w_srcs := srcs\<rparr>)"

lemma notify_inst:
  assumes "runtime_laws rt mail ok" and "code_unwinds rt" and "inst L0 rt mail ok {} w"
    and "mail (w_env w) th = m # ms" and "mail e = (mail (w_env w))(th := ms)"
    and "Handler_notify rt th m (set_env e w) = Some (Inr w')"
  shows "inst L0 rt mail ok {} w'"
proof -
  have plain: "inst L0 rt mail ok {} (set_env e w)" if "\<not> important m"
    by (rule inst_env [OF assms(3)]) (use assms(4,5) that in \<open>auto simp: lmail_def fun_eq_iff\<close>)
  show ?thesis
  proof (cases m)
    case (ChannelMsg token)
    with plain Handler_ready_inst [OF assms(1,2)] assms(6) show ?thesis by fastforce
  next
    case (Migration c)
    show ?thesis
      by (rule migration_inst [OF assms(1-3), of th c "filter important ms" e])
        (use assms(4-6) Migration in \<open>auto simp: lmail_def fun_eq_iff\<close>)
  next
    case Shutdown
    with plain Handler_shutdown_inst [OF assms(1,2)] assms(6) show ?thesis by auto
  next
    case Terminate
    let ?L = "ledger_of rt mail w"
    note I = instD [OF assms(3)]
    have m: "lg_mail ?L th = Terminate # filter important ms" using assms(4) Terminate by (simp add: lmail_def)
    have "lmail mail e = (lmail mail (w_env w))(th := filter important ms)" using assms(5) by (auto simp: lmail_def)
    with m have "ledger_of rt mail (set_env e w) = led_pop th ?L" by (simp add: ledger_env led_pop_def)
    with lfrom_step [OF I(7) LTerminate [OF m]] have "lfrom L0 (ledger_of rt mail (set_env e w))" by simp
    with I have "inst L0 rt mail ok {} (set_env e w)"
      by (simp add: inst_def side_def ctl_def childless_def quenched_def ctxs_def owned_def unspent_def alive_def set_env_def)
    moreover from assms(6) Terminate have w': "w' = set_env (mio_shutdown (rt_mio rt) th e) (set_env e w)"
      by (auto simp: bindR_eq_Inr)
    moreover have "lmail mail (mio_shutdown (rt_mio rt) th e) = lmail mail e"
      by (rule lmail_mail) (rule mio_laws_frame(6) [OF runtime_lawsD(1) [OF assms(1)]])
    ultimately show ?thesis using inst_env [of L0 rt mail ok "{}" "set_env e w"] by simp
  qed (use assms(6) in simp)
qed

lemma istep_inst:
  assumes "runtime_laws rt mail ok" and "code_unwinds rt" and "inst L0 rt mail ok {} w" and "istep rt mail w w'"
  shows "inst L0 rt mail ok {} w'"
  using assms(4)
proof cases
  case (ITick th)
  then show ?thesis by (rule Handler_tick_inst [OF assms(1-3)])
next
  case (IReady th token events)
  then show ?thesis by (rule Handler_ready_inst [OF assms(1-3)])
next
  case (ITimeout th token)
  then show ?thesis
    using assms(3) Handler_ready_inst [OF assms(1-3)]
    by (auto simp: Handler_timeout_def bindO_eq_Inr split: if_splits)
next
  case (INotify th m ms e)
  then show ?thesis by (rule notify_inst [OF assms(1-3)])
next
  case (IOutside e chs srcs)
  then have "quiet mail w w'" "cview {} {} w' = cview {} {} w"
    by (simp_all add: quiet_def alive_def cview_def)
  then show ?thesis by (rule inst_same [OF assms(3)])
qed

end
