(* ===== verification/Instance.thy ===== *)
theory Instance
  imports Callbacks
begin

text \<open>
  A mioco instance (\<^verbatim>\<open>src/src/mod.rs\<close>): the configuration, \<open>Mioco::run\<close> up to the event loops, joining a
  coroutine, and the properties of every reachable state of an instance. \<open>booted\<close> are the states in
  which the event loops start; \<open>istep\<close> (theory \<open>Callbacks\<close>) is what happens from there.
\<close>

text \<open>
  \<open>Config\<close>. The scheduler is a trait object: its code is \<open>rt_sched\<close>, its shared state is in the
  configuration. \<open>set_scheduler\<close> replaces it, and with it the type of the state.
\<close>

record 'sg config =
  cfg_thread_num :: nat
  cfg_scheduler :: 'sg
  cfg_user_data :: "userdata option"
  cfg_coroutine_config :: co_config

definition Config_new :: "nat \<Rightarrow> nat config" where
  "Config_new num_cpus = \<lparr>cfg_thread_num = num_cpus, cfg_scheduler = FifoScheduler_new, cfg_user_data = None,
     cfg_coroutine_config = co_config_default\<rparr>"

definition set_thread_num :: "nat \<Rightarrow> 'sg config \<Rightarrow> 'sg config" where
  "set_thread_num n c = c\<lparr>cfg_thread_num := n\<rparr>"

definition set_scheduler :: "'sg \<Rightarrow> 'h config \<Rightarrow> 'sg config" where
  "set_scheduler scheduler c = \<lparr>cfg_thread_num = cfg_thread_num c, cfg_scheduler = scheduler,
     cfg_user_data = cfg_user_data c, cfg_coroutine_config = cfg_coroutine_config c\<rparr>"

definition set_stack_size :: "usize \<Rightarrow> 'sg config \<Rightarrow> 'sg config" where
  "set_stack_size n c = c\<lparr>cfg_coroutine_config := (cfg_coroutine_config c)\<lparr>cf_stack_size := n\<rparr>\<rparr>"

definition config_set_userdata :: "userdata \<Rightarrow> 'sg config \<Rightarrow> 'sg config" where
  "config_set_userdata d c = c\<lparr>cfg_user_data := Some d\<rparr>"

definition set_catch_panics :: "bool \<Rightarrow> 'sg config \<Rightarrow> 'sg config" where
  "set_catch_panics b c = c\<lparr>cfg_coroutine_config := (cfg_coroutine_config c)\<lparr>cf_catch_panics := b\<rparr>\<rparr>"

definition set_stack_protection :: "bool \<Rightarrow> 'sg config \<Rightarrow> 'sg config" where
  "set_stack_protection b c = c\<lparr>cfg_coroutine_config := (cfg_coroutine_config c)\<lparr>cf_stack_protection := b\<rparr>\<rparr>"

text \<open>\<open>Mioco\<close>: its configuration and how many threads it has to join.\<close>

record 'sg mioco =
  m_config :: "'sg config"
  m_join_handles :: nat

definition new_configured :: "'sg config \<Rightarrow> 'sg mioco" where
  "new_configured c = \<lparr>m_config = c, m_join_handles = 0\<rparr>"

definition Mioco_new :: "nat \<Rightarrow> nat mioco" where
  "Mioco_new num_cpus = new_configured (Config_new num_cpus)"

text \<open>\<open>Config\<close> of \<open>start_threads\<close>.\<close>

definition start_threads_config :: "nat \<Rightarrow> nat \<Rightarrow> nat mioco" where
  "start_threads_config num_cpus n = new_configured (set_thread_num n (Config_new num_cpus))"

text \<open>
  The schedulers of the threads. The main thread takes its own before it starts the others; those
  take theirs when they run, in whatever \<open>order\<close> the operating system starts them.
\<close>

fun spawn_threads ::
  "('sg, 'sc) scheduler \<Rightarrow> thread_id list \<Rightarrow> 'sg \<Rightarrow> (thread_id \<Rightarrow> 'sc sched_thread_scheme) \<Rightarrow>
   (thread_id \<Rightarrow> 'sc sched_thread_scheme) \<times> 'sg" where
  "spawn_threads sch [] g f = (f, g)"
| "spawn_threads sch (t # ts) g f = (let (s, g') = sch_spawn_thread sch g in spawn_threads sch ts g' (f(t := s)))"

text \<open>A reference that no coroutine was allocated at.\<close>

definition no_coroutine :: "'k coroutine" where
  "no_coroutine = \<lparr>co_context = None, co_state = Finished,
     co_last_event = \<lparr>event_id = EventSourceId 0, event_rw = RW_none\<rparr>, co_handler_shared = None, co_the_id = Id 0,
     co_blocked_on = [], co_children = [], co_func = None, co_self_rc = None, co_sync_channel = None,
     co_user_data = None, co_inherited = None, co_killed = False\<rparr>"

definition fresh_world ::
  "('el, 'sl, 'k, 'sg, 'sc) rt \<Rightarrow> 'sg config \<Rightarrow> thread_id list \<Rightarrow> ('el, val) io_world \<Rightarrow> nat \<Rightarrow> nat \<Rightarrow> ('el, 'sl, 'k, 'sg, 'sc) world" where
  "fresh_world rt cfg order io nchan nsrc =
     (let (scheds, shared) = spawn_threads (rt_sched rt) (0 # order) (cfg_scheduler cfg)
                               (\<lambda>t. fst (sch_spawn_thread (rt_sched rt) (cfg_scheduler cfg)))
      in io_world.extend io
           \<lparr>w_cos = (\<lambda>r. no_coroutine), w_nco = 0, w_nchan = nchan, w_nsrc = nsrc,
            w_hs = (\<lambda>t. HandlerShared_new (rt_slab rt) [0..<cfg_thread_num cfg] (cfg_coroutine_config cfg) t),
            w_sched = scheds, w_sched_shared = shared, w_shutting = (\<lambda>t. False), w_started = 0, w_num = 0,
            w_thread_num = of_nat (cfg_thread_num cfg), w_current = (\<lambda>t. None)\<rparr>)"

text \<open>
  The start of \<open>thread_loop\<close> on the main thread: the first coroutine is spawned before the other
  threads are let go, and its control waits to be delivered.
\<close>

definition thread_loop_start ::
  "('el, 'sl, 'k, 'sg, 'sc) rt \<Rightarrow> userdata option \<Rightarrow> 'k \<Rightarrow> chan_ref \<Rightarrow> ('el, 'sl, 'k, 'sg, 'sc) world \<Rightarrow> ('el, 'sl, 'k, 'sg, 'sc) world res" where
  "thread_loop_start rt userdata f exit_sender w =
     bindR (Coroutine_spawn rt 0 userdata f exit_sender w) (\<lambda>(coroutine_rc, w1).
       Inr (upd_hs 0 (add_spawned (ctrl_new coroutine_rc)) (signal_start_all w1)))"

definition Mioco_run ::
  "('el, 'sl, 'k, 'sg, 'sc) rt \<Rightarrow> 'sg mioco \<Rightarrow> thread_id list \<Rightarrow> 'k \<Rightarrow> chan_ref \<Rightarrow> ('el, val) io_world \<Rightarrow> nat \<Rightarrow> nat \<Rightarrow>
   ('sg mioco \<times> ('el, 'sl, 'k, 'sg, 'sc) world) res" where
  "Mioco_run rt m order f co_exit_sender io nchan nsrc =
     (let cfg = m_config m
      in if cfg_thread_num cfg = 0 then Inl UnwrapNone
         else
           bindR (thread_loop_start rt (cfg_user_data cfg) f co_exit_sender (fresh_world rt cfg order io nchan nsrc)) (\<lambda>w.
             Inr (m\<lparr>m_config := cfg\<lparr>cfg_user_data := None, cfg_scheduler := w_sched_shared w\<rparr>,
                    m_join_handles := m_join_handles m + (cfg_thread_num cfg - 1)\<rparr>, w)))"

text \<open>\<open>wait_for_start_all\<close>: what the other threads do before their first tick.\<close>

definition wait_for_start_all :: "('w \<Rightarrow> usize) \<Rightarrow> ('w \<Rightarrow> 'w) \<Rightarrow> 'w \<Rightarrow> 'w option" where
  "wait_for_start_all started yld w = rust_loop (\<lambda>w. if started w = 0 then Inr (yld w) else Inl w) w"

text \<open>\<open>JoinHandle::join\<close> on what \<open>recv\<close> returned.\<close>

datatype join_result = Joined nat | JoinPanicked panic | JoinDisconnected

definition join :: "val option \<Rightarrow> join_result option" where
  "join r = (case r of
     None \<Rightarrow> Some JoinDisconnected
   | Some (VExit (Inr v)) \<Rightarrow> Some (Joined v)
   | Some (VExit (Inl p)) \<Rightarrow> Some (JoinPanicked p)
   | Some _ \<Rightarrow> None)"

text \<open>\<open>in_coroutine\<close> and \<open>spawn\<close>: outside a coroutine a new instance is started on a thread of its own.\<close>

definition in_coroutine :: "thread_id \<Rightarrow> ('el, 'sl, 'k, 'sg, 'sc) world \<Rightarrow> bool" where
  "in_coroutine th w = (w_current w th \<noteq> None)"

datatype spawned = NewInstance "nat mioco" | Child chan_ref src_ref

definition spawn ::
  "('el, 'sl, 'k, 'sg, 'sc) rt \<Rightarrow> nat \<Rightarrow> thread_id \<Rightarrow> 'k \<Rightarrow> ('el, 'sl, 'k, 'sg, 'sc) world \<Rightarrow> (spawned \<times> ('el, 'sl, 'k, 'sg, 'sc) world) res" where
  "spawn rt num_cpus th f w =
     (if \<not> in_coroutine th w then Inr (NewInstance (Mioco_new num_cpus), w)
      else bindR (mioco_spawn rt th f w) (\<lambda>((c, s), w'). Inr (Child c s, w')))"

text \<open>The states in which the event loops of an instance start, when everything it calls behaves.\<close>

definition booted ::
  "('el, 'sl, 'k, 'sg, 'sc) rt \<Rightarrow> ('el \<Rightarrow> thread_id \<Rightarrow> Message list) \<Rightarrow> ('sl \<Rightarrow> bool) \<Rightarrow> ('el, 'sl, 'k, 'sg, 'sc) world \<Rightarrow> bool" where
  "booted rt mail ok w \<longleftrightarrow>
     runtime_laws rt mail ok \<and> code_unwinds rt
   \<and> (\<exists>m order f ex io nchan nsrc m'. mset order = mset [1..<cfg_thread_num (m_config m)]
        \<and> Mioco_run rt m order f ex io nchan nsrc = Inr (m', w) \<and> lmail mail (w_env io) = (\<lambda>t. []))"

text \<open>The invariant holds when the event loops start, and every step keeps it.\<close>

lemma spawn_threads_held:
  assumes "sched_laws sch"
  shows "(\<And>t. st_held (f t) = []) \<Longrightarrow> st_held (fst (spawn_threads sch ts g f) t) = []"
proof (induction ts arbitrary: g f)
  case (Cons t' ts)
  with sched_lawsD(2) [OF assms, of g] show ?case by (simp add: case_prod_beta)
qed simp

lemma fresh_world_simps [simp]:
  "w_cos (fresh_world rt cfg order io nchan nsrc) = (\<lambda>r. no_coroutine)"
  "w_nco (fresh_world rt cfg order io nchan nsrc) = 0" "w_num (fresh_world rt cfg order io nchan nsrc) = 0"
  "w_hs (fresh_world rt cfg order io nchan nsrc) =
     HandlerShared_new (rt_slab rt) [0..<cfg_thread_num cfg] (cfg_coroutine_config cfg)"
  "w_shutting (fresh_world rt cfg order io nchan nsrc) = (\<lambda>t. False)"
  "w_env (fresh_world rt cfg order io nchan nsrc) = w_env io"
  "w_current (fresh_world rt cfg order io nchan nsrc) = (\<lambda>t. None)"
  "w_thread_num (fresh_world rt cfg order io nchan nsrc) = of_nat (cfg_thread_num cfg)"
  by (simp_all add: fresh_world_def case_prod_beta io_world.defs)

lemma fresh_world_held:
  assumes "sched_laws (rt_sched rt)"
  shows "st_held (w_sched (fresh_world rt cfg order io nchan nsrc) t) = []"
  using spawn_threads_held [OF assms] sched_lawsD(2) [OF assms]
  by (simp add: fresh_world_def case_prod_beta io_world.defs del: spawn_threads.simps)

lemma fresh_slab:
  assumes "slab_laws sl ok"
  shows "ok (slab_new_starting_at sl STARTING_ID n)" and "slab_get sl i (slab_new_starting_at sl STARTING_ID n) = None"
proof -
  from assms have "\<forall>n. ok (slab_new_starting_at sl STARTING_ID n)
          \<and> (\<forall>i. slab_get sl i (slab_new_starting_at sl STARTING_ID n) = None)"
    unfolding slab_laws_def by (elim conjE) assumption
  then show "ok (slab_new_starting_at sl STARTING_ID n)" and "slab_get sl i (slab_new_starting_at sl STARTING_ID n) = None"
    by blast+
qed

lemma fresh_ledger:
  assumes "runtime_laws rt mail ok" and "lmail mail (w_env io) = (\<lambda>t. [])"
  shows "side ok (fresh_world rt cfg order io nchan nsrc)"
    and "ledger_of rt mail (fresh_world rt cfg order io nchan nsrc) =
      \<lparr>lg_next = 0, lg_live = {}, lg_home = (\<lambda>r. None), lg_slot = (\<lambda>t i. None), lg_num = 0, lg_mail = (\<lambda>t. [])\<rparr>"
  using fresh_slab [OF runtime_lawsD(2) [OF assms(1)]] assms(2)
  by (simp_all add: side_def alive_def no_coroutine_def ledger_of_def HandlerShared_new_def fun_eq_iff)

text \<open>The world in which the event loops of an instance start.\<close>

lemma boot_shape:
  assumes "runtime_laws rt mail ok" and "lmail mail (w_env io) = (\<lambda>t. [])"
    and "thread_loop_start rt ud f ex (fresh_world rt cfg order io nchan nsrc) = Inr w"
  shows "side ok w" and "linit (ledger_of rt mail w)" and "\<And>r. r \<noteq> 0 \<Longrightarrow> w_cos w r = no_coroutine"
    and "\<exists>i. w_cos w 0 = \<lparr>co_context = Some Fresh, co_state = Ready,
            co_last_event = \<lparr>event_id = EventSourceId 0, event_rw = RW_read\<rparr>,
            co_handler_shared = Some 0, co_the_id = i, co_blocked_on = [], co_children = [],
            co_func = Some (f, ex), co_self_rc = Some 0, co_sync_channel = None,
            co_user_data = ud, co_inherited = ud, co_killed = False\<rparr>"
    and "\<And>t. w_shutting w t = False" and "\<And>t. owned w t = (if t = 0 then [0] else [])"
    and "w_started w = 1" and "w_num w = 1" and "unspent w"
proof -
  let ?w0 = "fresh_world rt cfg order io nchan nsrc"
  note F = fresh_ledger [OF assms(1,2), where cfg = cfg and order = order and nchan = nchan and nsrc = nsrc]
  from assms(3) obtain w1 child where sp: "Coroutine_spawn rt 0 ud f ex ?w0 = Inr (child, w1)"
    and w: "w = upd_hs 0 (add_spawned (ctrl_new child)) (signal_start_all w1)"
    by (auto simp: thread_loop_start_def bindR_eq_Inr)
  from spawn_effect [OF assms(1) F(1) sp] obtain i where E: "ledger_of rt mail w1 = led_spawn 0 i (ledger_of rt mail ?w0)"
    "side ok w1" "child = 0" "w_cos w1 0 = \<lparr>co_context = Some Fresh, co_state = Ready,
            co_last_event = \<lparr>event_id = EventSourceId 0, event_rw = RW_read\<rparr>,
            co_handler_shared = Some 0, co_the_id = i, co_blocked_on = [], co_children = [],
            co_func = Some (f, ex), co_self_rc = Some 0, co_sync_channel = None,
            co_user_data = ud, co_inherited = ud, co_killed = False\<rparr>" by auto
  from sp E(3) have R: "\<And>r. r \<noteq> 0 \<Longrightarrow> w_cos w1 r = no_coroutine" "w_shutting w1 = (\<lambda>t. False)"
    "\<And>t. hs_spawned (w_hs w1 t) = []" "\<And>t. hs_ready (w_hs w1 t) = []" "w_sched w1 = w_sched ?w0" "w_num w1 = 1"
    by (auto simp: Coroutine_spawn_def Let_def upd_co_def upd_hs_def coroutines_inc_def HandlerShared_new_def
        split: option.splits)
  have q: "quiet mail w1 w" unfolding w
    by (simp add: quiet_def upd_hs_def add_spawned_def signal_start_all_def alive_def)
  show "side ok w" by (rule quiet_side [OF q E(2)])
  show "linit (ledger_of rt mail w)" unfolding quiet_ledger [OF q] E(1) F(2) linit_def by blast
  show "w_cos w r = no_coroutine" if "r \<noteq> 0" for r
    using R(1) [OF that] by (simp add: w upd_hs_def signal_start_all_def)
  show "\<exists>i. w_cos w 0 = \<lparr>co_context = Some Fresh, co_state = Ready,
            co_last_event = \<lparr>event_id = EventSourceId 0, event_rw = RW_read\<rparr>,
            co_handler_shared = Some 0, co_the_id = i, co_blocked_on = [], co_children = [],
            co_func = Some (f, ex), co_self_rc = Some 0, co_sync_channel = None,
            co_user_data = ud, co_inherited = ud, co_killed = False\<rparr>"
    using E(4) by (simp add: w upd_hs_def signal_start_all_def)
  show "owned w t = (if t = 0 then [0] else [])" for t
    using R(3-5) E(3) fresh_world_held [OF runtime_lawsD(4) [OF assms(1)]]
    by (simp add: w owned_def upd_hs_def add_spawned_def signal_start_all_def ctrl_new_def)
  show "w_shutting w t = False" for t using R(2) by (simp add: w upd_hs_def signal_start_all_def)
  show "w_started w = 1" "w_num w = 1" using R(6) by (simp_all add: w upd_hs_def signal_start_all_def)
  show "unspent w"
    using R(3-5) fresh_world_held [OF runtime_lawsD(4) [OF assms(1)]]
    by (simp add: w unspent_def upd_hs_def add_spawned_def signal_start_all_def ctrl_new_def)
qed

lemma boot_inst:
  assumes "runtime_laws rt mail ok" and "lmail mail (w_env io) = (\<lambda>t. [])"
    and "thread_loop_start rt ud f ex (fresh_world rt cfg order io nchan nsrc) = Inr w"
  shows "inst (ledger_of rt mail w) rt mail ok {} w"
proof -
  note B = boot_shape [OF assms]
  from B(4) have z: "co_state (w_cos w 0) = Ready" "co_handler_shared (w_cos w 0) = Some 0" "co_children (w_cos w 0) = []"
    "co_context (w_cos w 0) = Some Fresh" "co_func (w_cos w 0) \<noteq> None" by auto
  have al: "alive w r \<longleftrightarrow> r = 0" for r
    using B(3) [of r] z(1) by (cases "r = 0") (simp_all add: alive_def no_coroutine_def)
  have st: "co_state (w_cos w r) = (if r = 0 then Ready else Finished)" for r
    using B(3) [of r] z(1) by (cases "r = 0") (simp_all add: no_coroutine_def)
  have "ctl {} w"
    by (rule ctlI) (use B(5,6) z al in \<open>auto simp: st split: if_splits\<close>)
  moreover have "childless w"
    unfolding childless_def using B(3) z(3) by (metis no_coroutine_def coroutine.select_convs(7))
  moreover have "quenched w" "ctxs w"
    using z B(5) al by (auto simp: quenched_def ctxs_def ctx_ok_def)
  ultimately show ?thesis using B(1,9) lfrom_refl [OF linv_linit [OF B(2)]] by (simp add: inst_def)
qed

definition running ::
  "('el, 'sl, 'k, 'sg, 'sc) rt \<Rightarrow> ('el \<Rightarrow> thread_id \<Rightarrow> Message list) \<Rightarrow> ('sl \<Rightarrow> bool) \<Rightarrow> ('el, 'sl, 'k, 'sg, 'sc) world \<Rightarrow> bool" where
  "running rt mail ok w \<longleftrightarrow>
     runtime_laws rt mail ok \<and> code_unwinds rt \<and> (\<exists>L0. linit L0 \<and> inst L0 rt mail ok {} w)"

lemma booted_start:
  assumes "booted rt mail ok w"
  obtains ud f ex cfg order io nchan nsrc where "runtime_laws rt mail ok" and "code_unwinds rt"
    and "lmail mail (w_env io) = (\<lambda>t. [])"
    and "thread_loop_start rt ud f ex (fresh_world rt cfg order io nchan nsrc) = Inr w"
  using assms by (auto simp: booted_def Mioco_run_def Let_def bindR_eq_Inr split: if_splits)

lemma booted_running:
  assumes "booted rt mail ok w"
  shows "running rt mail ok w"
  using assms
proof (rule booted_start)
  fix ud f ex cfg order io nchan nsrc
  assume L: "runtime_laws rt mail ok" "code_unwinds rt" and B: "lmail mail (w_env io) = (\<lambda>t. [])"
    "thread_loop_start rt ud f ex (fresh_world rt cfg order io nchan nsrc) = Inr w"
  from boot_inst [OF L(1) B] boot_shape(2) [OF L(1) B] L show ?thesis unfolding running_def by blast
qed

interpretation mioco: invariant_system "booted rt mail ok" "istep rt mail" "running rt mail ok" for rt mail ok
proof unfold_locales
  show "booted rt mail ok s \<Longrightarrow> running rt mail ok s" for s by (rule booted_running)
  show "running rt mail ok s \<Longrightarrow> istep rt mail s t \<Longrightarrow> running rt mail ok t" for s t
    unfolding running_def using istep_inst by blast
qed

text \<open>What the invariant says of a reachable world, for use in the theorems.\<close>

abbreviation reachable ::
  "('el, 'sl, 'k, 'sg, 'sc) rt \<Rightarrow> ('el \<Rightarrow> thread_id \<Rightarrow> Message list) \<Rightarrow> ('sl \<Rightarrow> bool) \<Rightarrow> ('el, 'sl, 'k, 'sg, 'sc) world \<Rightarrow> bool" where
  "reachable rt mail ok \<equiv> reach (booted rt mail ok) (istep rt mail)"

lemma reachableE:
  assumes "reachable rt mail ok w"
  obtains L0 where "runtime_laws rt mail ok" and "code_unwinds rt" and "linit L0" and "inst L0 rt mail ok {} w"
  using mioco.reach_inv [OF assms] by (auto simp: running_def)

lemma reachable_linv: "reachable rt mail ok w \<Longrightarrow> linv (ledger_of rt mail w)"
  by (erule reachableE) (rule instD(2))

lemma reachable_ctl: "reachable rt mail ok w \<Longrightarrow> ctl {} w"
  by (erule reachableE) (rule instD(3))

lemma reachable_lsteps:
  assumes "reachable rt mail ok w" and "istep rt mail w w'"
  shows "lstep\<^sup>*\<^sup>* (ledger_of rt mail w) (ledger_of rt mail w')"
  using assms(1)
proof (rule reachableE)
  fix L0
  assume R: "runtime_laws rt mail ok" "code_unwinds rt" and I: "inst L0 rt mail ok {} w"
  have "inst (ledger_of rt mail w) rt mail ok {} w"
    using I lfrom_refl [OF instD(2) [OF I]] by (simp add: inst_def)
  from instD(7) [OF istep_inst [OF R this assms(2)]] show ?thesis by (simp add: lfrom_def)
qed

lemma reachable_run:
  assumes "reachable rt mail ok w" and "(istep rt mail)\<^sup>*\<^sup>* w w'"
  shows "reachable rt mail ok w' \<and> lstep\<^sup>*\<^sup>* (ledger_of rt mail w) (ledger_of rt mail w')"
  using assms(2)
proof induction
  case (step w1 w2)
  then show ?case using reachable_lsteps [of rt mail ok w1 w2] reach.intros(2) [of _ _ w1 w2] by (meson rtranclp_trans)
qed (use assms(1) in simp)

lemma flying_of_important [simp]: "flying_of (filter important ms) = flying_of ms"
  by (induction ms rule: flying_of.induct) simp_all

lemma reachable_Terminate: "Terminate \<in> set (lmail mail e t) \<longleftrightarrow> Terminate \<in> set (mail e t)"
  by (simp add: lmail_def)

end
