(* ===== verification/Example.thy ===== *)
theory Example
  imports Instance
begin

text \<open>
  A concrete runtime, used to apply the theorems: event loops that are mailboxes without bound, a slab that
  is an array of cells, and user code that counts down, yielding at every step. The laws that
  the theorems assume of such parameters hold here, so they can hold.
\<close>

text \<open>Event loops: the state outside mioco is the mailbox of every thread.\<close>

definition ex_mio :: "(thread_id \<Rightarrow> Message list, Message) mio" where
  "ex_mio = \<lparr>mio_register = (\<lambda>t io tk i e. (True, e)), mio_reregister = (\<lambda>t io tk i e. (True, e)),
     mio_deregister = (\<lambda>t io e. (True, e)), mio_timeout_ms = (\<lambda>t tk d e. (Some 0, e)),
     mio_clear_timeout = (\<lambda>t h e. e), mio_send = (\<lambda>t m e. (SendOk, e(t := e t @ [m]))),
     mio_shutdown = (\<lambda>t e. e), thread_yield = (\<lambda>e. e), instant_now = (\<lambda>e. (0, e))\<rparr>"

definition ex_mail :: "(thread_id \<Rightarrow> Message list) \<Rightarrow> thread_id \<Rightarrow> Message list" where
  "ex_mail e = e"

text \<open>The slab: a number of cells and what is in them. It starts with four and grows on demand.\<close>

type_synonym ex_cells = "nat \<times> (nat \<Rightarrow> co_ref option)"

definition cell_of :: "co_id \<Rightarrow> nat" where
  "cell_of i = unat (co_usize i - co_usize STARTING_ID)"

definition index_of :: "nat \<Rightarrow> co_id" where
  "index_of k = Id (co_usize STARTING_ID + of_nat k)"

fun free_cell :: "nat \<Rightarrow> nat \<Rightarrow> (nat \<Rightarrow> co_ref option) \<Rightarrow> nat option" where
  "free_cell 0 k f = None"
| "free_cell (Suc n) k f = (if f k = None then Some k else free_cell n (Suc k) f)"

definition cell_get :: "co_id \<Rightarrow> ex_cells \<Rightarrow> co_ref option" where
  "cell_get i s = (if cell_of i < fst s then snd s (cell_of i) else None)"

definition cell_put :: "(co_id \<Rightarrow> co_ref) \<Rightarrow> ex_cells \<Rightarrow> (co_id \<times> ex_cells) option" where
  "cell_put g s =
     (case free_cell (fst s) 0 (snd s) of
        None \<Rightarrow> None
      | Some k \<Rightarrow> Some (index_of k, (fst s, (snd s)(k := Some (g (index_of k))))))"

definition cell_remove :: "co_id \<Rightarrow> ex_cells \<Rightarrow> (co_ref \<times> ex_cells) option" where
  "cell_remove i s =
     (case cell_get i s of None \<Rightarrow> None | Some x \<Rightarrow> Some (x, (fst s, (snd s)(cell_of i := None))))"

definition ex_slab :: "(ex_cells, co_ref) slab" where
  "ex_slab = \<lparr>slab_new_starting_at = (\<lambda>i n. (min n 4, \<lambda>k. None)),
     slab_has_remaining = (\<lambda>s. free_cell (fst s) 0 (snd s) \<noteq> None),
     slab_count = (\<lambda>s. length (filter (\<lambda>k. snd s k \<noteq> None) [0..<fst s])),
     slab_remaining = (\<lambda>s. length (filter (\<lambda>k. snd s k = None) [0..<fst s])),
     slab_grow = (\<lambda>n s. if fst s + n \<le> 2 ^ 32 then (fst s + n, snd s) else s),
     slab_insert_with = cell_put, slab_insert = (\<lambda>x. cell_put (\<lambda>i. x)), slab_remove = cell_remove,
     slab_get = cell_get, slab_contains = (\<lambda>i s. cell_get i s \<noteq> None)\<rparr>"

definition ex_ok :: "ex_cells \<Rightarrow> bool" where
  "ex_ok s \<longleftrightarrow> fst s \<le> 2 ^ 32 \<and> (\<forall>k \<ge> fst s. snd s k = None)"

text \<open>User code: a counter that yields down to zero and returns 7; killed, it unwinds at once.\<close>

fun ex_code :: "nat \<Rightarrow> wake \<Rightarrow> nat seg" where
  "ex_code k WakeKilled = Unwind KilledUnwind"
| "ex_code 0 _ = Ret 7"
| "ex_code (Suc k) _ = Switch SwYield k"

definition ex_rt :: "(thread_id \<Rightarrow> Message list, ex_cells, nat, nat, unit fifo_ext) rt" where
  "ex_rt = \<lparr>rt_dbg = True, rt_mio = ex_mio, rt_slab = ex_slab, rt_sched = FifoScheduler, rt_code = ex_code, rt_user_io = (\<lambda>n e. (n, e))\<rparr>"

lemma ex_mio_laws: "mio_laws ex_mio ex_mail"
  by (auto simp: mio_laws_def ex_mio_def ex_mail_def)

lemma free_cell_Some: "free_cell n k f = Some j \<Longrightarrow> f j = None \<and> k \<le> j \<and> j < k + n"
  by (induction n k f rule: free_cell.induct) (auto split: if_splits)

lemma cell_of_index: "k < 2 ^ 32 \<Longrightarrow> cell_of (index_of k) = k"
  by (simp add: cell_of_def index_of_def unsigned_of_nat take_bit_nat_eq_self)

lemma index_of_cell: "index_of (cell_of i) = i"
  by (cases i) (simp add: cell_of_def index_of_def)

lemma cell_put_laws:
  assumes "ex_ok s" and "cell_put g s = Some (i, s')"
  shows "ex_ok s'" and "cell_get i s = None" and "cell_get j s' = (if j = i then Some (g i) else cell_get j s)"
proof -
  from assms(2) obtain k where k: "free_cell (fst s) 0 (snd s) = Some k" and i: "i = index_of k"
    and s': "s' = (fst s, (snd s)(k := Some (g i)))" by (auto simp: cell_put_def split: option.splits)
  from free_cell_Some [OF k] have f: "snd s k = None" "k < fst s" by simp_all
  with assms(1) have "k < 2 ^ 32" by (simp add: ex_ok_def)
  then have c: "cell_of i = k" by (simp add: i cell_of_index)
  have eq: "j = i \<longleftrightarrow> cell_of j = k" using index_of_cell [of j] c i by auto
  show "ex_ok s'" using assms(1) f by (auto simp: s' ex_ok_def)
  show "cell_get i s = None" using f c by (simp add: cell_get_def)
  show "cell_get j s' = (if j = i then Some (g i) else cell_get j s)"
    using f by (auto simp: eq cell_get_def s')
qed

lemma cell_remove_laws:
  assumes "ex_ok s" and "cell_get i s = Some x"
  shows "\<exists>s'. cell_remove i s = Some (x, s') \<and> ex_ok s' \<and> (\<forall>j. cell_get j s' = (if j = i then None else cell_get j s)) \<and> fst s' = fst s"
proof -
  have "(j = i) = (cell_of j = cell_of i)" for j using index_of_cell [of j] index_of_cell [of i] by metis
  with assms show ?thesis by (auto simp: cell_remove_def cell_get_def ex_ok_def)
qed

lemma ex_slab_total:
  "slab_count ex_slab s + slab_remaining ex_slab s = fst s"
  using sum_length_filter_compl [of "\<lambda>k. snd s k = None" "[0..<fst s]"] by (simp add: ex_slab_def)

lemma cell_get_range:
  assumes "cell_get i s \<noteq> None"
  shows "\<exists>k < fst s. i = Id (co_usize STARTING_ID + of_nat k)"
  using assms index_of_cell [of i] by (auto simp: cell_get_def index_of_def split: if_splits)

lemma ex_slab_laws: "slab_laws ex_slab ex_ok"
  unfolding slab_laws_def
proof (intro conjI allI impI)
  fix n s i
  show "ex_ok (slab_new_starting_at ex_slab STARTING_ID n)" by (simp add: ex_slab_def ex_ok_def)
  show "slab_get ex_slab i (slab_new_starting_at ex_slab STARTING_ID n) = None" by (simp add: ex_slab_def cell_get_def)
  assume "ex_ok s"
  then show "ex_ok (slab_grow ex_slab n s)" by (simp add: ex_slab_def ex_ok_def)
  show "slab_get ex_slab i (slab_grow ex_slab n s) = slab_get ex_slab i s"
    using \<open>ex_ok s\<close> by (simp add: ex_slab_def ex_ok_def cell_get_def)
next
  fix x s i s' j
  assume "ex_ok s" "slab_insert ex_slab x s = Some (i, s')"
  then have "ex_ok s" "cell_put (\<lambda>i. x) s = Some (i, s')" by (simp_all add: ex_slab_def)
  from cell_put_laws [OF this] show "ex_ok s'" "slab_get ex_slab i s = None"
    "slab_get ex_slab j s' = (if j = i then Some x else slab_get ex_slab j s)" by (simp_all add: ex_slab_def)
next
  fix f s i s' j
  assume "ex_ok s" "slab_insert_with ex_slab f s = Some (i, s')"
  then have "ex_ok s" "cell_put f s = Some (i, s')" by (simp_all add: ex_slab_def)
  from cell_put_laws [OF this] show "ex_ok s'" "slab_get ex_slab i s = None"
    "slab_get ex_slab j s' = (if j = i then Some (f i) else slab_get ex_slab j s)" by (simp_all add: ex_slab_def)
next
  fix s x f
  assume "slab_has_remaining ex_slab s"
  then show "slab_insert ex_slab x s \<noteq> None" "slab_insert_with ex_slab f s \<noteq> None"
    by (auto simp: ex_slab_def cell_put_def)
next
  fix i s
  assume "slab_get ex_slab i s = None"
  then show "slab_remove ex_slab i s = None" by (simp add: ex_slab_def cell_remove_def)
next
  fix i s x
  assume "ex_ok s" "slab_get ex_slab i s = Some x"
  then have "ex_ok s" "cell_get i s = Some x" by (simp_all add: ex_slab_def)
  from cell_remove_laws [OF this] show "\<exists>s'. slab_remove ex_slab i s = Some (x, s') \<and> ex_ok s'
     \<and> (\<forall>j. slab_get ex_slab j s' = (if j = i then None else slab_get ex_slab j s))
     \<and> slab_count ex_slab s' + slab_remaining ex_slab s' = slab_count ex_slab s + slab_remaining ex_slab s"
    unfolding ex_slab_total by (simp add: ex_slab_def del: split_paired_Ex split: if_splits) blast
next
  fix i s
  show "slab_contains ex_slab i s = (slab_get ex_slab i s \<noteq> None)" by (simp add: ex_slab_def)
  assume "slab_get ex_slab i s \<noteq> None"
  with cell_get_range [of i s] show "\<exists>k < slab_count ex_slab s + slab_remaining ex_slab s. i = Id (co_usize STARTING_ID + of_nat k)"
    unfolding ex_slab_total by (simp add: ex_slab_def)
qed

lemma ex_runtime_laws: "runtime_laws ex_rt ex_mail ex_ok"
  by (simp add: runtime_laws_def ex_rt_def ex_mio_laws ex_slab_laws FifoScheduler_laws)

lemma ex_code_unwinds: "code_unwinds ex_rt"
  by (simp add: code_unwinds_def ex_rt_def)

text \<open>
  Runs of an instance with two threads whose first coroutine counts down from one: as it starts,
  after the first tick of its thread (it yielded), after the second (it returned, and \<open>Terminate\<close> is
  in both mailboxes), and, from the start, with a \<open>Shutdown\<close> in the mailbox and after it was handled.
\<close>

definition ex_config :: "nat config" where
  "ex_config = set_thread_num 2 (Config_new 8)"

definition ex_io :: "(thread_id \<Rightarrow> Message list, val) io_world" where
  "ex_io = \<lparr>w_env = (\<lambda>t. []), w_chans = (\<lambda>c. channel), w_srcs = (\<lambda>s. RcEventSource_new (ReceiverIo 0))\<rparr>"

definition ex_co :: "nat saved_context \<Rightarrow> state \<Rightarrow> (nat \<times> chan_ref) option \<Rightarrow> bool \<Rightarrow> nat coroutine" where
  "ex_co ctx st fn killed =
     \<lparr>co_context = Some ctx, co_state = st, co_last_event = \<lparr>event_id = EventSourceId 0, event_rw = RW_read\<rparr>,
      co_handler_shared = Some 0, co_the_id = Id 1, co_blocked_on = [], co_children = [], co_func = fn,
      co_self_rc = (if st = Finished then None else Some 0), co_sync_channel = None, co_user_data = None,
      co_inherited = None, co_killed = killed\<rparr>"

definition ex_world ::
  "(thread_id \<Rightarrow> Message list) \<Rightarrow> val chan \<Rightarrow> nat coroutine \<Rightarrow> (nat \<Rightarrow> co_ref option) \<Rightarrow> ctrl list \<Rightarrow> ctrl list \<Rightarrow>
   bool \<Rightarrow> usize \<Rightarrow> (thread_id \<Rightarrow> Message list, ex_cells, nat, nat, unit fifo_ext) world" where
  "ex_world e ch co cells spawned delayed shutting num =
     (let hs = HandlerShared_new ex_slab [0, 1] co_config_default
      in \<lparr>w_env = e, w_chans = (\<lambda>c. channel)(0 := ch), w_srcs = (\<lambda>s. RcEventSource_new (ReceiverIo 0)),
          w_cos = (\<lambda>r. no_coroutine)(0 := co), w_nco = 1, w_nchan = 1, w_nsrc = 1,
          w_hs = hs(0 := (hs 0)\<lparr>hs_coroutines := (4, cells), hs_spawned := spawned\<rparr>),
          w_sched = (\<lambda>t. \<lparr>st_held = [], fs_thread_id = 0, fs_thread_i = 0\<rparr>)
            (1 := \<lparr>st_held = [], fs_thread_id = 1, fs_thread_i = 1\<rparr>,
             0 := \<lparr>st_held = delayed, fs_thread_id = 0, fs_thread_i = if spawned = [] then 1 else 0\<rparr>),
          w_sched_shared = 2, w_shutting = (\<lambda>t. False)(0 := shutting), w_started = 1, w_num = num,
          w_thread_num = 2, w_current = (\<lambda>t. None)\<rparr>)"

definition ex_boot :: "(thread_id \<Rightarrow> Message list, ex_cells, nat, nat, unit fifo_ext) world" where
  "ex_boot = ex_world (\<lambda>t. []) channel (ex_co Fresh Ready (Some (1, 0)) False) [0 \<mapsto> 0] [ctrl_new 0] [] False 1"

definition ex_yielded :: "(thread_id \<Rightarrow> Message list, ex_cells, nat, nat, unit fifo_ext) world" where
  "ex_yielded = ex_world (\<lambda>t. []) channel (ex_co (Suspended 0 0) Ready None False) [0 \<mapsto> 0] []
     [set_is_yielding (ctrl_new 0)] False 1"

definition ex_exit_channel :: "panic + nat \<Rightarrow> val chan" where
  "ex_exit_channel r = channel\<lparr>ch_counter := 2, ch_queue := [VExit r], ch_arc := 0, ch_std := 0\<rparr>"

definition ex_done :: "(thread_id \<Rightarrow> Message list, ex_cells, nat, nat, unit fifo_ext) world" where
  "ex_done = ex_world ((\<lambda>t. [])(0 := [Terminate], 1 := [Terminate])) (ex_exit_channel (Inr 7))
     (ex_co Exited Finished None False) (\<lambda>k. None) [] [] False 0"

definition ex_stopped :: "(thread_id \<Rightarrow> Message list, ex_cells, nat, nat, unit fifo_ext) world" where
  "ex_stopped = set_env ((\<lambda>t. [])(1 := [Terminate])) ex_done"

definition ex_asked :: "(thread_id \<Rightarrow> Message list, ex_cells, nat, nat, unit fifo_ext) world" where
  "ex_asked = ex_boot\<lparr>w_env := (\<lambda>t. [])(0 := [Shutdown]), w_chans := w_chans ex_boot, w_srcs := w_srcs ex_boot\<rparr>"

definition ex_shut :: "(thread_id \<Rightarrow> Message list, ex_cells, nat, nat, unit fifo_ext) world" where
  "ex_shut = ex_world ((\<lambda>t. [])(0 := [Terminate], 1 := [Terminate])) (ex_exit_channel (Inl KilledUnwind))
     (ex_co Exited Finished None True) (\<lambda>k. None) [ctrl_new 0] [] True 0"

lemma free_cell_first: "0 < n \<Longrightarrow> f k = None \<Longrightarrow> free_cell n k f = Some k"
  by (cases n) simp_all

lemmas ex_eval = ex_rt_def ex_mio_def ex_slab_def ex_config_def ex_io_def ex_world_def ex_co_def
  ex_boot_def ex_yielded_def Config_new_def new_configured_def set_thread_num_def FifoScheduler_new_def co_config_default_def
  Mioco_run_def thread_loop_start_def fresh_world_def io_world.defs HandlerShared_new_def spawn_thread_def
  Coroutine_spawn_def slab_reserve_def cell_put_def free_cell_first cell_get_def cell_remove_def index_of_def cell_of_def STARTING_ID_def
  upd_co_def upd_hs_def coroutines_inc_def signal_start_all_def add_spawned_def add_ready_def ctrl_new_def set_is_yielding_def

lemma upt_2: "[0..<2] = [0, Suc 0]"
  by (simp add: numeral_2_eq_2)

lemma ex_boot_runs: "\<exists>m'. Mioco_run ex_rt (new_configured ex_config) [1] 1 0 ex_io 1 1 = Inr (m', ex_boot)"
  by (simp add: ex_eval upt_2 fun_eq_iff)

lemmas ex_run = deliver_round_def scheduler_spawned_def scheduler_ready_def scheduler_tick_def do_actions_def set_sched_def fifo_spawned_def
  fifo_ready_def thread_next_i_def resume_def jump_in_def start_segment_def enter_context_def take_out_context_def
  leave_coroutine_def yield_now_def tl_current_coroutine_def tl_current_coroutine_ptr_save_def tl_current_coroutine_ptr_restore_def
  jump_out_def after_resume_def register_all_def deregister_all_def start_children_def requeue_def unblock_after_yield_def
  debug_assert_def was_running_before_def Let_def


lemmas ex_end = finish_def coroutines_dec_def broadcast_terminate_def broadcast_def send_msg_def sender_retry_def sender_retry_loop.simps
  report_exit_def chan_op_def set_chan_def set_env_def Sender_send_def Sender_drop_def count_and_notify_def
  drop_shared_def drop_std_def counter_fetch_add_def maybe_notify_receiver_def std_push_def channel_def ex_exit_channel_def ex_done_def ex_shut_def

lemma ex_round1: "deliver_round ex_rt 0 ex_boot = Inr ex_yielded"
  by (simp add: ex_eval ex_run)

lemma ex_round2: "deliver_round ex_rt 0 ex_yielded = Inl (Inr ex_yielded)"
  by (simp add: ex_eval ex_run)

lemma set_sched_same: "set_sched th (w_sched w th, w_sched_shared w) w = w"
  by (simp add: set_sched_def)

lemma ex_sched: "rt_sched ex_rt = FifoScheduler"
  by (simp add: ex_rt_def)

lemma ex_idle: "scheduler_tick ex_rt 0 ex_boot = Inr ex_boot"
  by (simp add: scheduler_tick_def do_actions_def fifo_tick_eq ex_sched set_sched_def ex_boot_def ex_world_def Let_def)

lemma ex_timer: "mio_timeout_ms (rt_mio ex_rt) t tk d e = (Some 0, e)"
  by (simp add: ex_rt_def ex_mio_def)

lemma ex_token: "token_from_ids (rt_dbg ex_rt) SPECIAL_ID SPECIAL_ID_SCHED_TIMEOUT = Inr 0"
  by (simp add: token_from_ids_def SPECIAL_ID_def SPECIAL_ID_SCHED_TIMEOUT_def debug_assert_def ex_rt_def)

lemma ex_tick1: "Handler_tick ex_rt 0 ex_boot = Some (Inr ex_yielded)"
proof -
  have "\<not> w_shutting ex_boot 0" "st_held (w_sched ex_yielded 0) \<noteq> []"
    by (simp_all add: ex_boot_def ex_yielded_def ex_world_def Let_def)
  moreover have "deliver_to_scheduler ex_rt 0 ex_boot = Some (Inr ex_yielded)"
    unfolding deliver_to_scheduler_def
    by (simp add: rust_loop_again [of "deliver_round ex_rt 0", OF ex_round1] rust_loop_first [of "deliver_round ex_rt 0", OF ex_round2])
  moreover have "set_env (w_env ex_yielded) ex_yielded = ex_yielded" by (simp add: set_env_def)
  ultimately show ?thesis
    by (simp add: Handler_tick_def ex_idle fifo_timeout_def ex_timer ex_token ex_sched set_sched_same)
qed

text \<open>The second tick.\<close>

lemma ex_finish: "scheduler_tick ex_rt 0 ex_yielded = Inr ex_done"
  by (simp add: fifo_tick_eq ex_eval ex_run ex_end)

lemma ex_round3: "deliver_round ex_rt 0 ex_done = Inl (Inr ex_done)"
  by (simp add: deliver_round_def ex_done_def ex_world_def HandlerShared_new_def)

lemma ex_tick2: "Handler_tick ex_rt 0 ex_yielded = Some (Inr ex_done)"
proof -
  have "\<not> w_shutting ex_yielded 0" "st_held (w_sched ex_done 0) = []"
    by (simp_all add: ex_yielded_def ex_done_def ex_world_def Let_def)
  moreover have "deliver_to_scheduler ex_rt 0 ex_done = Some (Inr ex_done)"
    unfolding deliver_to_scheduler_def by (rule rust_loop_first) (rule ex_round3)
  ultimately show ?thesis by (simp add: Handler_tick_def ex_finish fifo_timeout_def ex_sched set_sched_same)
qed

text \<open>Shutting down from the start.\<close>

definition ex_killing :: "(thread_id \<Rightarrow> Message list, ex_cells, nat, nat, unit fifo_ext) world" where
  "ex_killing = ex_boot\<lparr>w_shutting := (w_shutting ex_boot)(0 := True)\<rparr>"

lemma ex_kill: "shutdown_one_coroutine ex_rt 0 (index_of 0) ex_killing = Inr ex_shut"
  by (simp add: ex_killing_def shutdown_one_coroutine_def ctrl_drop_def kill_def ex_eval ex_run ex_end fun_eq_iff)

lemma ex_killed: "shutdown_one_coroutine ex_rt 0 i ex_shut = Inr ex_shut"
  by (simp add: shutdown_one_coroutine_def ex_rt_def ex_slab_def cell_get_def ex_shut_def ex_world_def Let_def)

lemma ex_shutdown: "Handler_shutdown ex_rt 0 ex_boot = Inr ex_shut"
proof -
  have n: "slab_count (rt_slab ex_rt) (hs_coroutines (w_hs ex_killing 0))
      + slab_remaining (rt_slab ex_rt) (hs_coroutines (w_hs ex_killing 0)) = 4"
    using ex_slab_total [of "hs_coroutines (w_hs ex_killing 0)"]
    by (simp add: ex_rt_def ex_killing_def ex_boot_def ex_world_def Let_def)
  have "[0..<4] = 0 # [1..<4 :: nat]" by (simp add: upt_conv_Cons)
  moreover have "foldR (\<lambda>i. shutdown_one_coroutine ex_rt 0 (index_of i)) is ex_shut = Inr ex_shut" for "is"
    by (induction "is") (simp_all add: ex_killed)
  ultimately show ?thesis
    using n ex_kill by (simp add: Handler_shutdown_def ex_killing_def index_of_def)
qed

text \<open>All of them are reachable.\<close>

lemma ex_booted: "booted ex_rt ex_mail ex_ok ex_boot"
proof -
  obtain m' where "Mioco_run ex_rt (new_configured ex_config) [1] 1 0 ex_io 1 1 = Inr (m', ex_boot)"
    using ex_boot_runs by blast
  moreover have "mset [1] = mset [1..<cfg_thread_num (m_config (new_configured ex_config))]"
    by (simp add: new_configured_def ex_config_def set_thread_num_def numeral_2_eq_2)
  moreover have "lmail ex_mail (w_env ex_io) = (\<lambda>t. [])" by (simp add: lmail_def ex_mail_def ex_io_def)
  ultimately show ?thesis unfolding booted_def using ex_runtime_laws ex_code_unwinds by blast
qed

lemma ex_boot_reachable: "reachable ex_rt ex_mail ex_ok ex_boot"
  by (rule reach.intros(1)) (rule ex_booted)

lemma ex_yielded_step: "istep ex_rt ex_mail ex_boot ex_yielded"
  by (rule ITick [OF ex_tick1])

lemma ex_yielded_reachable: "reachable ex_rt ex_mail ex_ok ex_yielded"
  by (rule reach.intros(2) [OF ex_boot_reachable ex_yielded_step])

lemma ex_done_reachable: "reachable ex_rt ex_mail ex_ok ex_done"
  by (rule reach.intros(2) [OF ex_yielded_reachable ITick [OF ex_tick2]])

lemma ex_asked_reachable: "reachable ex_rt ex_mail ex_ok ex_asked"
  unfolding ex_asked_def
  by (rule reach.intros(2) [OF ex_boot_reachable IOutside]) (simp add: lmail_def ex_mail_def ex_boot_def ex_world_def Let_def fun_eq_iff)

lemma ex_shut_reachable: "reachable ex_rt ex_mail ex_ok ex_shut"
proof (rule reach.intros(2) [OF ex_asked_reachable INotify])
  show "ex_mail (w_env ex_asked) 0 = Shutdown # []" by (simp add: ex_mail_def ex_asked_def)
  show "ex_mail (\<lambda>t. []) = (ex_mail (w_env ex_asked))(0 := [])" by (simp add: ex_mail_def ex_asked_def fun_eq_iff)
  have "set_env (\<lambda>t. []) ex_asked = ex_boot" by (simp add: set_env_def ex_asked_def ex_boot_def ex_world_def Let_def)
  then show "Handler_notify ex_rt 0 Shutdown (set_env (\<lambda>t. []) ex_asked) = Some (Inr ex_shut)" by (simp add: ex_shutdown)
qed

lemma ex_stopped_step: "istep ex_rt ex_mail ex_done ex_stopped"
proof (rule INotify)
  show "ex_mail (w_env ex_done) 0 = Terminate # []" by (simp add: ex_mail_def ex_done_def ex_world_def Let_def)
  show "ex_mail (w_env ex_stopped) = (ex_mail (w_env ex_done))(0 := [])"
    by (simp add: ex_mail_def ex_stopped_def ex_done_def ex_world_def Let_def fun_eq_iff)
  show "Handler_notify ex_rt 0 Terminate (set_env (w_env ex_stopped) ex_done) = Some (Inr ex_stopped)"
    by (simp add: ex_stopped_def ex_done_def ex_world_def set_env_def ex_rt_def ex_mio_def debug_assert_def Let_def)
qed

end
