(* ===== verification/Guarantees.thy ===== *)
theory Guarantees
  imports Example
begin

text \<open>
  What an instance guarantees in every state it can reach, whatever the callbacks, messages and
  outside events were and in whatever order they came. \<open>reachable rt mail ok w\<close> says that \<open>w\<close> is such a
  state of an instance whose parameters behave as documented (\<open>runtime_laws\<close>, \<open>code_unwinds\<close>).
\<close>

lemma flying_of_lmail [simp]: "flying_of (lmail mail e t) = flying_of (mail e t)"
  by (simp add: lmail_def)

lemma ex_states:
  "co_state (w_cos ex_boot 0) = Ready" "co_handler_shared (w_cos ex_boot 0) = Some 0"
  "co_state (w_cos ex_yielded 0) = Ready" "co_handler_shared (w_cos ex_yielded 0) = Some 0"
  "st_held (w_sched ex_yielded 0) = [set_is_yielding (ctrl_new 0)]"
  "\<not> w_shutting ex_boot 0" "\<not> w_shutting ex_yielded 0" "w_shutting ex_shut 0"
  "co_handler_shared (w_cos ex_shut 0) = Some 0"
  by (simp_all add: ex_boot_def ex_yielded_def ex_shut_def ex_world_def ex_co_def Let_def)

text \<open>The threads and slots that hold a coroutine.\<close>

definition slots_of :: "('el, 'sl, 'k, 'sg, 'sc) rt \<Rightarrow> co_ref \<Rightarrow> ('el, 'sl, 'k, 'sg, 'sc) world \<Rightarrow> (thread_id \<times> co_id) set" where
  "slots_of rt r w = {(t, i). slab_get (rt_slab rt) i (hs_coroutines (w_hs w t)) = Some r}"

text \<open>
  C9: the instance's coroutine counter is exact. In every reachable state \<open>w_num\<close>, the atomic counter
  that \<open>coroutines_inc\<close> and \<open>coroutines_dec\<close> keep, is the number of coroutines that are not finished.
\<close>

theorem live_count:
  assumes "reachable rt mail ok w"
  shows "finite {r. alive w r} \<and> w_num w = of_nat (card {r. alive w r})"
  using linv_count [OF reachable_linv [OF assms]] by (simp add: count_ok_def)

theorem live_count_witness:
  "finite {r. alive ex_yielded r} \<and> w_num ex_yielded = of_nat (card {r. alive ex_yielded r})"
  by (rule live_count [OF ex_yielded_reachable])

text \<open>
  C2: every live coroutine is in exactly one place: in one slot of one thread's slab, which is the slot its
  own id names, or in flight in one \<open>Migration\<close> message in one mailbox, and never in both.
\<close>

theorem one_place:
  assumes "reachable rt mail ok w" and "alive w r"
  shows "(\<exists>t. co_handler_shared (w_cos w r) = Some t \<and> slots_of rt r w = {(t, co_the_id (w_cos w r))}
            \<and> (\<forall>t'. r \<notin> set (flying_of (mail (w_env w) t'))))
       \<or> (co_handler_shared (w_cos w r) = None \<and> slots_of rt r w = {}
            \<and> (\<exists>!t. r \<in> set (flying_of (mail (w_env w) t))) \<and> (\<forall>t. count (mset (flying_of (mail (w_env w) t))) r \<le> 1))"
proof -
  let ?L = "ledger_of rt mail w"
  note L = reachable_linv [OF assms(1)]
  have sl: "(t, i) \<in> slots_of rt r w \<longleftrightarrow> lg_home ?L r = Some (t, i)" for t i
    using slot_home [OF L, of t i r] home_slot [OF L, of r t i] by (auto simp: slots_of_def)
  show ?thesis
  proof (cases "co_handler_shared (w_cos w r)")
    case (Some t)
    with assms(2) have h: "lg_home ?L r = Some (t, co_the_id (w_cos w r))" by (simp add: lg_home_alive)
    with sl have "slots_of rt r w = {(t, co_the_id (w_cos w r))}" by auto
    moreover have "r \<notin> set (flying_of (mail (w_env w) t'))" for t' using flight_live [OF L, of r t'] h by auto
    ultimately show ?thesis using Some by blast
  next
    case None
    then have h: "lg_home ?L r = None" by (simp add: ledger_of_def)
    with sl have "slots_of rt r w = {}" by auto
    moreover have "\<exists>t. r \<in> set (flying_of (mail (w_env w) t))"
      using homeless_flies [OF L, of r] h assms(2) by auto
    moreover have "count (mset (flying_of (mail (w_env w) t))) r \<le> 1" for t
      using flight_distinct [OF L, of t] by (simp add: distinct_count_atmost_1)
    ultimately show ?thesis using None flight_unique [OF L, of r] by auto
  qed
qed

theorem one_place_witness:
  "alive ex_boot 0
   \<and> ((\<exists>t. co_handler_shared (w_cos ex_boot 0) = Some t \<and> slots_of ex_rt 0 ex_boot = {(t, co_the_id (w_cos ex_boot 0))}
         \<and> (\<forall>t'. 0 \<notin> set (flying_of (ex_mail (w_env ex_boot) t'))))
     \<or> (co_handler_shared (w_cos ex_boot 0) = None \<and> slots_of ex_rt 0 ex_boot = {}
         \<and> (\<exists>!t. 0 \<in> set (flying_of (ex_mail (w_env ex_boot) t)))
         \<and> (\<forall>t. count (mset (flying_of (ex_mail (w_env ex_boot) t))) 0 \<le> 1)))"
  using one_place [OF ex_boot_reachable, of 0] by (simp add: alive_def ex_states)

text \<open>
  C8: an instance terminates only when it is done. As long as fewer than \<open>2 ^ 64\<close> coroutines were ever
  spawned, a \<open>Terminate\<close> message in any mailbox means that no coroutine is left; the assertion of
  \<open>Handler::notify\<close> on it holds and the handler shuts its event loop down.
\<close>

theorem terminate_only_when_done:
  assumes "reachable rt mail ok w" and "w_nco w < 2 ^ 64" and "Terminate \<in> set (mail (w_env w) t)"
  shows "{r. alive w r} = {} \<and> Handler_notify rt th Terminate w = Some (Inr (set_env (mio_shutdown (rt_mio rt) th (w_env w)) w))"
proof -
  note L = reachable_linv [OF assms(1)]
  have live: "{r. alive w r} = {}" using linv_term [OF L, of t] assms(2,3) by (simp add: reachable_Terminate)
  with linv_count [OF L] have "w_num w = 0" by (simp add: count_ok_def)
  with live show ?thesis by (simp add: debug_assert_def)
qed

theorem terminate_only_when_done_witness:
  "{r. alive ex_done r} = {}
   \<and> Handler_notify ex_rt 1 Terminate ex_done = Some (Inr (set_env (mio_shutdown (rt_mio ex_rt) 1 (w_env ex_done)) ex_done))"
  by (rule terminate_only_when_done [OF ex_done_reachable, where t = 1])
    (simp_all add: ex_done_def ex_world_def ex_mail_def Let_def)

text \<open>
  C1: each ready coroutine has exactly one control. On a thread that is not shutting down, the queues of
  spawned and ready coroutines and the scheduler's delayed queue together hold one control of every
  coroutine of the thread that is ready, and no control of any other: no ready coroutine is
  forgotten and none can be resumed twice.
\<close>

theorem ready_has_one_control:
  assumes "reachable rt mail ok w" and "\<not> w_shutting w t"
  shows "count (mset (map ctrl_rc (hs_spawned (w_hs w t) @ hs_ready (w_hs w t) @ st_held (w_sched w t)))) r
    = (if is_ready (co_state (w_cos w r)) \<and> co_handler_shared (w_cos w r) = Some t then 1 else 0)"
proof -
  note C = reachable_ctl [OF assms(1)]
  have rdy: "is_ready s \<longleftrightarrow> s = Ready" for s by (cases s) simp_all
  have "r \<in> set (owned w t) \<longleftrightarrow> co_state (w_cos w r) = Ready \<and> co_handler_shared (w_cos w r) = Some t"
    using ctl_owned [OF C assms(2), of r] ctl_ready [OF C assms(2), of r] by auto
  moreover have "mset (map ctrl_rc (hs_spawned (w_hs w t) @ hs_ready (w_hs w t) @ st_held (w_sched w t))) = mset (owned w t)"
    by (simp add: owned_def)
  ultimately show ?thesis using ctl_distinct [OF C assms(2)] distinct_count_atmost_1 [of "owned w t"] by (simp add: rdy)
qed

theorem ready_has_one_control_witness:
  "count (mset (map ctrl_rc (hs_spawned (w_hs ex_yielded 0) @ hs_ready (w_hs ex_yielded 0) @ st_held (w_sched ex_yielded 0)))) 0 = 1"
  using ready_has_one_control [OF ex_yielded_reachable, of 0 0] by (simp add: ex_states)



text \<open>
  C12: shutting down kills every coroutine. After \<open>Handler::shutdown\<close> on a thread returned, and in every state
  after that, no live coroutine is attached to the thread; a coroutine that arrives later by
  migration is killed on arrival.
\<close>

theorem shutdown_finishes_all:
  assumes "reachable rt mail ok w" and "w_shutting w t" and "co_handler_shared (w_cos w r) = Some t"
  shows "co_state (w_cos w r) = Finished \<and> slots_of rt r w = {}"
  using assms(1)
proof (rule reachableE)
  fix L0
  assume I: "inst L0 rt mail ok {} w"
  from instD(5) [OF I] assms(2,3) have d: "\<not> alive w r" by (simp add: quenched_def)
  moreover have "slots_of rt r w = {}" using slot_attached [OF I] d by (auto simp: slots_of_def)
  ultimately show ?thesis by (simp add: alive_def)
qed

theorem shutdown_finishes_all_witness:
  "w_shutting ex_shut 0 \<and> co_state (w_cos ex_shut 0) = Finished \<and> slots_of ex_rt 0 ex_shut = {}"
  using shutdown_finishes_all [OF ex_shut_reachable, of 0 0] by (simp add: ex_states)

text \<open>
  C7: the runtime refines the ledger. Every callback of the event loop, with everything it runs, is a
  sequence of steps of the abstract ledger (spawn, finish, migrate, attach, terminate), and every
  reachable state abstracts to a ledger that the specification reaches.
\<close>

theorem runtime_refines_ledger:
  assumes "reachable rt mail ok w" and "istep rt mail w w'"
  shows "lstep\<^sup>*\<^sup>* (ledger_of rt mail w) (ledger_of rt mail w') \<and> reach linit lstep (ledger_of rt mail w)"
  using assms(1)
proof (rule reachableE)
  fix L0
  assume i: "linit L0" and I: "inst L0 rt mail ok {} w"
  have "lstep\<^sup>*\<^sup>* L0 (ledger_of rt mail w)" using instD(7) [OF I] by (simp add: lfrom_def)
  then have "reach linit lstep (ledger_of rt mail w)"
    by (induction rule: rtranclp_induct) (auto intro: reach.intros i)
  with reachable_lsteps [OF assms] show ?thesis by blast
qed

theorem runtime_refines_ledger_witness:
  "istep ex_rt ex_mail ex_boot ex_yielded
   \<and> lstep\<^sup>*\<^sup>* (ledger_of ex_rt ex_mail ex_boot) (ledger_of ex_rt ex_mail ex_yielded)
   \<and> reach linit lstep (ledger_of ex_rt ex_mail ex_boot)"
  using runtime_refines_ledger [OF ex_boot_reachable ex_yielded_step] ex_yielded_step by blast

text \<open>
  C18: the end of a coroutine is final. Over any run from a reachable state, a coroutine that has finished
  stays finished, and no slab slot and no message holds it again; once no coroutine is left, none is ever
  spawned again, so an instance that was told to terminate has nothing more to run.
\<close>

theorem finished_for_good:
  assumes "reachable rt mail ok w" and "(istep rt mail)\<^sup>*\<^sup>* w w'" and "r < w_nco w" and "\<not> alive w r"
  shows "\<not> alive w' r \<and> slots_of rt r w' = {} \<and> (\<forall>t. r \<notin> set (flying_of (mail (w_env w') t)))
       \<and> ({q. alive w q} = {} \<longrightarrow> {q. alive w' q} = {})"
proof -
  note run = reachable_run [OF assms(1,2)]
  note L = reachable_linv [OF conjunct1 [OF run]]
  have "\<not> alive w' r" using lsteps_dead [OF conjunct2 [OF run], of r] assms(3,4) by simp
  moreover from this slot_home [OF L, of _ _ r] have "slots_of rt r w' = {}" by (auto simp: slots_of_def)
  moreover from \<open>\<not> alive w' r\<close> flight_live [OF L, of r] have "r \<notin> set (flying_of (mail (w_env w') t))" for t by auto
  ultimately show ?thesis using lsteps_done [OF conjunct2 [OF run]] by simp
qed

theorem finished_for_good_witness:
  "istep ex_rt ex_mail ex_done ex_stopped \<and> 0 < w_nco ex_done \<and> \<not> alive ex_done 0
   \<and> \<not> alive ex_stopped 0 \<and> slots_of ex_rt 0 ex_stopped = {} \<and> {q. alive ex_stopped q} = {}"
proof -
  have d: "0 < w_nco ex_done" "\<not> alive ex_done q" for q
    by (auto simp: alive_def ex_done_def ex_world_def ex_co_def no_coroutine_def Let_def)
  from finished_for_good [OF ex_done_reachable r_into_rtranclp [of "istep ex_rt ex_mail", OF ex_stopped_step] d]
  show ?thesis using d ex_stopped_step by simp
qed



text \<open>What a delivery leaves behind: nothing spawned or ready.\<close>

lemma deliver_empties:
  assumes "deliver_to_scheduler rt th w = Some (Inr w')"
  shows "hs_spawned (w_hs w' th) = [] \<and> hs_ready (w_hs w' th) = []"
proof -
  have "\<exists>u. True \<and> deliver_round rt th u = Inl (Inr w')"
    by (rule rust_loop_inv [OF assms [unfolded deliver_to_scheduler_def]]) simp_all
  then obtain u where "deliver_round rt th u = Inl (Inr w')" by blast
  then have "w' = u \<and> hs_spawned (w_hs u th) = [] \<and> hs_ready (w_hs u th) = []"
    by (auto simp: deliver_round_def Let_def bindR_eq_Inr split: list.splits sum.splits if_splits)
  then show ?thesis by simp
qed



text \<open>With the default scheduler a tick resumes everything it held back, in order.\<close>

lemma fifo_scheduler_tick:
  assumes "rt_sched rt = FifoScheduler"
  shows "scheduler_tick rt th w = foldR (resume rt th) (st_held (w_sched w th)) (set_sched th ((w_sched w th)\<lparr>st_held := []\<rparr>, w_sched_shared w) w)"
proof -
  have "foldR (do_action rt th) (map Resume cs) u = foldR (resume rt th) cs u" for cs u
  proof (induction cs arbitrary: u)
    case (Cons c cs)
    then show ?case by (cases "resume rt th c u") simp_all
  qed simp
  then show ?thesis by (simp add: scheduler_tick_def do_actions_def assms FifoScheduler_def fifo_tick_eq)
qed

text \<open>
  C16: no ready coroutine starves. When a thread is between two callbacks, with nothing left to deliver, the
  next tick of its event loop resumes every coroutine of the thread that is ready, after those that
  were held back before it and at most once.
\<close>

theorem ready_runs_next_tick:
  assumes "reachable rt mail ok w" and "rt_sched rt = FifoScheduler" and "\<not> w_shutting w th"
    and "hs_spawned (w_hs w th) = []" and "hs_ready (w_hs w th) = []"
    and "is_ready (co_state (w_cos w r))" and "co_handler_shared (w_cos w r) = Some th" and "Handler_tick rt th w = Some (Inr w')"
  shows "\<exists>cs1 c cs2 u v. st_held (w_sched w th) = cs1 @ c # cs2 \<and> ctrl_rc c = r \<and> r \<notin> ctrl_rc ` set (cs1 @ cs2)
    \<and> foldR (resume rt th) cs1 (set_sched th ((w_sched w th)\<lparr>st_held := []\<rparr>, w_sched_shared w) w) = Inr u
    \<and> resume rt th c u = Inr v"
proof -
  note C = reachable_ctl [OF assms(1)]
  have "co_state (w_cos w r) = Ready" using assms(6) by (cases "co_state (w_cos w r)") simp_all
  with ctl_ready [OF C assms(3)] assms(7) have "r \<in> set (owned w th)" by simp
  with assms(4,5) have "r \<in> ctrl_rc ` set (st_held (w_sched w th))" by (simp add: owned_def)
  then obtain c where "c \<in> set (st_held (w_sched w th))" and r: "ctrl_rc c = r" by blast
  then obtain cs1 cs2 where s: "st_held (w_sched w th) = cs1 @ c # cs2" using split_list by metis
  from ctl_distinct [OF C assms(3)] have "distinct (map ctrl_rc (cs1 @ c # cs2))" using assms(4,5) by (simp add: owned_def s)
  then have d: "r \<notin> ctrl_rc ` set (cs1 @ cs2)" using r by auto
  from assms(3,8) obtain w1 where "scheduler_tick rt th w = Inr w1"
    by (auto simp: Handler_tick_def bindO_eq_Inr)
  then have "foldR (resume rt th) (cs1 @ c # cs2) (set_sched th ((w_sched w th)\<lparr>st_held := []\<rparr>, w_sched_shared w) w) = Inr w1"
    by (simp add: fifo_scheduler_tick [OF assms(2)] s)
  then obtain u v where "foldR (resume rt th) cs1 (set_sched th ((w_sched w th)\<lparr>st_held := []\<rparr>, w_sched_shared w) w) = Inr u"
    "resume rt th c u = Inr v" by (auto simp: foldR_append bindR_eq_Inr)
  with s r d show ?thesis by blast
qed

theorem ready_runs_next_tick_witness:
  "\<exists>u v. foldR (resume ex_rt 0) [] (set_sched 0 ((w_sched ex_yielded 0)\<lparr>st_held := []\<rparr>, w_sched_shared ex_yielded) ex_yielded) = Inr u
    \<and> resume ex_rt 0 (set_is_yielding (ctrl_new 0)) u = Inr v"
proof -
  have q: "hs_spawned (w_hs ex_yielded 0) = []" "hs_ready (w_hs ex_yielded 0) = []"
    by (simp_all add: ex_yielded_def ex_world_def HandlerShared_new_def Let_def)
  from ready_runs_next_tick [OF ex_yielded_reachable ex_sched ex_states(7) q _ ex_states(4) ex_tick2] show ?thesis
    by (simp add: ex_states(3,5) Cons_eq_append_conv)
qed

end
