(* ===== verification/Custom_Scheduler.thy ===== *)
theory Custom_Scheduler
  imports Guarantees
begin

text \<open>
  Schedulers that are not the default one (\<open>Config::set_scheduler\<close>). The two that the repository's own tests
  install (\<^verbatim>\<open>src/tests.rs\<close>) obey the interface, so everything shown of an instance holds with them, and what
  they test is shown for every scheduler: a control that is dropped kills its coroutine.
\<close>

text \<open>
  \<open>scheduler_kill_on_initial_drop\<close> and \<open>scheduler_kill_on_drop\<close>: schedulers without state. A control that is
  an argument and is not used is dropped when the callback returns.
\<close>

type_synonym stateless = "(unit, unit) scheduler"

definition kill_on_initial_drop :: stateless where
  "kill_on_initial_drop =
     \<lparr>sch_spawn_thread = (\<lambda>g. (\<lparr>st_held = []\<rparr>, g)),
      sch_spawned = (\<lambda>ud c s. ([Drop c], s)),
      sch_ready = (\<lambda>ud c s. ([Drop c], s)),
      sch_tick = default_tick, sch_timeout = default_timeout\<rparr>"

definition kill_on_drop :: stateless where
  "kill_on_drop =
     \<lparr>sch_spawn_thread = (\<lambda>g. (\<lparr>st_held = []\<rparr>, g)),
      sch_spawned = (\<lambda>ud c s. ([Resume c], s)),
      sch_ready = (\<lambda>ud c s. ([Drop c], s)),
      sch_tick = default_tick, sch_timeout = default_timeout\<rparr>"

interpretation initial_drop: scheduler_thread "sch_spawned kill_on_initial_drop ud" "sch_ready kill_on_initial_drop ud"
  "sch_tick kill_on_initial_drop ud" "\<lambda>s. st_held (fst s)" for ud
  by unfold_locales (simp_all add: kill_on_initial_drop_def default_tick_def)

interpretation ready_drop: scheduler_thread "sch_spawned kill_on_drop ud" "sch_ready kill_on_drop ud"
  "sch_tick kill_on_drop ud" "\<lambda>s. st_held (fst s)" for ud
  by unfold_locales (simp_all add: kill_on_drop_def default_tick_def)

lemma stateless_laws: "sched_laws kill_on_initial_drop" "sched_laws kill_on_drop"
  unfolding sched_laws_def using initial_drop.scheduler_thread_axioms ready_drop.scheduler_thread_axioms
  by (auto simp: kill_on_initial_drop_def kill_on_drop_def default_timeout_def)

text \<open>What a kill leaves of the rest of the instance, read off the ledger and the view of the controls.\<close>

lemma kill_rest:
  assumes "reachable rt mail ok w" and "alive w (ctrl_rc c)" and "kill rt th c w = Inr w'"
  obtains h ts where "co_handler_shared (w_cos w (ctrl_rc c)) = Some h"
    and "ledger_of rt mail w' = led_finish (ctrl_rc c) h (co_the_id (w_cos w (ctrl_rc c))) ts (ledger_of rt mail w)"
    and "cview {ctrl_rc c} {ctrl_rc c} w' = cview {ctrl_rc c} {ctrl_rc c} w" and "\<not> alive w' (ctrl_rc c)"
  using assms(1)
proof (rule reachableE)
  fix L0
  assume R: "runtime_laws rt mail ok" "code_unwinds rt" and I: "inst L0 rt mail ok {} w"
  have "ctx_ok (w_cos w (ctrl_rc c))" using instD(6) [OF I] assms(2) by (simp add: ctxs_def)
  from kill_effect [OF R instD(1) [OF I] assms(2) this assms(3)] that show thesis by blast
qed

text \<open>
  C14: dropping a control kills its coroutine, and only that one. When a control that was neither resumed nor
  migrated is dropped, its coroutine ends: it is finished, its slot is free, the instance counts one
  coroutine less. Every other coroutine keeps its state, its thread and its slot, and the queues and the
  schedulers hold the controls they held.
\<close>

theorem dropped_control_kills:
  assumes "reachable rt mail ok w" and "alive w (ctrl_rc c)" and "\<not> was_handled c" and "ctrl_drop rt th c w = Inr w'"
  shows "co_state (w_cos w' (ctrl_rc c)) = Finished \<and> slots_of rt (ctrl_rc c) w' = {} \<and> w_num w' = w_num w - 1
    \<and> (\<forall>q. q \<noteq> ctrl_rc c \<longrightarrow> co_state (w_cos w' q) = co_state (w_cos w q)
          \<and> co_handler_shared (w_cos w' q) = co_handler_shared (w_cos w q) \<and> slots_of rt q w' = slots_of rt q w)
    \<and> (\<forall>t. owned w' t = owned w t)"
proof -
  let ?r = "ctrl_rc c"
  have "kill rt th c w = Inr w'" using assms(3,4) by (simp add: ctrl_drop_def)
  then obtain h ts where h: "co_handler_shared (w_cos w ?r) = Some h"
    and l: "ledger_of rt mail w' = led_finish ?r h (co_the_id (w_cos w ?r)) ts (ledger_of rt mail w)"
    and v: "cview {?r} {?r} w' = cview {?r} {?r} w" and d: "\<not> alive w' ?r"
    by (rule kill_rest [OF assms(1,2)])
  note L = reachable_linv [OF assms(1)]
  note V = cviewD [OF v]
  have sl: "slab_get (rt_slab rt) i (hs_coroutines (w_hs w' t)) =
      (if t = h \<and> i = co_the_id (w_cos w ?r) then None else slab_get (rt_slab rt) i (hs_coroutines (w_hs w t)))" for t i
    using arg_cong [OF l, of "\<lambda>L. lg_slot L t i"] by (simp add: led_finish_def set_slot_def ledger_of_def)
  from home_slot [OF L lg_home_alive [OF assms(2) h]]
  have own: "slab_get (rt_slab rt) (co_the_id (w_cos w ?r)) (hs_coroutines (w_hs w h)) = Some ?r" by simp
  have "slots_of rt ?r w' = {}"
    using slot_home [OF L, of _ _ ?r] lg_home_alive [OF assms(2) h, of rt mail] by (auto simp: slots_of_def sl split: if_splits)
  moreover have "slots_of rt q w' = slots_of rt q w" if "q \<noteq> ?r" for q
    using that own by (auto simp: slots_of_def sl split: if_splits)
  moreover have "w_num w' = w_num w - 1" using arg_cong [OF l, of lg_num] by (simp add: led_finish_def ledger_of_def)
  moreover have "owned w' t = owned w t" for t using V by (simp add: owned_def)
  ultimately show ?thesis using V d by (auto simp: alive_def)
qed

theorem dropped_control_kills_witness:
  "\<exists>w'. ctrl_drop ex_rt 0 (ctrl_new 0) ex_boot = Inr w' \<and> co_state (w_cos w' 0) = Finished
    \<and> slots_of ex_rt 0 w' = {} \<and> w_num w' = 0"
proof -
  have "\<exists>w'. ctrl_drop ex_rt 0 (ctrl_new 0) ex_boot = Inr w'"
    by (simp add: ctrl_drop_def kill_def ex_eval ex_run ex_end)
  then obtain w' where d: "ctrl_drop ex_rt 0 (ctrl_new 0) ex_boot = Inr w'" by blast
  have "alive ex_boot 0" "w_num ex_boot = 1" by (simp_all add: alive_def ex_eval Let_def)
  with dropped_control_kills [OF ex_boot_reachable _ _ d] d show ?thesis by (simp add: ctrl_new_def)
qed

end
