(* ===== verification/Select.thy ===== *)
theory Select
  imports Coroutine
begin

text \<open>
  The \<open>select!\<close> macro of \<^verbatim>\<open>src/src/mod.rs\<close>. Its arms are sources with a direction and a block of code. It
  adds every source to the next select operation, waits, and then goes through the arms in order,
  running the code of those whose source carries the id of the event. The code of an arm is a function
  on the world, with all the switches it makes inside.
\<close>

type_synonym arm = "src_ref \<times> RW"

text \<open>The \<open>@wrap1\<close> rules.\<close>

definition select_add_all ::
  "thread_id \<Rightarrow> arm list \<Rightarrow> ('el, 'sl, 'k, 'sg, 'sc) world \<Rightarrow> ('el, 'sl, 'k, 'sg, 'sc) world res" where
  "select_add_all th arms w = foldR (\<lambda>(s, rw). select_add th s rw) arms w"

text \<open>\<open>Evented::id\<close>, which unwraps the id of the source.\<close>

definition id_prv :: "src_ref \<Rightarrow> ('el, 'sl, 'k, 'sg, 'sc) world \<Rightarrow> EventSourceId res" where
  "id_prv s w = unwrap (ec_id (es_common (w_srcs w s)))"

text \<open>The \<open>@wrap2\<close> rules.\<close>

definition select_dispatch ::
  "Event \<Rightarrow> (arm \<times> (('el, 'sl, 'k, 'sg, 'sc) world \<Rightarrow> ('el, 'sl, 'k, 'sg, 'sc) world res)) list \<Rightarrow>
   ('el, 'sl, 'k, 'sg, 'sc) world \<Rightarrow> ('el, 'sl, 'k, 'sg, 'sc) world res" where
  "select_dispatch ret arms w =
     foldR (\<lambda>((s, rw), code) w. bindR (id_prv s w) (\<lambda>i. if Event_id ret = i then code w else Inr w)) arms w"

text \<open>What the ids of the sources are after the arms were added: their places in the list.\<close>

lemma select_add_ids:
  assumes "w_current w th = Some co"
  shows "select_add th s rw w = Inr (push_blocked co s rw w)"
  using assms by (simp add: select_add_def tl_current_coroutine_def)

lemma push_blocked_simps [simp]:
  "w_current (push_blocked co s rw w) = w_current w"
  "co_blocked_on (w_cos (push_blocked co s rw w) co) = co_blocked_on (w_cos w co) @ [s]"
  "ec_id (es_common (w_srcs (push_blocked co s rw w) s')) =
     (if s' = s then Some (EventSourceId (of_nat (length (co_blocked_on (w_cos w co))))) else ec_id (es_common (w_srcs w s')))"
  by (simp_all add: push_blocked_def upd_co_def mark_blocked_def set_src_def Let_def)

lemma select_add_all_ids:
  assumes "w_current w th = Some co" and "distinct (map fst arms)"
  shows "\<exists>w1. select_add_all th arms w = Inr w1 \<and> w_current w1 = w_current w
    \<and> co_blocked_on (w_cos w1 co) = co_blocked_on (w_cos w co) @ map fst arms
    \<and> (\<forall>j < length arms. ec_id (es_common (w_srcs w1 (fst (arms ! j)))) =
         Some (EventSourceId (of_nat (length (co_blocked_on (w_cos w co)) + j))))
    \<and> (\<forall>s. s \<notin> fst ` set arms \<longrightarrow> ec_id (es_common (w_srcs w1 s)) = ec_id (es_common (w_srcs w s)))"
  using assms
proof (induction arms arbitrary: w)
  case (Cons a arms)
  obtain s rw where a: "a = (s, rw)" by (cases a)
  let ?w = "push_blocked co s rw w" and ?n = "length (co_blocked_on (w_cos w co))"
  from Cons.prems have "w_current ?w th = Some co" "distinct (map fst arms)" by simp_all
  from Cons.IH [OF this] obtain w1 where I: "select_add_all th arms ?w = Inr w1" "w_current w1 = w_current w"
    "co_blocked_on (w_cos w1 co) = (co_blocked_on (w_cos w co) @ [s]) @ map fst arms"
    "\<And>j. j < length arms \<Longrightarrow> ec_id (es_common (w_srcs w1 (fst (arms ! j)))) = Some (EventSourceId (of_nat (Suc ?n + j)))"
    "\<And>x. x \<notin> fst ` set arms \<Longrightarrow> ec_id (es_common (w_srcs w1 x)) = ec_id (es_common (w_srcs ?w x))"
    by (auto simp: add.commute)
  from Cons.prems(2) a have "s \<notin> fst ` set arms" by simp
  with I(5) have s: "ec_id (es_common (w_srcs w1 s)) = Some (EventSourceId (of_nat ?n))" by simp
  have "ec_id (es_common (w_srcs w1 (fst ((a # arms) ! j)))) = Some (EventSourceId (of_nat (?n + j)))"
    if "j < length (a # arms)" for j
    using that I(4) [of "j - 1"] s a by (cases j) simp_all
  with I Cons.prems(1) a show ?case
    by (intro exI [of _ w1]) (auto simp: select_add_all_def select_add_ids)
qed (simp add: select_add_all_def)

text \<open>An arm whose source does not carry the event's id is skipped.\<close>

lemma select_dispatch_skip:
  assumes "\<And>a. a \<in> set arms \<Longrightarrow> \<exists>i. ec_id (es_common (w_srcs w (fst (fst a)))) = Some i \<and> i \<noteq> event_id ret"
  shows "select_dispatch ret arms w = Inr w"
  using assms
proof (induction arms)
  case (Cons a arms)
  from Cons.prems [of a] Cons.IH Cons.prems show ?case
    by (cases a) (auto simp: select_dispatch_def id_prv_def)
qed (simp add: select_dispatch_def)

lemma select_dispatch_append:
  "select_dispatch ret (xs @ ys) w = bindR (select_dispatch ret xs w) (select_dispatch ret ys)"
  unfolding select_dispatch_def by (rule foldR_append)


text \<open>
  C28: the code of an arm can make a later arm run as well. When the first arm was woken and its code blocks on
  the source of the second, that source gets the id 0 of the event which is still being dispatched,
  and the code of the second arm runs too, though its source caused no event of this select.
\<close>

theorem select_runs_two_arms:
  assumes "co_blocked_on (w_cos w co) = []" and "event_id ret = EventSourceId 0" and "a \<noteq> b"
    and "ec_id (es_common (w_srcs w a)) = Some (EventSourceId 0)"
    and "ec_id (es_common (w_srcs w b)) = Some (EventSourceId 1)"
  shows "select_dispatch ret [((a, RW_read), \<lambda>w. Inr (Coroutine_block_on co b RW_read w)), ((b, RW_read), code)] w
    = code (Coroutine_block_on co b RW_read w)"
proof -
  have "ec_id (es_common (w_srcs (Coroutine_block_on co b RW_read w) b)) = Some (EventSourceId 0)"
    using assms(1) by (simp add: Coroutine_block_on_def upd_co_def)
  then show ?thesis
    using assms by (cases "code (Coroutine_block_on co b RW_read w)") (simp_all add: select_dispatch_def id_prv_def)
qed

end
