(* ===== verification/Lifecycle.thy ===== *)
theory Lifecycle
  imports Example Select
begin

text \<open>
  What single operations of a coroutine's life promise: how its end is reported, how it is woken, what its
  children inherit, and how an instance starts. The examples of theory \<open>Example\<close> serve as witnesses.
\<close>

text \<open>The example coroutine while it runs, and the same where panics are not caught.\<close>

definition ex_running :: "(thread_id \<Rightarrow> Message list, ex_cells, nat, nat, unit fifo_ext) world" where
  "ex_running = ex_yielded\<lparr>w_current := (\<lambda>t. None)(0 := Some 0)\<rparr>"

definition ex_uncaught :: "(thread_id \<Rightarrow> Message list, ex_cells, nat, nat, unit fifo_ext) world" where
  "ex_uncaught = upd_hs 0 (\<lambda>h. h\<lparr>hs_config := (hs_config h)\<lparr>cf_catch_panics := False\<rparr>\<rparr>) ex_running"

lemmas ex_running_eval = ex_running_def ex_uncaught_def ex_eval ex_run ex_end

lemma ex_running_side: "side ex_ok ex_running"
  using mioco.reach_inv [OF ex_yielded_reachable] by (auto simp: running_def inst_def side_def ex_running_def alive_def)

text \<open>The end of a coroutine, taken apart.\<close>

lemma chan_op_chans: "chan_op c f w = Inr (r, w') \<Longrightarrow> \<exists>ch e. f (w_chans w c) (w_env w) = Inr (r, ch, e) \<and> w_chans w' = (w_chans w)(c := ch) \<and> w_env w' = e"
  by (auto simp: chan_op_def bindR_eq_Inr set_env_def set_chan_def)

lemma send_msg_chans: "send_msg rt t m w = Inr w' \<Longrightarrow> w_chans w' = w_chans w"
  by (auto simp: send_msg_def bindR_eq_Inr set_env_def)

lemma broadcast_chans: "broadcast rt t m w = Inr w' \<Longrightarrow> w_chans w' = w_chans w"
  unfolding broadcast_def by (erule foldR_cong_inv) (rule send_msg_chans)

lemma coroutines_dec_frame:
  assumes "coroutines_dec rt h w = Inr w'"
  shows "w_chans w' = w_chans w \<and> w_hs w' = w_hs w"
proof -
  have hs: "broadcast rt h m u = Inr v \<Longrightarrow> w_hs v = w_hs u" for m u v
    unfolding broadcast_def by (erule foldR_cong_inv) (auto simp: send_msg_def bindR_eq_Inr set_env_def)
  from assms show ?thesis
    by (auto simp: coroutines_dec_def bindR_eq_Inr Let_def broadcast_terminate_def split: if_splits
        dest: broadcast_chans hs)
qed

lemma finish_cases:
  assumes "finish rt th ex res w = Inr w'" and "w_current w th = Some co" and "co_handler_shared (w_cos w co) = Some h"
  obtains s w2 w3 ch where
    "coroutines_dec rt h (upd_hs h (\<lambda>x. x\<lparr>hs_coroutines := s\<rparr>)
       (upd_co co (\<lambda>c. c\<lparr>co_blocked_on := [], co_self_rc := None, co_state := Finished\<rparr>) w)) = Inr w2"
    and "report_exit rt h ex res w2 = Inr w3" and "w_chans w2 = w_chans w"
    and "hs_config (w_hs w2 h) = hs_config (w_hs w h)" and "hs_senders (w_hs w2 h) = hs_senders (w_hs w h)"
    and "hs_thread_id (w_hs w2 h) = hs_thread_id (w_hs w h)"
    and "Sender_drop (notify_token rt) (w_chans w3 ex) (w_env w3) = Inr (ch, w_env w')" and "w_chans w' = (w_chans w3)(ex := ch)"
    and "w_cos w' = w_cos w3"
proof -
  let ?w1 = "upd_co co (\<lambda>c. c\<lparr>co_blocked_on := [], co_self_rc := None, co_state := Finished\<rparr>) w"
  from assms obtain s w2 w3 u where dec: "coroutines_dec rt h (upd_hs h (\<lambda>x. x\<lparr>hs_coroutines := s\<rparr>) ?w1) = Inr w2"
    and rep: "report_exit rt h ex res w2 = Inr w3"
    and drp: "chan_op ex (\<lambda>ch e. bindR (Sender_drop (notify_token rt) ch e) (\<lambda>(ch', e'). Inr ((), ch', e'))) w3 = Inr (u, w')"
    by (auto simp: finish_def tl_current_coroutine_def Let_def bindR_eq_Inr upd_co_def)
  note F = coroutines_dec_frame [OF dec]
  from chan_op_chans [OF drp] obtain ch where "Sender_drop (notify_token rt) (w_chans w3 ex) (w_env w3) = Inr (ch, w_env w')"
    "w_chans w' = (w_chans w3)(ex := ch)" by (auto simp: bindR_eq_Inr)
  with that [OF dec rep] F chan_op_cos [OF drp] show thesis by (simp add: upd_hs_def upd_co_def)
qed

lemma Sender_drop_queue: "Sender_drop notify ch e = Inr (ch', e') \<Longrightarrow> ch_queue ch' = ch_queue ch"
  by (auto simp: Sender_drop_def drop_shared_def drop_std_def count_and_notify_def counter_fetch_add_def
      bindR_eq_Inr Let_def split: if_splits)

lemma Sender_send_queue: "Sender_send notify v ch e = Inr (r, ch', e') \<Longrightarrow> ch_rx ch \<Longrightarrow> ch_queue ch' = ch_queue ch @ [v]"
  by (auto simp: Sender_send_def count_and_notify_def counter_fetch_add_def std_push_def bindR_eq_Inr Let_def split: if_splits)

lemma Sender_drop_mail_mono:
  assumes "runtime_laws rt mail ok" and "Sender_drop (notify_token rt) ch e = Inr (ch', e')"
  shows "set (mail e t) \<subseteq> set (mail e' t)"
proof -
  have "x \<in> set (mail v t)" if "notify_token rt t' tk u = Inr v" and "x \<in> set (mail u t)" for t' tk u v x
    using sender_retry_mail [OF runtime_lawsD(1) [OF assms(1)] that(1) [unfolded notify_token_def]] that(2) by auto
  with assms(2) show ?thesis
    by (auto simp: Sender_drop_def drop_shared_def count_and_notify_def counter_fetch_add_def maybe_notify_receiver_def
        bindR_eq_Inr Let_def split: if_splits option.splits)
qed

text \<open>
  C22: whoever joins a coroutine learns how it ended. When a coroutine returns, or panics while panics are
  caught, and its exit channel is still received from, its exit status is the last message of that
  channel, and \<open>join\<close> turns it into the returned value or the panic.
\<close>

theorem exit_status_joined:
  assumes "finish rt th ex res w = Inr w'" and "w_current w th = Some co" and "co_handler_shared (w_cos w co) = Some h"
    and "ch_rx (w_chans w ex)" and "(\<exists>v. res = Inr v) \<or> cf_catch_panics (hs_config (w_hs w h))"
  shows "ch_queue (w_chans w' ex) = ch_queue (w_chans w ex) @ [VExit res] \<and> co_state (w_cos w' co) = Finished
    \<and> join (Some (last (ch_queue (w_chans w' ex)))) = Some (case res of Inr v \<Rightarrow> Joined v | Inl p \<Rightarrow> JoinPanicked p)"
proof -
  from finish_cases [OF assms(1-3)] obtain w2 w3 ch s where
    D: "coroutines_dec rt h (upd_hs h (\<lambda>x. x\<lparr>hs_coroutines := s\<rparr>)
       (upd_co co (\<lambda>c. c\<lparr>co_blocked_on := [], co_self_rc := None, co_state := Finished\<rparr>) w)) = Inr w2"
    and R: "report_exit rt h ex res w2 = Inr w3" and c2: "w_chans w2 = w_chans w"
    and cfg: "hs_config (w_hs w2 h) = hs_config (w_hs w h)"
    and S: "Sender_drop (notify_token rt) (w_chans w3 ex) (w_env w3) = Inr (ch, w_env w')" "w_chans w' = (w_chans w3)(ex := ch)"
    and cos: "w_cos w' = w_cos w3" .
  from R assms(5) cfg obtain r where "chan_op ex (Sender_send (notify_token rt) (VExit res)) w2 = Inr (r, w3)"
    by (auto simp: report_exit_def bindR_eq_Inr split: sum.splits)
  from chan_op_chans [OF this] obtain ch3 e where "Sender_send (notify_token rt) (VExit res) (w_chans w2 ex) (w_env w2) = Inr (r, ch3, e)"
    "w_chans w3 = (w_chans w2)(ex := ch3)" by auto
  with Sender_send_queue assms(4) c2 have "ch_queue (w_chans w3 ex) = ch_queue (w_chans w ex) @ [VExit res]" by fastforce
  with Sender_drop_queue [OF S(1)] S(2) have q: "ch_queue (w_chans w' ex) = ch_queue (w_chans w ex) @ [VExit res]" by simp
  have "co_state (w_cos w' co) = Finished"
    using cos report_exit_cos [OF R] coroutines_dec_cos [OF D] by (simp add: upd_hs_def upd_co_def)
  with q show ?thesis by (simp add: join_def split: sum.splits)
qed

theorem exit_status_joined_witness:
  "\<exists>w'. finish ex_rt 0 0 (Inr 7) ex_running = Inr w' \<and> ch_queue (w_chans w' 0) = [VExit (Inr 7)]
    \<and> join (Some (last (ch_queue (w_chans w' 0)))) = Some (Joined 7)"
proof -
  have "\<exists>w'. finish ex_rt 0 0 (Inr 7) ex_running = Inr w'" by (simp add: ex_running_eval)
  then obtain w' where f: "finish ex_rt 0 0 (Inr 7) ex_running = Inr w'" by blast
  have "w_current ex_running 0 = Some 0" "co_handler_shared (w_cos ex_running 0) = Some 0" "ch_rx (w_chans ex_running 0)"
    "ch_queue (w_chans ex_running 0) = []" by (simp_all add: ex_running_eval)
  with exit_status_joined [OF f, of 0 0] f show ?thesis by (simp add: join_def)
qed

text \<open>
  C23: a panic that is not caught stops the event loop. With \<open>set_catch_panics(false)\<close> a coroutine that
  panics, or is killed, sends nothing to its exit channel; a \<open>PropagatePanic\<close> goes to the mailbox of
  its own thread, whose handler then panics with the same cause.
\<close>

theorem uncaught_panic_propagates:
  assumes "runtime_laws rt mail ok" and "finish rt th ex (Inl cause) w = Inr w'" and "w_current w th = Some co"
    and "co_handler_shared (w_cos w co) = Some h" and "\<not> cf_catch_panics (hs_config (w_hs w h))"
    and "get_sender_to_own_thread (w_hs w h) = Inr t"
  shows "ch_queue (w_chans w' ex) = ch_queue (w_chans w ex) \<and> PropagatePanic cause \<in> set (mail (w_env w') t)
    \<and> Handler_notify rt t (PropagatePanic cause) w' = Some (Inl cause)"
proof -
  from finish_cases [OF assms(2-4)] obtain w2 w3 ch where
    R: "report_exit rt h ex (Inl cause) w2 = Inr w3" and c2: "w_chans w2 = w_chans w"
    and cfg: "hs_config (w_hs w2 h) = hs_config (w_hs w h)" "hs_senders (w_hs w2 h) = hs_senders (w_hs w h)"
      "hs_thread_id (w_hs w2 h) = hs_thread_id (w_hs w h)"
    and S: "Sender_drop (notify_token rt) (w_chans w3 ex) (w_env w3) = Inr (ch, w_env w')" "w_chans w' = (w_chans w3)(ex := ch)"
    by metis
  from assms(6) cfg have "get_sender_to_own_thread (w_hs w2 h) = Inr t"
    by (simp add: get_sender_to_own_thread_def get_sender_to_thread_def split: if_splits)
  with R assms(5) cfg(1) have s: "send_msg rt t (PropagatePanic cause) w2 = Inr w3"
    by (simp add: report_exit_def)
  then have "mail (w_env w3) t = mail (w_env w2) t @ [PropagatePanic cause]"
    using sender_retry_mail [OF runtime_lawsD(1) [OF assms(1)]] by (auto simp: send_msg_def bindR_eq_Inr set_env_def)
  then have "PropagatePanic cause \<in> set (mail (w_env w3) t)" by simp
  with Sender_drop_mail_mono [OF assms(1) S(1)] have "PropagatePanic cause \<in> set (mail (w_env w') t)" by blast
  moreover have "ch_queue (w_chans w' ex) = ch_queue (w_chans w ex)"
    using Sender_drop_queue [OF S(1)] S(2) send_msg_chans [OF s] c2 by simp
  ultimately show ?thesis by simp
qed

theorem uncaught_panic_propagates_witness:
  "\<exists>w'. finish ex_rt 0 0 (Inl KilledUnwind) ex_uncaught = Inr w' \<and> ch_queue (w_chans w' 0) = []
    \<and> PropagatePanic KilledUnwind \<in> set (ex_mail (w_env w') 0)
    \<and> Handler_notify ex_rt 0 (PropagatePanic KilledUnwind) w' = Some (Inl KilledUnwind)"
proof -
  have "\<exists>w'. finish ex_rt 0 0 (Inl KilledUnwind) ex_uncaught = Inr w'"
    by (simp add: ex_running_eval get_sender_to_own_thread_def get_sender_to_thread_def)
  then obtain w' where f: "finish ex_rt 0 0 (Inl KilledUnwind) ex_uncaught = Inr w'" by blast
  have "w_current ex_uncaught 0 = Some 0" "co_handler_shared (w_cos ex_uncaught 0) = Some 0"
    "\<not> cf_catch_panics (hs_config (w_hs ex_uncaught 0))" "get_sender_to_own_thread (w_hs ex_uncaught 0) = Inr 0"
    "ch_queue (w_chans ex_uncaught 0) = []"
    by (simp_all add: ex_running_eval get_sender_to_own_thread_def get_sender_to_thread_def)
  with uncaught_panic_propagates [OF ex_runtime_laws f, of 0 0 0] f show ?thesis by simp
qed

text \<open>What unblocking does to the coroutines.\<close>

lemma rc_deregister_cos:
  fixes w w' :: "('el, 'sl, 'k, 'sg, 'sc) world"
  shows "rc_deregister dbg mio th co s w = Inr w' \<Longrightarrow> w_cos w' = w_cos w"
  by (rule world_more(1)) (auto dest!: rc_deregister_view simp: io_view_def)

lemma unblock_cos:
  assumes "unblock rt th r e w = Inr w'"
  shows "w_cos w' = (w_cos w)(r := (w_cos w r)\<lparr>co_state := Ready, co_last_event := e, co_blocked_on := []\<rparr>)"
proof -
  have "w_cos w' = w_cos (upd_co r (\<lambda>c. c\<lparr>co_blocked_on := []\<rparr>) (upd_co r (\<lambda>c. c\<lparr>co_state := Ready, co_last_event := e\<rparr>) w))"
    by (rule foldR_cong_inv [OF assms [unfolded unblock_def deregister_all_def]]) (rule rc_deregister_cos)
  then show ?thesis by (simp add: upd_co_def)
qed



text \<open>
  \<open>after_resume\<close> without the second deregistration, the simplification that the comment in the source asks for.
\<close>

definition after_resume_once ::
  "('el, 'sl, 'k, 'sg, 'sc) rt \<Rightarrow> thread_id \<Rightarrow> ctrl \<Rightarrow> ('el, 'sl, 'k, 'sg, 'sc) world \<Rightarrow> ('el, 'sl, 'k, 'sg, 'sc) world res" where
  "after_resume_once rt th self w =
     bindR (register_all rt th (ctrl_rc self) w) (\<lambda>(_, w1).
     bindR (start_children (ctrl_rc self) w1) (\<lambda>w2. requeue rt (ctrl_rc self) w2))"

text \<open>
  C26: deregistering again after a self-waking registration does nothing. \<open>register_all\<close> has removed every
  registration itself when it says that the coroutine is awake, so \<open>after_resume\<close> is equivalent to
  the version that does not call \<open>deregister_all\<close>.
\<close>

theorem after_resume_deregisters_once: "after_resume rt th self w = after_resume_once rt th self w"
proof -
  let ?r = "ctrl_rc self"
  have "deregister_all rt th ?r w1 = Inr w1" if "register_all rt th ?r w = Inr (True, w1)" for w1
  proof -
    from that obtain e u where "unblock rt th ?r e u = Inr w1"
      by (auto simp: register_all_def bindR_eq_Inr split: option.splits)
    from unblock_cos [OF this] have e: "co_blocked_on (w_cos w1 ?r) = []" by simp
    then have "(w_cos w1 ?r)\<lparr>co_blocked_on := []\<rparr> = w_cos w1 ?r" by simp
    then have "upd_co ?r (\<lambda>c. c\<lparr>co_blocked_on := []\<rparr>) w1 = w1" by (simp add: upd_co_def)
    with e show ?thesis by (simp add: deregister_all_def)
  qed
  then show ?thesis
    by (cases "register_all rt th ?r w") (auto simp: after_resume_def after_resume_once_def)
qed

text \<open>
  Children start with the user data their parent set for them. After \<open>set_children_userdata\<close> a spawned
  child carries that data and passes it on to its own children, and the parent's own data stays.
\<close>

theorem children_inherit_userdata:
  assumes "runtime_laws rt mail ok" and "side ok w" and "w_current w th = Some co" and "co < w_nco w"
    and "set_children_userdata th d w = Inr w1" and "mioco_spawn rt th k w1 = Inr (cs, w2)"
  shows "co_user_data (w_cos w2 (w_nco w)) = d \<and> co_inherited (w_cos w2 (w_nco w)) = d
    \<and> co_children (w_cos w2 co) = co_children (w_cos w co) @ [w_nco w]
    \<and> co_user_data (w_cos w2 co) = co_user_data (w_cos w co)"
proof -
  let ?w1 = "upd_co co (\<lambda>c. c\<lparr>co_inherited := d\<rparr>) w"
  from assms(3,5) have w1: "w1 = ?w1" by (simp add: set_children_userdata_def tl_current_coroutine_def)
  have q1: "quiet mail w ?w1" by (rule quiet_upd_co) simp_all
  from assms(3,6) obtain v h child u where n: "new_channel ?w1 = (cs, v)"
    and sp: "Coroutine_spawn rt h (co_inherited (w_cos v co)) k (fst cs) v = Inr (child, u)"
    and w2: "w2 = upd_co co (\<lambda>c. c\<lparr>co_children := co_children c @ [child]\<rparr>) u"
    by (auto simp: w1 mioco_spawn_def spawn_child_def tl_current_coroutine_def upd_co_def bindR_eq_Inr split: prod.splits)
  have vc: "w_cos v = w_cos ?w1" "w_nco v = w_nco w"
    using n by (auto simp: new_channel_def alloc_channel_def Let_def set_src_def set_chan_def upd_co_def)
  have "side ok v" by (rule quiet_side [OF new_channel_quiet [OF n] quiet_side [OF q1 assms(2)]])
  from spawn_effect [OF assms(1) this sp] have child: "child = w_nco w"
    and c: "co_user_data (w_cos u child) = d" "co_inherited (w_cos u child) = d"
    by (auto simp: vc upd_co_def)
  from sp child have "w_cos u co = w_cos v co"
    using assms(4) by (auto simp: Coroutine_spawn_def Let_def vc upd_co_def upd_hs_def coroutines_inc_def split: option.splits)
  with c child assms(4) show ?thesis by (simp add: w2 upd_co_def vc)
qed

theorem children_inherit_userdata_witness:
  "\<exists>w1 cs w2. set_children_userdata 0 (Some (3, 5)) ex_running = Inr w1 \<and> mioco_spawn ex_rt 0 2 w1 = Inr (cs, w2)
    \<and> co_user_data (w_cos w2 1) = Some (3, 5)"
proof -
  let ?w1 = "upd_co 0 (\<lambda>c. c\<lparr>co_inherited := Some (3, 5)\<rparr>) ex_running"
  have s: "set_children_userdata 0 (Some (3, 5)) ex_running = Inr ?w1"
    by (simp add: set_children_userdata_def tl_current_coroutine_def ex_running_def)
  have "free_cell 4 0 [0 \<mapsto> 0] = Some 1" by (simp add: numeral_eq_Suc)
  then have "\<exists>cs w2. mioco_spawn ex_rt 0 2 ?w1 = Inr (cs, w2)"
    by (simp add: mioco_spawn_def spawn_child_def new_channel_def alloc_channel_def set_src_def set_chan_def ex_running_def ex_eval ex_run)
  then obtain cs w2 where m: "mioco_spawn ex_rt 0 2 ?w1 = Inr (cs, w2)" by blast
  have "w_current ex_running 0 = Some 0" "w_nco ex_running = 1" by (simp_all add: ex_running_eval)
  with children_inherit_userdata [OF ex_runtime_laws ex_running_side _ _ s m, of 0] s m show ?thesis by auto
qed

text \<open>
  An instance starts exactly when it has a thread. With a slab that has room at its creation, \<open>run\<close> gets to
  its event loops if and only if it was configured with at least one thread; with none it panics on the
  missing first event loop.
\<close>

theorem run_starts_iff_threads:
  assumes "slab_laws (rt_slab rt) ok" and "slab_has_remaining (rt_slab rt) (slab_new_starting_at (rt_slab rt) STARTING_ID 512)"
  shows "(\<exists>r. Mioco_run rt m order f ex io nchan nsrc = Inr r) = (cfg_thread_num (m_config m) \<noteq> 0)
    \<and> (cfg_thread_num (m_config m) = 0 \<longrightarrow> Mioco_run rt m order f ex io nchan nsrc = Inl UnwrapNone)"
proof (cases "cfg_thread_num (m_config m) = 0")
  case False
  let ?w = "fresh_world rt (m_config m) order io nchan nsrc" and ?s = "slab_new_starting_at (rt_slab rt) STARTING_ID 512"
  from assms(1) have "\<forall>s. ok s \<longrightarrow> slab_has_remaining (rt_slab rt) s \<longrightarrow>
      (\<forall>x. slab_insert (rt_slab rt) x s \<noteq> None) \<and> (\<forall>f. slab_insert_with (rt_slab rt) f s \<noteq> None)"
    unfolding slab_laws_def by (elim conjE) assumption
  with fresh_slab(1) [OF assms(1)] assms(2) obtain i s where i: "slab_insert_with (rt_slab rt) (\<lambda>i. 0) ?s = Some (i, s)"
    by (metis surj_pair option.exhaust)
  with slab_insert_laws(2) [OF assms(1) fresh_slab(1) [OF assms(1)]] have "slab_get (rt_slab rt) i s = Some 0" by simp
  with i assms(2) have "\<exists>r. Coroutine_spawn rt 0 (cfg_user_data (m_config m)) f ex ?w = Inr r"
    by (simp add: Coroutine_spawn_def Let_def HandlerShared_new_def slab_reserve_def upd_hs_def coroutines_inc_def)
  then obtain r v where "Coroutine_spawn rt 0 (cfg_user_data (m_config m)) f ex ?w = Inr (r, v)" by auto
  with False show ?thesis by (simp add: Mioco_run_def thread_loop_start_def Let_def)
qed (simp add: Mioco_run_def)

theorem run_starts_iff_threads_witness:
  "(\<exists>r. Mioco_run ex_rt (new_configured ex_config) [1] 1 0 ex_io 1 1 = Inr r)
   \<and> Mioco_run ex_rt (new_configured (set_thread_num 0 ex_config)) [] 1 0 ex_io 1 1 = Inl UnwrapNone"
proof -
  have "slab_has_remaining (rt_slab ex_rt) (slab_new_starting_at (rt_slab ex_rt) STARTING_ID 512)"
    by (simp add: ex_rt_def ex_slab_def free_cell_first)
  moreover have "slab_laws (rt_slab ex_rt) ex_ok" by (rule runtime_lawsD(2) [OF ex_runtime_laws])
  ultimately show ?thesis
    using run_starts_iff_threads [of ex_rt ex_ok "new_configured ex_config"]
      run_starts_iff_threads [of ex_rt ex_ok "new_configured (set_thread_num 0 ex_config)"]
    by (simp add: new_configured_def set_thread_num_def ex_config_def)
qed

text \<open>The scheduler counter and the ids after the threads took their schedulers.\<close>

lemma spawn_threads_num: "snd (spawn_threads FifoScheduler ts n f) = n + length ts"
  by (induction ts arbitrary: n f) (simp_all add: spawn_thread_def Let_def)

lemma spawn_threads_other: "t \<notin> set ts \<Longrightarrow> fst (spawn_threads FifoScheduler ts n f) t = f t"
  by (induction ts arbitrary: n f) (simp_all add: spawn_thread_def Let_def)

lemma run_scheduler:
  assumes "Mioco_run rt m order f ex io nchan nsrc = Inr (m', w)" and "mset order = mset [1..<cfg_thread_num (m_config m)]"
    and "rt_sched rt = FifoScheduler"
  shows "w_sched_shared w = cfg_scheduler (m_config m) + cfg_thread_num (m_config m)"
    and "w_sched w 0 = fst (spawn_thread (cfg_scheduler (m_config m)))"
    and "cfg_scheduler (m_config m') = w_sched_shared w" and "cfg_thread_num (m_config m') = cfg_thread_num (m_config m)"
    and "hs_senders (w_hs w 0) = [0..<cfg_thread_num (m_config m)]"
proof -
  let ?n = "cfg_thread_num (m_config m)" and ?w0 = "fresh_world rt (m_config m) order io nchan nsrc"
  from assms(1) obtain v child where n: "?n \<noteq> 0"
    and sp: "Coroutine_spawn rt 0 (cfg_user_data (m_config m)) f ex ?w0 = Inr (child, v)"
    and w: "w = upd_hs 0 (add_spawned (ctrl_new child)) (signal_start_all v)"
    and m': "m' = m\<lparr>m_config := (m_config m)\<lparr>cfg_user_data := None, cfg_scheduler := w_sched_shared w\<rparr>,
                    m_join_handles := m_join_handles m + (?n - 1)\<rparr>"
    by (auto simp: Mioco_run_def thread_loop_start_def Let_def bindR_eq_Inr split: if_splits)
  have "w_sched v = w_sched ?w0 \<and> w_sched_shared v = w_sched_shared ?w0 \<and> hs_senders (w_hs v 0) = hs_senders (w_hs ?w0 0)"
    using sp by (auto simp: Coroutine_spawn_def Let_def upd_co_def upd_hs_def coroutines_inc_def split: option.splits)
  then have v: "w_sched w = w_sched ?w0" "w_sched_shared w = w_sched_shared ?w0" "hs_senders (w_hs w 0) = [0..<?n]"
    by (simp_all add: w upd_hs_def signal_start_all_def add_spawned_def HandlerShared_new_def)
  have len: "length order = ?n - 1" using arg_cong [OF assms(2), of size] by simp
  have "0 \<notin> set order" using arg_cong [OF assms(2), of set_mset] by simp
  with n len show "w_sched_shared w = cfg_scheduler (m_config m) + ?n"
    and "w_sched w 0 = fst (spawn_thread (cfg_scheduler (m_config m)))"
    unfolding v fresh_world_def
    by (simp_all add: assms(3) case_prod_beta io_world.defs spawn_threads_num spawn_threads_other spawn_thread_def Let_def)
  show "cfg_scheduler (m_config m') = w_sched_shared w" "cfg_thread_num (m_config m') = ?n" by (simp_all add: m')
  show "hs_senders (w_hs w 0) = [0..<?n]" by (rule v(3))
qed




theorem select_runs_two_arms_witness:
  "\<exists>w1. select_add_all 0 [(5, RW_read), (6, RW_read)] ex_running = Inr w1
    \<and> select_dispatch \<lparr>event_id = EventSourceId 0, event_rw = RW_read\<rparr>
        [((5, RW_read), \<lambda>w. Inr (Coroutine_block_on 0 6 RW_read w)), ((6, RW_read), \<lambda>w. Inl (UserPanic 2))]
        (upd_co 0 (\<lambda>c. c\<lparr>co_blocked_on := []\<rparr>) w1) = Inl (UserPanic 2)"
proof -
  have c: "w_current ex_running 0 = Some 0" "co_blocked_on (w_cos ex_running 0) = []"
    by (simp_all add: ex_running_eval)
  obtain w1 where a: "select_add_all 0 [(5, RW_read), (6, RW_read)] ex_running = Inr w1"
    and ids: "\<forall>j < 2. ec_id (es_common (w_srcs w1 (fst ([(5, RW_read), (6, RW_read)] ! j)))) = Some (EventSourceId (of_nat j))"
    using select_add_all_ids [OF c(1), of "[(5, RW_read), (6, RW_read)]"] c(2) by (auto simp: numeral_2_eq_2)
  let ?w = "upd_co 0 (\<lambda>c. c\<lparr>co_blocked_on := []\<rparr>) w1"
  from ids [rule_format, of 0] ids [rule_format, of 1]
  have "ec_id (es_common (w_srcs ?w 5)) = Some (EventSourceId 0)" "ec_id (es_common (w_srcs ?w 6)) = Some (EventSourceId 1)"
    by (simp_all add: upd_co_def)
  moreover have "co_blocked_on (w_cos ?w 0) = []" by (simp add: upd_co_def)
  ultimately have "select_dispatch \<lparr>event_id = EventSourceId 0, event_rw = RW_read\<rparr>
      [((5, RW_read), \<lambda>w. Inr (Coroutine_block_on 0 6 RW_read w)), ((6, RW_read), \<lambda>w. Inl (UserPanic 2))] ?w = Inl (UserPanic 2)"
    by (intro select_runs_two_arms) simp_all
  with a show ?thesis by blast
qed

end
