(* ===== verification/Wakeup.thy ===== *)
theory Wakeup
  imports Lifecycle
begin

text \<open>
  How the parts work together when a coroutine waits for a message: \<open>after_resume\<close> registers the receivers the
  coroutine blocks on (\<^verbatim>\<open>src/src/coroutine.rs\<close>, \<^verbatim>\<open>src/src/evented.rs\<close>), a sender finds the token in the channel and
  sends it to the event loop (\<^verbatim>\<open>src/src/sync/mpsc.rs\<close>), and the handler wakes the coroutine the token names
  (\<^verbatim>\<open>src/src/thread.rs\<close>).
\<close>

text \<open>
  A receiver is armed when its channel holds the token made of the coroutine's id and the source's id, together
  with the thread of the coroutine, and nothing was sent.
\<close>

definition armed ::
  "bool \<Rightarrow> thread_id \<Rightarrow> co_id \<Rightarrow> src_ref \<Rightarrow> chan_ref \<Rightarrow> ('el, 'v, 'z) io_world_scheme \<Rightarrow> bool" where
  "armed dbg th i s c w \<longleftrightarrow>
     (\<exists>sid tok. ec_id (es_common (w_srcs w s)) = Some sid \<and> token_from_ids dbg i sid = Inr tok \<and> ch_token (w_chans w c) = Some tok)
   \<and> ch_sender (w_chans w c) = Some th \<and> ch_counter (w_chans w c) = 0"

lemma armed_cong:
  "es_common (w_srcs w' s) = es_common (w_srcs w s) \<Longrightarrow> w_chans w' c = w_chans w c \<Longrightarrow> armed dbg th i s c w' = armed dbg th i s c w"
  by (simp add: armed_def)

text \<open>Registration changes the channel of the source it registers and no other, and no source's control data.\<close>

lemma rc_register_sources:
  assumes "rc_register dbg mio th i s w = Inr (b, w')"
  shows "es_common (w_srcs w' x) = es_common (w_srcs w x)"
    and "es_io (w_srcs w' x) = ReceiverIo c \<longleftrightarrow> es_io (w_srcs w x) = ReceiverIo c"
    and "es_io (w_srcs w s) \<noteq> ReceiverIo c \<Longrightarrow> w_chans w' c = w_chans w c"
    and "es_io (w_srcs w s) = ReceiverIo c \<Longrightarrow> \<not> b \<Longrightarrow> armed dbg th i s c w'"
proof -
  from assms obtain sid tok where j: "ec_id (es_common (w_srcs w s)) = Some sid" "token_from_ids dbg i sid = Inr tok"
    and r: "io_register dbg mio th s tok (interest_of (es_common (w_srcs w s))) w = Inr (b, w')"
    by (auto simp: rc_register_def Let_def bindR_eq_Inr unwrap_def split: option.splits)
  note R = r [unfolded io_register_def Receiver_register_def Let_def debug_assert_def io_world_defs]
  show "es_common (w_srcs w' x) = es_common (w_srcs w x)"
    "es_io (w_srcs w' x) = ReceiverIo c \<longleftrightarrow> es_io (w_srcs w x) = ReceiverIo c"
    "es_io (w_srcs w s) \<noteq> ReceiverIo c \<Longrightarrow> w_chans w' c = w_chans w c"
    "es_io (w_srcs w s) = ReceiverIo c \<Longrightarrow> \<not> b \<Longrightarrow> armed dbg th i s c w'"
    using R j by (cases "es_io (w_srcs w s)"; auto simp: armed_def bindR_eq_Inr case_prod_beta split: if_splits)+
qed

lemma register_one_sources:
  assumes "register_one rt th i s (acc, w) = Inr (acc', w')"
  shows "es_common (w_srcs w' x) = es_common (w_srcs w x)"
    and "es_io (w_srcs w' x) = ReceiverIo c \<longleftrightarrow> es_io (w_srcs w x) = ReceiverIo c"
    and "es_io (w_srcs w s) \<noteq> ReceiverIo c \<Longrightarrow> w_chans w' c = w_chans w c"
    and "es_io (w_srcs w s) = ReceiverIo c \<Longrightarrow> acc' = None \<Longrightarrow> armed (rt_dbg rt) th i s c w'"
    and "acc' = None \<Longrightarrow> acc = None" and "w_cos w' = w_cos w"
proof -
  from assms obtain b where r: "rc_register (rt_dbg rt) (rt_mio rt) th i s w = Inr (b, w')"
    and a: "acc' = None \<Longrightarrow> \<not> b \<and> acc = None"
    by (auto simp: register_one_def bindR_eq_Inr split: if_splits)
  show "es_common (w_srcs w' x) = es_common (w_srcs w x)"
    "es_io (w_srcs w' x) = ReceiverIo c \<longleftrightarrow> es_io (w_srcs w x) = ReceiverIo c"
    "es_io (w_srcs w s) \<noteq> ReceiverIo c \<Longrightarrow> w_chans w' c = w_chans w c"
    using rc_register_sources(1,2,3) [OF r] by auto
  show "es_io (w_srcs w s) = ReceiverIo c \<Longrightarrow> acc' = None \<Longrightarrow> armed (rt_dbg rt) th i s c w'"
    using rc_register_sources(4) [OF r] a by blast
  show "acc' = None \<Longrightarrow> acc = None" using a by blast
  show "w_cos w' = w_cos w" by (rule world_more(1)) (use rc_register_view [OF r] in \<open>auto simp: io_view_def\<close>)
qed

text \<open>The loop of \<open>register_all\<close>: when nothing was ready, the receivers it went over are armed.\<close>

lemma register_loop_cos:
  "foldR (register_one rt th i) ss (acc, w) = Inr (acc', w') \<Longrightarrow>
   w_cos w' = w_cos w \<and> (\<forall>x. es_common (w_srcs w' x) = es_common (w_srcs w x))
   \<and> (\<forall>x c. es_io (w_srcs w' x) = ReceiverIo c \<longleftrightarrow> es_io (w_srcs w x) = ReceiverIo c)"
proof (induction ss arbitrary: acc w)
  case (Cons s ss)
  then obtain acc1 w1 where r: "register_one rt th i s (acc, w) = Inr (acc1, w1)"
    and f: "foldR (register_one rt th i) ss (acc1, w1) = Inr (acc', w')" by (auto simp: bindR_eq_Inr)
  from Cons.IH [OF f] register_one_sources(1,2,6) [OF r] show ?case by simp
qed simp

lemma register_loop_armed:
  "foldR (register_one rt th i) ss (acc, w) = Inr (None, w') \<Longrightarrow> es_io (w_srcs w s) = ReceiverIo c \<Longrightarrow>
   (\<And>x. x \<in> set ss \<Longrightarrow> es_io (w_srcs w x) = ReceiverIo c \<Longrightarrow> x = s) \<Longrightarrow>
   s \<in> set ss \<or> armed (rt_dbg rt) th i s c w \<Longrightarrow> armed (rt_dbg rt) th i s c w'"
proof (induction ss arbitrary: acc w)
  case (Cons x ss)
  from Cons.prems(1) obtain acc1 w1 where r: "register_one rt th i x (acc, w) = Inr (acc1, w1)"
    and f: "foldR (register_one rt th i) ss (acc1, w1) = Inr (None, w')" by (auto simp: bindR_eq_Inr)
  note R = register_one_sources [OF r]
  show ?case
  proof (rule Cons.IH [OF f])
    show "es_io (w_srcs w1 s) = ReceiverIo c" using Cons.prems(2) R(2) by simp
    show "y = s" if "y \<in> set ss" "es_io (w_srcs w1 y) = ReceiverIo c" for y using that Cons.prems(3) R(2) by simp
    have n: "acc1 = None" if "s \<notin> set ss"
      using f by (induction ss arbitrary: acc1 w1) (auto simp: bindR_eq_Inr dest: register_one_sources(5))
    show "s \<in> set ss \<or> armed (rt_dbg rt) th i s c w1"
    proof (cases "es_io (w_srcs w x) = ReceiverIo c")
      case True
      with Cons.prems(3) [of x] R(4) [OF True] n show ?thesis by auto
    next
      case False
      with Cons.prems(2,4) armed_cong [OF R(1) R(3) [OF False]] show ?thesis by auto
    qed
  qed
qed simp

lemma after_resume_asleep:
  assumes "after_resume rt th self w = Inr w'" and "is_blocked (co_state (w_cos w' (ctrl_rc self)))"
  obtains w1 where
    "foldR (register_one rt th (co_the_id (w_cos w (ctrl_rc self)))) (co_blocked_on (w_cos w (ctrl_rc self))) (None, w) = Inr (None, w1)"
    and "w_srcs w' = w_srcs w1" and "w_chans w' = w_chans w1" and "w_env w' = w_env w1"
    and "co_blocked_on (w_cos w' (ctrl_rc self)) = co_blocked_on (w_cos w (ctrl_rc self))"
    and "co_the_id (w_cos w' (ctrl_rc self)) = co_the_id (w_cos w (ctrl_rc self))"
proof -
  let ?r = "ctrl_rc self"
  from assms(1) obtain b w1 w2 w3 where a: "register_all rt th ?r w = Inr (b, w1)"
    and d: "(if b then deregister_all rt th ?r w1 else Inr w1) = Inr w2"
    and c: "start_children ?r w2 = Inr w3" and q: "requeue rt ?r w3 = Inr w'"
    by (auto simp: after_resume_def bindR_eq_Inr)
  have st: "co_state (w_cos w3 ?r) = co_state (w_cos w2 ?r)"
    using c by (auto simp: start_children_def bindR_eq_Inr upd_co_def upd_hs_def)
  have bl: "co_state (w_cos w3 ?r) = Blocked"
    using q assms(2)
    by (cases "co_state (w_cos w3 ?r)") (auto simp: requeue_def Let_def bindR_eq_Inr upd_co_def upd_hs_def unblock_after_yield_def)
  have "\<not> b"
  proof
    assume b
    with a obtain e u where "unblock rt th ?r e u = Inr w1" by (auto simp: register_all_def bindR_eq_Inr split: option.splits)
    moreover from \<open>b\<close> d have "w_cos w2 = w_cos (upd_co ?r (\<lambda>c. c\<lparr>co_blocked_on := []\<rparr>) w1)"
      unfolding deregister_all_def by simp (erule foldR_cong_inv, rule rc_deregister_cos)
    ultimately have "co_state (w_cos w2 ?r) = Ready" using unblock_cos by (fastforce simp: upd_co_def)
    with st bl show False by simp
  qed
  with a d have l: "foldR (register_one rt th (co_the_id (w_cos w ?r))) (co_blocked_on (w_cos w ?r)) (None, w) = Inr (None, w1)"
    and w2: "w2 = w1" by (auto simp: register_all_def bindR_eq_Inr split: option.splits)
  have "w' = w3" using q bl by (simp add: requeue_def Let_def)
  with c w2 register_loop_cos [OF l] show thesis
    by (intro that [OF l]) (auto simp: start_children_def bindR_eq_Inr upd_co_def upd_hs_def)
qed

lemma sleeper_armed:
  assumes "after_resume rt th self w = Inr w'" and "is_blocked (co_state (w_cos w' (ctrl_rc self)))"
    and "s \<in> set (co_blocked_on (w_cos w' (ctrl_rc self)))" and "es_io (w_srcs w' s) = ReceiverIo c"
    and "\<And>x. x \<in> set (co_blocked_on (w_cos w' (ctrl_rc self))) \<Longrightarrow> es_io (w_srcs w' x) = ReceiverIo c \<Longrightarrow> x = s"
  shows "armed (rt_dbg rt) th (co_the_id (w_cos w' (ctrl_rc self))) s c w'"
proof -
  let ?r = "ctrl_rc self"
  from after_resume_asleep [OF assms(1,2)] obtain w1 where
    l: "foldR (register_one rt th (co_the_id (w_cos w ?r))) (co_blocked_on (w_cos w ?r)) (None, w) = Inr (None, w1)"
    and e: "w_srcs w' = w_srcs w1" "w_chans w' = w_chans w1" "w_env w' = w_env w1" "co_blocked_on (w_cos w' ?r) = co_blocked_on (w_cos w ?r)"
      "co_the_id (w_cos w' ?r) = co_the_id (w_cos w ?r)" .
  have "armed (rt_dbg rt) th (co_the_id (w_cos w ?r)) s c w1"
  proof (rule register_loop_armed [OF l])
    show "es_io (w_srcs w s) = ReceiverIo c" using assms(4) e(1) register_loop_cos [OF l] by simp
    show "s \<in> set (co_blocked_on (w_cos w ?r)) \<or> armed (rt_dbg rt) th (co_the_id (w_cos w ?r)) s c w"
      using assms(3) e(4) by simp
    show "x = s" if "x \<in> set (co_blocked_on (w_cos w ?r))" "es_io (w_srcs w x) = ReceiverIo c" for x
      by (rule assms(5)) (use that e(1,4) register_loop_cos [OF l] in simp_all)
  qed
  with e show ?thesis by (simp add: armed_def)
qed

text \<open>A message into an armed channel goes to the event loop the receiver's token belongs to.\<close>

lemma send_notifies:
  assumes "mio_laws (rt_mio rt) mail" and "armed dbg th i s c w" and "ch_rx (w_chans w c)"
    and "chan_op c (Sender_send (notify_token rt) v) w = Inr (ret, w')" and "ec_id (es_common (w_srcs w s)) = Some sid"
  obtains tok where "token_from_ids dbg i sid = Inr tok" and "mail (w_env w') th = mail (w_env w) th @ [ChannelMsg tok]"
    and "ret = SendDone"
proof -
  from assms(2,5) obtain tok where t: "token_from_ids dbg i sid = Inr tok" "ch_token (w_chans w c) = Some tok"
    and o: "ch_sender (w_chans w c) = Some th" "ch_counter (w_chans w c) = 0"
    by (auto simp: armed_def split: sum.splits)
  from chan_op_chans [OF assms(4)] obtain ch where
    "Sender_send (notify_token rt) v (w_chans w c) (w_env w) = Inr (ret, ch, w_env w')" by auto
  with assms(3) t o have n: "sender_retry (rt_mio rt) th (ChannelMsg tok) (w_env w) = Inr (w_env w')" and "ret = SendDone"
    by (auto simp: Sender_send_def count_and_notify_def counter_fetch_add_def maybe_notify_receiver_def std_push_def
        notify_token_def bindR_eq_Inr)
  with sender_retry_mail [OF assms(1) n] t(1) show thesis by (intro that) simp_all
qed

text \<open>What the handler does with the token of a coroutine that sleeps.\<close>

lemma notify_sleeper:
  assumes "token_from_ids (rt_dbg rt) (co_the_id (w_cos w r)) sid = Inr tok" and "ids_fit (co_the_id (w_cos w r)) sid"
    and "slab_get (rt_slab rt) (co_the_id (w_cos w r)) (hs_coroutines (w_hs w th)) = Some r" and "is_blocked (co_state (w_cos w r))"
  shows "Handler_notify rt th (ChannelMsg tok) w =
    bindO (Some (bindR (unblock rt th r \<lparr>event_id = sid, event_rw = RW_read\<rparr> w) (scheduler_ready rt th (ctrl_new r))))
      (deliver_to_scheduler rt th)"
proof -
  from tok.dec_eqI [OF assms(2,1)] have "token_to_ids tok = (co_the_id (w_cos w r), sid)" .
  with assms(3,4) show ?thesis
    by (simp add: Handler_ready_def co_event_def event_rw_of_def EventSet_readable_def bindR_assoc)
qed

text \<open>
  C4: a message wakes the coroutine that waits for it. When a resumed coroutine is left blocked with a receiver
  among its sources, a send on the channel of that receiver succeeds and puts one \<open>ChannelMsg\<close> into the
  mailbox of the coroutine's thread; handling it unblocks that very coroutine with the id of that
  source as the event it sees, and hands a control of it to the scheduler.
\<close>

theorem message_wakes_sleeper:
  assumes "runtime_laws rt mail ok" and "after_resume rt th self w = Inr w1" and "r = ctrl_rc self"
    and "is_blocked (co_state (w_cos w1 r))" and "s \<in> set (co_blocked_on (w_cos w1 r))" and "es_io (w_srcs w1 s) = ReceiverIo c"
    and "\<And>x. x \<in> set (co_blocked_on (w_cos w1 r)) \<Longrightarrow> es_io (w_srcs w1 x) = ReceiverIo c \<Longrightarrow> x = s"
    and "ec_id (es_common (w_srcs w1 s)) = Some sid" and "ids_fit (co_the_id (w_cos w1 r)) sid"
    and "slab_get (rt_slab rt) (co_the_id (w_cos w1 r)) (hs_coroutines (w_hs w1 th)) = Some r"
    and "ch_rx (w_chans w1 c)" and "chan_op c (Sender_send (notify_token rt) v) w1 = Inr (ret, w2)"
  shows "ret = SendDone
    \<and> (\<exists>tok. mail (w_env w2) th = mail (w_env w1) th @ [ChannelMsg tok]
        \<and> (\<forall>e. Handler_notify rt th (ChannelMsg tok) (set_env e w2) =
              bindO (Some (bindR (unblock rt th r \<lparr>event_id = sid, event_rw = RW_read\<rparr> (set_env e w2))
                             (scheduler_ready rt th (ctrl_new r))))
                (deliver_to_scheduler rt th)))"
proof -
  have a: "armed (rt_dbg rt) th (co_the_id (w_cos w1 r)) s c w1"
    using sleeper_armed [OF assms(2)] assms(3-7) by blast
  from send_notifies [OF runtime_lawsD(1) [OF assms(1)] a assms(11,12,8)] obtain tok
    where t: "token_from_ids (rt_dbg rt) (co_the_id (w_cos w1 r)) sid = Inr tok"
      and m: "mail (w_env w2) th = mail (w_env w1) th @ [ChannelMsg tok]" and d: "ret = SendDone" .
  have "w_cos (set_env e w2) = w_cos w1" "w_hs (set_env e w2) = w_hs w1" for e
    using assms(12) by (auto simp: chan_op_def bindR_eq_Inr set_env_def set_chan_def)
  with notify_sleeper [of rt "set_env e w2" r sid tok th for e] t assms(4,9,10) m d show ?thesis by auto
qed

text \<open>The example coroutine, asleep on a receiver of its own.\<close>

definition ex_blocking :: "(thread_id \<Rightarrow> Message list, ex_cells, nat, nat, unit fifo_ext) world" where
  "ex_blocking = Coroutine_block_on 0 0 RW_read ex_yielded"

lemmas ex_asleep_eval = ex_blocking_def Coroutine_block_on_def push_blocked_def mark_blocked_def register_one_def rc_register_def
  io_register_def Receiver_register_def interest_of_def rw_defs EventSet_readable_def EventSet_hup_def EventSet_none_def
  EventSet_or_def token_from_ids_def RcEventSource_new_def set_src_def notify_token_def Let_def

theorem message_wakes_sleeper_witness:
  "\<exists>w1 w2. after_resume ex_rt 0 (ctrl_new 0) ex_blocking = Inr w1
    \<and> chan_op 0 (Sender_send (notify_token ex_rt) VUnit) w1 = Inr (SendDone, w2)
    \<and> (\<exists>tok. ex_mail (w_env w2) 0 = [ChannelMsg tok]
        \<and> Handler_notify ex_rt 0 (ChannelMsg tok) (set_env (\<lambda>t. []) w2) =
              bindO (Some (bindR (unblock ex_rt 0 0 \<lparr>event_id = EventSourceId 0, event_rw = RW_read\<rparr> (set_env (\<lambda>t. []) w2))
                             (scheduler_ready ex_rt 0 (ctrl_new 0))))
                (deliver_to_scheduler ex_rt 0))"
proof -
  obtain w1 where a: "after_resume ex_rt 0 (ctrl_new 0) ex_blocking = Inr w1" "is_blocked (co_state (w_cos w1 0))"
    "co_blocked_on (w_cos w1 0) = [0]" "es_io (w_srcs w1 0) = ReceiverIo 0" "ec_id (es_common (w_srcs w1 0)) = Some (EventSourceId 0)"
    "co_the_id (w_cos w1 0) = Id 1" "slab_get (rt_slab ex_rt) (Id 1) (hs_coroutines (w_hs w1 0)) = Some 0"
    "ch_rx (w_chans w1 0)" "w_env w1 = (\<lambda>t. [])" "\<exists>r w2. chan_op 0 (Sender_send (notify_token ex_rt) VUnit) w1 = Inr (r, w2)"
    by (simp add: ex_asleep_eval ex_running_eval)
  then obtain r w2 where s: "chan_op 0 (Sender_send (notify_token ex_rt) VUnit) w1 = Inr (r, w2)" by blast
  have c: "0 = ctrl_rc (ctrl_new 0)" by (simp add: ctrl_new_def)
  have f: "ids_fit (co_the_id (w_cos w1 0)) (EventSourceId 0)" by (simp add: ids_fit_def a(6))
  have d: "r = SendDone \<and> (\<exists>tok. ex_mail (w_env w2) 0 = ex_mail (w_env w1) 0 @ [ChannelMsg tok]
        \<and> (\<forall>e. Handler_notify ex_rt 0 (ChannelMsg tok) (set_env e w2) =
              bindO (Some (bindR (unblock ex_rt 0 0 \<lparr>event_id = EventSourceId 0, event_rw = RW_read\<rparr> (set_env e w2))
                             (scheduler_ready ex_rt 0 (ctrl_new 0))))
                (deliver_to_scheduler ex_rt 0)))"
    by (rule message_wakes_sleeper [OF ex_runtime_laws a(1) c a(2) _ a(4) _ a(5) f _ a(8) s]) (simp_all add: a)
  moreover have "ex_mail (w_env w1) 0 = []" by (simp add: a(9) ex_mail_def)
  ultimately show ?thesis using a(1) s by (auto simp del: Handler_notify.simps)
qed

end
