(* ===== verification/Sleep.thy ===== *)
theory Sleep
  imports Wakeup
begin

text \<open>
  How the parts work together when a coroutine waits for a timer: \<open>after_resume\<close> registers it
  (\<^verbatim>\<open>src/src/coroutine.rs\<close>), which asks mio for a timeout with the token of the coroutine and the timer
  (\<^verbatim>\<open>src/src/timer.rs\<close>), and \<open>Handler::timeout\<close> wakes the coroutine the token names (\<^verbatim>\<open>src/src/thread.rs\<close>).
  What the code relies on of mio here is that the timeouts pending in its event loops change
  by \<open>timeout_ms\<close> and \<open>clear_timeout\<close> only.
\<close>

definition timeout_laws :: "('el, 'm) mio \<Rightarrow> ('el \<Rightarrow> (thread_id \<times> mio_timeout \<times> token) set) \<Rightarrow> bool" where
  "timeout_laws mio pend \<longleftrightarrow>
     (\<forall>t tk d e h e'. mio_timeout_ms mio t tk d e = (Some h, e') \<longrightarrow> pend e' = insert (t, h, tk) (pend e))
   \<and> (\<forall>t h e. pend (mio_clear_timeout mio t h e) = {x \<in> pend e. \<forall>tk. x \<noteq> (t, h, tk)})
   \<and> (\<forall>t r tk i e. pend (snd (mio_register mio t r tk i e)) = pend e)
   \<and> (\<forall>e. pend (snd (instant_now mio e)) = pend e)"

text \<open>
  A timer is set when mio has a timeout pending for it on the thread of the coroutine: with the handle that the timer
  keeps and the token made of the ids of the coroutine and of the timer.
\<close>

definition timer_set ::
  "('el \<Rightarrow> (thread_id \<times> mio_timeout \<times> token) set) \<Rightarrow> bool \<Rightarrow> thread_id \<Rightarrow> co_id \<Rightarrow> src_ref \<Rightarrow> ('el, 'v, 'z) io_world_scheme \<Rightarrow> bool" where
  "timer_set pend dbg th i s w \<longleftrightarrow>
     (\<exists>t h sid tok. es_io (w_srcs w s) = TimerIo t \<and> tc_mio_timeout t = Some h \<and> ec_id (es_common (w_srcs w s)) = Some sid
        \<and> token_from_ids dbg i sid = Inr tok \<and> (th, h, tok) \<in> pend (w_env w))"

lemma timeout_lawsD:
  assumes "timeout_laws mio pend"
  shows "mio_timeout_ms mio t tk d e = (Some h, e') \<Longrightarrow> pend e' = insert (t, h, tk) (pend e)"
    and "mio_register mio t q tk i e = (okay, e') \<Longrightarrow> pend e' = pend e" and "instant_now mio e = (now, e') \<Longrightarrow> pend e' = pend e"
proof -
  note L = assms [unfolded timeout_laws_def]
  show "mio_timeout_ms mio t tk d e = (Some h, e') \<Longrightarrow> pend e' = insert (t, h, tk) (pend e)" using L by simp
  have "pend (snd (mio_register mio t q tk i e)) = pend e" "pend (snd (instant_now mio e)) = pend e" using L by simp_all
  then show "mio_register mio t q tk i e = (okay, e') \<Longrightarrow> pend e' = pend e" "instant_now mio e = (now, e') \<Longrightarrow> pend e' = pend e"
    by simp_all
qed

lemma Timer_register_cases:
  assumes "Timer_register dbg mio th tok t e = Inr (b, t', e')" and "instant_now mio e = (now, e1)"
  obtains "b" and "t' = t" and "e' = e1"
  | d h where "\<not> b" and "mio_timeout_ms mio th tok d e1 = (Some h, e')" and "tc_mio_timeout t' = Some h"
proof (cases "tc_timeout t \<le> now")
  case True
  with assms that(1) show thesis by (simp add: Timer_register_def)
next
  case False
  with assms obtain d where
    "(case mio_timeout_ms mio th tok d e1 of (Some h, e'') \<Rightarrow> Inr (False, t\<lparr>tc_mio_timeout := Some h\<rparr>, e'') | (None, e'') \<Rightarrow> Inl TimeoutFailed)
       = Inr (b, t', e')" by (auto simp: Timer_register_def Let_def bindR_eq_Inr)
  with that(2) [of d] show thesis by (cases "mio_timeout_ms mio th tok d e1") (auto split: option.splits)
qed

lemma timer_set_mono:
  "timer_set pend dbg th i s w \<Longrightarrow> w_srcs w' s = w_srcs w s \<Longrightarrow> pend (w_env w) \<subseteq> pend (w_env w') \<Longrightarrow> timer_set pend dbg th i s w'"
  by (auto simp: timer_set_def)

lemma Timer_register_pend:
  assumes "timeout_laws mio pend" and "Timer_register dbg mio th tok t e = Inr (b, t', e')"
  shows "pend e \<subseteq> pend e'" and "\<not> b \<Longrightarrow> \<exists>h. tc_mio_timeout t' = Some h \<and> (th, h, tok) \<in> pend e'"
proof -
  obtain now e1 where n: "instant_now mio e = (now, e1)" by (cases "instant_now mio e")
  note e1 = timeout_lawsD(3) [OF assms(1) n]
  have "pend e \<subseteq> pend e' \<and> (\<not> b \<longrightarrow> (\<exists>h. tc_mio_timeout t' = Some h \<and> (th, h, tok) \<in> pend e'))"
    using assms(2) n
  proof (cases rule: Timer_register_cases)
    case (2 d h)
    from timeout_lawsD(1) [OF assms(1) 2(2)] 2(3) e1 show ?thesis by auto
  qed (simp add: e1)
  then show "pend e \<subseteq> pend e'" "\<not> b \<Longrightarrow> \<exists>h. tc_mio_timeout t' = Some h \<and> (th, h, tok) \<in> pend e'" by simp_all
qed

text \<open>Registering a source keeps the timeouts of all and sets the one of a timer that is not done.\<close>

lemma rc_register_timer:
  assumes "timeout_laws mio pend" and "rc_register dbg mio th i x w = Inr (b, w')"
  shows "pend (w_env w) \<subseteq> pend (w_env w')" and "x \<noteq> s \<Longrightarrow> w_srcs w' s = w_srcs w s"
    and "es_io (w_srcs w x) = TimerIo t \<Longrightarrow> \<not> b \<Longrightarrow> timer_set pend dbg th i x w'"
proof -
  from assms(2) obtain sid tok where j: "ec_id (es_common (w_srcs w x)) = Some sid" "token_from_ids dbg i sid = Inr tok"
    and r: "io_register dbg mio th x tok (interest_of (es_common (w_srcs w x))) w = Inr (b, w')"
    by (auto simp: rc_register_def Let_def bindR_eq_Inr unwrap_def split: option.splits)
  note R = r [unfolded io_register_def io_world_defs]
  show "pend (w_env w) \<subseteq> pend (w_env w')"
  proof (cases "es_io (w_srcs w x)")
    case (RawIo q)
    obtain okay e where "mio_register mio th q tok (interest_of (es_common (w_srcs w x))) (w_env w) = (okay, e)" by fastforce
    with R RawIo timeout_lawsD(2) [OF assms(1) this] show ?thesis by (auto split: if_splits)
  next
    case (TimerIo t)
    with R obtain t' e' where u: "Timer_register dbg mio th tok t (w_env w) = Inr (b, t', e')" and "w_env w' = e'"
      by (auto simp: bindR_eq_Inr)
    with Timer_register_pend(1) [OF assms(1) u] show ?thesis by simp
  qed (use R in \<open>auto simp: bindR_eq_Inr\<close>)
  show "x \<noteq> s \<Longrightarrow> w_srcs w' s = w_srcs w s"
    using R by (cases "es_io (w_srcs w x)") (auto simp: bindR_eq_Inr Let_def split: if_splits prod.splits)
  show "timer_set pend dbg th i x w'" if t: "es_io (w_srcs w x) = TimerIo t" "\<not> b"
  proof -
    from R t(1) obtain t' e' where u: "Timer_register dbg mio th tok t (w_env w) = Inr (b, t', e')"
      and w': "es_io (w_srcs w' x) = TimerIo t'" "es_common (w_srcs w' x) = es_common (w_srcs w x)" "w_env w' = e'"
      by (auto simp: bindR_eq_Inr)
    from Timer_register_pend(2) [OF assms(1) u t(2)] j w' show ?thesis by (auto simp: timer_set_def)
  qed
qed

lemma register_loop_timer:
  assumes "timeout_laws (rt_mio rt) pend"
  shows "foldR (register_one rt th i) ss (acc, w) = Inr (None, w') \<Longrightarrow> es_io (w_srcs w s) = TimerIo t \<Longrightarrow>
    s \<in> set ss \<or> timer_set pend (rt_dbg rt) th i s w \<Longrightarrow> timer_set pend (rt_dbg rt) th i s w'"
proof (induction ss arbitrary: acc w t)
  case (Cons x ss)
  from Cons.prems(1) obtain acc1 w1 where r: "register_one rt th i x (acc, w) = Inr (acc1, w1)"
    and f: "foldR (register_one rt th i) ss (acc1, w1) = Inr (None, w')" by (auto simp: bindR_eq_Inr)
  from r obtain b where g: "rc_register (rt_dbg rt) (rt_mio rt) th i x w = Inr (b, w1)" and b: "acc1 = None \<Longrightarrow> \<not> b"
    by (auto simp: register_one_def bindR_eq_Inr split: if_splits)
  note R = rc_register_timer [OF assms g]
  from f have n: "acc1 = None"
    by (induction ss arbitrary: acc1 w1) (auto simp: bindR_eq_Inr dest: register_one_sources(5))
  have "\<exists>t. es_io (w_srcs w1 s) = TimerIo t \<and> (s \<in> set ss \<or> timer_set pend (rt_dbg rt) th i s w1)"
  proof (cases "x = s")
    case True
    with R(3) [of t] Cons.prems(2) n b have "timer_set pend (rt_dbg rt) th i s w1" by simp
    then show ?thesis by (auto simp: timer_set_def)
  next
    case False
    with R(2) [of s] Cons.prems(2,3) timer_set_mono [OF _ R(2) R(1)] show ?thesis by auto
  qed
  then show ?case using Cons.IH [OF f] by blast
qed simp

lemma register_one_view:
  "register_one rt th i x u = Inr v \<Longrightarrow> src_view (snd v) s = src_view (snd u) s"
  by (cases u) (auto simp: register_one_def bindR_eq_Inr io_view_def dest!: rc_register_view split: if_splits)

lemma sleeper_timer:
  assumes "timeout_laws (rt_mio rt) pend" and "after_resume rt th self w = Inr w'" and "is_blocked (co_state (w_cos w' (ctrl_rc self)))"
    and "s \<in> set (co_blocked_on (w_cos w' (ctrl_rc self)))" and "es_io (w_srcs w' s) = TimerIo t"
  shows "timer_set pend (rt_dbg rt) th (co_the_id (w_cos w' (ctrl_rc self))) s w'"
proof -
  let ?r = "ctrl_rc self"
  from after_resume_asleep [OF assms(2,3)] obtain w1 where
    l: "foldR (register_one rt th (co_the_id (w_cos w ?r))) (co_blocked_on (w_cos w ?r)) (None, w) = Inr (None, w1)"
    and e: "w_srcs w' = w_srcs w1" "w_chans w' = w_chans w1" "w_env w' = w_env w1"
      "co_blocked_on (w_cos w' ?r) = co_blocked_on (w_cos w ?r)" "co_the_id (w_cos w' ?r) = co_the_id (w_cos w ?r)" .
  have "src_view (snd (None :: Event option, w1)) s = src_view (snd (None :: Event option, w)) s"
    by (rule foldR_cong_inv [OF l]) (rule register_one_view)
  with assms(5) e(1) obtain t0 where "es_io (w_srcs w s) = TimerIo t0" by (auto simp: src_view_def split: io.splits)
  from register_loop_timer [OF assms(1) l this] assms(4) e show ?thesis by (simp add: timer_set_def)
qed

text \<open>What the handler does with the timeout of a coroutine that sleeps.\<close>

lemma timeout_sleeper:
  assumes "token_from_ids (rt_dbg rt) (co_the_id (w_cos w r)) sid = Inr tok" and "ids_fit (co_the_id (w_cos w r)) sid"
    and "co_usize STARTING_ID \<le> co_usize (co_the_id (w_cos w r))"
    and "slab_get (rt_slab rt) (co_the_id (w_cos w r)) (hs_coroutines (w_hs w th)) = Some r" and "is_blocked (co_state (w_cos w r))"
  shows "Handler_timeout rt th tok w =
    bindO (Some (bindR (unblock rt th r \<lparr>event_id = sid, event_rw = RW_read\<rparr> w) (scheduler_ready rt th (ctrl_new r))))
      (deliver_to_scheduler rt th)"
proof -
  obtain special where s: "token_from_ids (rt_dbg rt) SPECIAL_ID SPECIAL_ID_SCHED_TIMEOUT = Inr special"
    using tok.enc_total [of SPECIAL_ID SPECIAL_ID_SCHED_TIMEOUT "rt_dbg rt"]
    by (auto simp: ids_fit_def SPECIAL_ID_def SPECIAL_ID_SCHED_TIMEOUT_def)
  have "tok \<noteq> special" using special_token_not_coroutine [OF assms(2,3), of "rt_dbg rt"] assms(1) s by simp
  then have "Handler_timeout rt th tok w = Handler_notify rt th (ChannelMsg tok) w" by (simp add: Handler_timeout_def s)
  with notify_sleeper [OF assms(1,2,4,5)] show ?thesis by simp
qed

text \<open>
  C6: a timer wakes the coroutine that waits for it. When a resumed coroutine is left blocked with a timer among
  its sources, mio has a timeout pending on its thread, under the handle that the timer keeps; and when that
  timeout fires, the handler unblocks that very coroutine with the id of the timer as the event it sees, and
  hands a control of it to the scheduler. It is never mistaken for the timeout of the scheduler.
\<close>

theorem timeout_wakes_sleeper:
  assumes "timeout_laws (rt_mio rt) pend" and "after_resume rt th self w = Inr w1" and "r = ctrl_rc self"
    and "is_blocked (co_state (w_cos w1 r))" and "s \<in> set (co_blocked_on (w_cos w1 r))" and "es_io (w_srcs w1 s) = TimerIo t"
    and "ec_id (es_common (w_srcs w1 s)) = Some sid" and "ids_fit (co_the_id (w_cos w1 r)) sid"
    and "co_usize STARTING_ID \<le> co_usize (co_the_id (w_cos w1 r))"
    and "slab_get (rt_slab rt) (co_the_id (w_cos w1 r)) (hs_coroutines (w_hs w1 th)) = Some r"
  shows "\<exists>h tok. tc_mio_timeout t = Some h \<and> (th, h, tok) \<in> pend (w_env w1)
    \<and> (\<forall>e. Handler_timeout rt th tok (set_env e w1) =
          bindO (Some (bindR (unblock rt th r \<lparr>event_id = sid, event_rw = RW_read\<rparr> (set_env e w1))
                         (scheduler_ready rt th (ctrl_new r))))
            (deliver_to_scheduler rt th))"
proof -
  have "timer_set pend (rt_dbg rt) th (co_the_id (w_cos w1 r)) s w1"
    using sleeper_timer [OF assms(1,2)] assms(4-6) unfolding assms(3) by blast
  with assms(6,7) obtain h tok where m: "tc_mio_timeout t = Some h" "(th, h, tok) \<in> pend (w_env w1)"
    and t: "token_from_ids (rt_dbg rt) (co_the_id (w_cos w1 r)) sid = Inr tok" by (auto simp: timer_set_def)
  have "w_cos (set_env e w1) = w_cos w1" "w_hs (set_env e w1) = w_hs w1" for e by (simp_all add: set_env_def)
  with timeout_sleeper [of rt "set_env e w1" r sid tok th for e] t assms(4,8-10) m show ?thesis by auto
qed

text \<open>Event loops with a clock that moves by a second at each reading, and the timeouts that are pending.\<close>

record nap_env =
  ne_clock :: nat
  ne_next :: nat
  ne_pending :: "(thread_id \<times> mio_timeout \<times> token) set"

definition nap_mio :: "(nap_env, Message) mio" where
  "nap_mio = \<lparr>mio_register = (\<lambda>t io tk i e. (True, e)), mio_reregister = (\<lambda>t io tk i e. (True, e)),
     mio_deregister = (\<lambda>t io e. (True, e)),
     mio_timeout_ms = (\<lambda>t tk d e. (Some (ne_next e), e\<lparr>ne_next := ne_next e + 1, ne_pending := insert (t, ne_next e, tk) (ne_pending e)\<rparr>)),
     mio_clear_timeout = (\<lambda>t h e. e\<lparr>ne_pending := {x \<in> ne_pending e. \<forall>tk. x \<noteq> (t, h, tk)}\<rparr>), mio_send = (\<lambda>t m e. (SendOk, e)),
     mio_shutdown = (\<lambda>t e. e), thread_yield = (\<lambda>e. e),
     instant_now = (\<lambda>e. (ne_clock e, e\<lparr>ne_clock := ne_clock e + NANOS_PER_SEC\<rparr>))\<rparr>"

definition nap_rt :: "(nap_env, ex_cells, nat, nat, unit fifo_ext) rt" where
  "nap_rt = \<lparr>rt_dbg = True, rt_mio = nap_mio, rt_slab = ex_slab, rt_sched = FifoScheduler, rt_code = ex_code, rt_user_io = (\<lambda>n e. (n, e))\<rparr>"

text \<open>A coroutine that just blocked on a timer of two seconds.\<close>

definition nap_world :: "(nap_env, ex_cells, nat, nat, unit fifo_ext) world" where
  "nap_world = (let hs = HandlerShared_new ex_slab [0] co_config_default 0
     in \<lparr>w_env = \<lparr>ne_clock = 0, ne_next = 7, ne_pending = {}\<rparr>, w_chans = (\<lambda>c. channel),
         w_srcs = (\<lambda>s. (RcEventSource_new (TimerIo \<lparr>tc_timeout = 2 * NANOS_PER_SEC, tc_mio_timeout = None\<rparr>))
           \<lparr>es_common := \<lparr>ec_id = Some (EventSourceId 0), ec_blocked_on = RW_read, ec_peer_hup = False\<rparr>\<rparr>),
         w_cos = (\<lambda>r. (ex_co (Suspended 0 0) Blocked None False)\<lparr>co_blocked_on := [0]\<rparr>), w_nco = 1, w_nchan = 1, w_nsrc = 1,
         w_hs = (\<lambda>t. hs\<lparr>hs_coroutines := (4, [0 \<mapsto> 0])\<rparr>),
         w_sched = (\<lambda>t. \<lparr>st_held = [], fs_thread_id = 0, fs_thread_i = 0\<rparr>), w_sched_shared = 1,
         w_shutting = (\<lambda>t. False), w_started = 1, w_num = 1, w_thread_num = 1, w_current = (\<lambda>t. None)\<rparr>)"

lemma nap_laws: "timeout_laws nap_mio ne_pending"
  by (auto simp: timeout_laws_def nap_mio_def)

lemmas nap_eval = nap_world_def nap_rt_def nap_mio_def ex_co_def HandlerShared_new_def after_resume_def register_all_def
  register_one_def rc_register_def io_register_def Timer_register_def duration_ms_def token_from_ids_def RcEventSource_new_def
  start_children_def requeue_def upd_co_def upd_hs_def set_src_def set_env_def debug_assert_def ctrl_new_def
  NANOS_PER_SEC_def NANOS_PER_MILLI_def ex_slab_def cell_get_def cell_of_def STARTING_ID_def Let_def

theorem timeout_wakes_sleeper_witness:
  "\<exists>w1. after_resume nap_rt 0 (ctrl_new 0) nap_world = Inr w1
    \<and> (\<exists>tok. (0, 7, tok) \<in> ne_pending (w_env w1)
        \<and> Handler_timeout nap_rt 0 tok (set_env (w_env w1) w1) =
              bindO (Some (bindR (unblock nap_rt 0 0 \<lparr>event_id = EventSourceId 0, event_rw = RW_read\<rparr> (set_env (w_env w1) w1))
                             (scheduler_ready nap_rt 0 (ctrl_new 0))))
                (deliver_to_scheduler nap_rt 0))"
proof -
  obtain w1 t where a: "after_resume nap_rt 0 (ctrl_new 0) nap_world = Inr w1" "is_blocked (co_state (w_cos w1 0))"
    "co_blocked_on (w_cos w1 0) = [0]" "es_io (w_srcs w1 0) = TimerIo t" "tc_mio_timeout t = Some 7"
    "ec_id (es_common (w_srcs w1 0)) = Some (EventSourceId 0)" "co_the_id (w_cos w1 0) = Id 1"
    "slab_get (rt_slab nap_rt) (Id 1) (hs_coroutines (w_hs w1 0)) = Some 0"
    by (simp add: nap_eval)
  have c: "0 = ctrl_rc (ctrl_new 0)" by (simp add: ctrl_new_def)
  have f: "ids_fit (co_the_id (w_cos w1 0)) (EventSourceId 0)" "co_usize STARTING_ID \<le> co_usize (co_the_id (w_cos w1 0))"
    by (simp_all add: ids_fit_def a(7) STARTING_ID_def)
  have l: "timeout_laws (rt_mio nap_rt) ne_pending" by (simp add: nap_rt_def nap_laws)
  have s: "0 \<in> set (co_blocked_on (w_cos w1 0))" by (simp add: a(3))
  from timeout_wakes_sleeper [OF l a(1) c a(2) s a(4,6) f a(8) [folded a(7)]] a(1,5) show ?thesis by auto
qed

text \<open>
  C31: a timer that is due clears a timeout it has not set. A timer keeps the handle of its last registration
  also when that timeout was cleared. When the coroutine blocks on it again and it is due, \<open>register\<close> sets no timeout and
  wakes the coroutine, which deregisters its sources and clears the old handle once more: whatever timeout mio has
  pending under that handle by then is gone, and with it the wake-up of the coroutine that set it.
\<close>

theorem due_timer_clears_foreign_timeout:
  assumes "timeout_laws (rt_mio rt) pend" and "co_blocked_on (w_cos w r) = [s]" and "es_io (w_srcs w s) = TimerIo t"
    and "tc_mio_timeout t = Some h" and "ec_id (es_common (w_srcs w s)) = Some sid" and "ids_fit (co_the_id (w_cos w r)) sid"
    and "instant_now (rt_mio rt) (w_env w) = (now, e)" and "tc_timeout t \<le> now"
  shows "\<exists>w'. register_all rt th r w = Inr (True, w') \<and> is_ready (co_state (w_cos w' r))
    \<and> pend (w_env w') = {x \<in> pend (w_env w). \<forall>tk. x \<noteq> (th, h, tk)}"
proof -
  from tok.enc_total [OF assms(6), of "rt_dbg rt"] obtain tok where k: "token_from_ids (rt_dbg rt) (co_the_id (w_cos w r)) sid = Inr tok" by blast
  have "(w_srcs w s)\<lparr>es_io := TimerIo t\<rparr> = w_srcs w s" using assms(3) by (cases "w_srcs w s") simp
  then have same: "w\<lparr>w_env := e, w_srcs := (w_srcs w)(s := (w_srcs w s)\<lparr>es_io := TimerIo t\<rparr>)\<rparr> = w\<lparr>w_env := e\<rparr>" by simp
  have r: "register_one rt th (co_the_id (w_cos w r)) s (None, w) = Inr (Some \<lparr>event_id = sid, event_rw = rc_blocked_on s w\<rparr>, set_env e w)"
    using assms(3,5,7,8) k
    by (simp add: register_one_def rc_register_def io_register_def Timer_register_def set_env_def set_src_def rc_id_def rc_blocked_on_def unwrap_def Let_def same)
  obtain w' where u: "unblock rt th r \<lparr>event_id = sid, event_rw = rc_blocked_on s w\<rparr> (set_env e w) = Inr w'"
    and w': "co_state (w_cos w' r) = Ready" "w_env w' = mio_clear_timeout (rt_mio rt) th h e"
    using assms(2,3,4,5) k
    by (simp add: unblock_def deregister_all_def rc_deregister_def io_deregister_def Timer_deregister_def upd_co_def set_env_def unwrap_def)
  have "pend (w_env w') = {x \<in> pend (w_env w). \<forall>tk. x \<noteq> (th, h, tk)}"
    using assms(1) timeout_lawsD(3) [OF assms(1,7)] unfolding w'(2) timeout_laws_def by simp
  with u w'(1) assms(2) r show ?thesis by (simp add: register_all_def)
qed

text \<open>
  Two coroutines, each with a timer of two seconds, on event loops that hand out a free handle: the first sets its
  timer and is woken by something else, the second sets its own under the handle that was freed, and the first blocks again when
  its timer is due. Nothing will wake the second.
\<close>

definition slot_mio :: "(nap_env, Message) mio" where
  "slot_mio = nap_mio\<lparr>mio_timeout_ms := (\<lambda>t tk d e. (Some 0, e\<lparr>ne_pending := insert (t, 0, tk) (ne_pending e)\<rparr>))\<rparr>"

definition slot_rt :: "(nap_env, ex_cells, nat, nat, unit fifo_ext) rt" where
  "slot_rt = nap_rt\<lparr>rt_mio := slot_mio\<rparr>"

definition slot_world :: "(nap_env, ex_cells, nat, nat, unit fifo_ext) world" where
  "slot_world = nap_world\<lparr>w_env := w_env nap_world, w_chans := w_chans nap_world, w_srcs := w_srcs nap_world,
     w_cos := (w_cos nap_world)(1 := (w_cos nap_world 1)\<lparr>co_the_id := Id 2, co_blocked_on := [1]\<rparr>)\<rparr>"

lemma slot_laws: "timeout_laws slot_mio ne_pending"
  by (auto simp: timeout_laws_def slot_mio_def nap_mio_def)

lemmas slot_eval = slot_world_def slot_rt_def slot_mio_def nap_eval unblock_def deregister_all_def rc_deregister_def io_deregister_def
  Timer_deregister_def rc_id_def rc_blocked_on_def unwrap_def

theorem due_timer_clears_foreign_timeout_witness:
  "\<exists>w1 w2 w3 w4. register_all slot_rt 0 0 slot_world = Inr (False, w1) \<and> rc_deregister True slot_mio 0 (Id 1) 0 w1 = Inr w2
    \<and> register_all slot_rt 0 1 w2 = Inr (False, w3) \<and> timer_set ne_pending True 0 (Id 2) 1 w3
    \<and> register_all slot_rt 0 0 w3 = Inr (True, w4) \<and> is_blocked (co_state (w_cos w4 1)) \<and> ne_pending (w_env w4) = {}"
proof -
  define w1 where "w1 = snd (projr (register_all slot_rt 0 0 slot_world))"
  define w2 where "w2 = projr (rc_deregister True slot_mio 0 (Id 1) 0 w1)"
  define w3 where "w3 = snd (projr (register_all slot_rt 0 1 w2))"
  note W = w1_def w2_def w3_def
  have a: "register_all slot_rt 0 0 slot_world = Inr (False, w1)" "rc_deregister True slot_mio 0 (Id 1) 0 w1 = Inr w2"
    "register_all slot_rt 0 1 w2 = Inr (False, w3)" "timer_set ne_pending True 0 (Id 2) 1 w3"
    "co_blocked_on (w_cos w3 0) = [0]" "es_io (w_srcs w3 0) = TimerIo \<lparr>tc_timeout = 2 * NANOS_PER_SEC, tc_mio_timeout = Some 0\<rparr>"
    "ec_id (es_common (w_srcs w3 0)) = Some (EventSourceId 0)" "co_the_id (w_cos w3 0) = Id 1"
    "ne_clock (w_env w3) = 2 * NANOS_PER_SEC" "ne_pending (w_env w3) \<subseteq> {(0, 0, tk) | tk. True}" "is_blocked (co_state (w_cos w3 1))"
    unfolding W by (simp_all add: slot_eval timer_set_def) auto
  have l: "timeout_laws (rt_mio slot_rt) ne_pending" by (simp add: slot_rt_def slot_laws)
  have f: "ids_fit (co_the_id (w_cos w3 0)) (EventSourceId 0)" by (simp add: ids_fit_def a(8))
  obtain e where n: "instant_now (rt_mio slot_rt) (w_env w3) = (2 * NANOS_PER_SEC, e)"
    using a(9) by (simp add: slot_rt_def slot_mio_def nap_mio_def)
  from due_timer_clears_foreign_timeout [OF l a(5,6) _ a(7) f n, of 0 0] obtain w4
    where b: "register_all slot_rt 0 0 w3 = Inr (True, w4)" "ne_pending (w_env w4) = {x \<in> ne_pending (w_env w3). \<forall>tk. x \<noteq> (0, 0, tk)}"
    by auto
  have "ne_pending (w_env w4) = {}" using a(10) b(2) by blast
  moreover have "is_blocked (co_state (w_cos w4 1))" using b(1) a(5,11)
    by (auto simp: register_all_def bindR_eq_Inr unblock_cos dest!: register_one_sources(6) unblock_cos split: option.splits)
  ultimately show ?thesis using a(1-4) b(1) by blast
qed

end
