(* ===== verification/Migration_Round.thy ===== *)
theory Migration_Round
  imports Wakeup
begin

text \<open>
  A migration from the scheduler that asks for it to the thread that takes the coroutine: \<open>CoroutineControl::migrate\<close>
  and \<open>reattach_to\<close> (\<^verbatim>\<open>src/src/mod.rs\<close>), \<open>detach_from\<close> and \<open>attach_to\<close> (\<^verbatim>\<open>src/src/coroutine.rs\<close>), and the mailbox
  between them.
\<close>

lemma rc_deregister_frame:
  fixes w w' :: "('el, 'sl, 'k, 'sg, 'sc) world"
  assumes "mio_laws (rt_mio rt) mail" and "rc_deregister dbg (rt_mio rt) th i s w = Inr w'"
  shows "w_hs w' = w_hs w" and "mail (w_env w') = mail (w_env w)"
proof -
  show "w_hs w' = w_hs w" by (rule world_more(3)) (use rc_deregister_view [OF assms(2)] in \<open>auto simp: io_view_def\<close>)
  have reg: "mail (snd (mio_deregister (rt_mio rt) th r e)) = mail e" "mail (mio_clear_timeout (rt_mio rt) th h e) = mail e" for r e h
    using mio_laws_frame [OF assms(1)] by simp_all
  from assms(2) obtain tok where "io_deregister (rt_mio rt) th s w = Inr w'" by (auto simp: rc_deregister_def bindR_eq_Inr)
  then have "\<exists>e. w_env w' = e \<and> (e = w_env w \<or> (\<exists>q. e = snd (mio_deregister (rt_mio rt) th q (w_env w)))
      \<or> (\<exists>h. e = mio_clear_timeout (rt_mio rt) th h (w_env w)))"
    by (cases "es_io (w_srcs w s)")
      (auto simp: io_deregister_def Timer_deregister_def case_prod_beta Let_def io_world_defs split: if_splits option.splits)
  with reg show "mail (w_env w') = mail (w_env w)" by auto
qed

lemma deregister_all_frame:
  assumes "mio_laws (rt_mio rt) mail" and "deregister_all rt th r w = Inr w'"
  shows "w_cos w' = (w_cos w)(r := (w_cos w r)\<lparr>co_blocked_on := []\<rparr>)" and "w_hs w' = w_hs w" and "mail (w_env w') = mail (w_env w)"
proof -
  note d = assms(2) [unfolded deregister_all_def]
  have "w_cos w' = w_cos (upd_co r (\<lambda>c. c\<lparr>co_blocked_on := []\<rparr>) w)" by (rule foldR_cong_inv [OF d]) (rule rc_deregister_cos)
  then show "w_cos w' = (w_cos w)(r := (w_cos w r)\<lparr>co_blocked_on := []\<rparr>)" by (simp add: upd_co_def)
  have "w_hs w' = w_hs (upd_co r (\<lambda>c. c\<lparr>co_blocked_on := []\<rparr>) w)"
    by (rule foldR_cong_inv [OF d]) (rule rc_deregister_frame(1) [OF assms(1)])
  then show "w_hs w' = w_hs w" by (simp add: upd_co_def)
  have "mail (w_env w') = mail (w_env (upd_co r (\<lambda>c. c\<lparr>co_blocked_on := []\<rparr>) w))"
    by (rule foldR_cong_inv [OF d]) (rule rc_deregister_frame(2) [OF assms(1)])
  then show "mail (w_env w') = mail (w_env w)" by (simp add: upd_co_def)
qed

lemma migrate_departs:
  assumes "runtime_laws rt mail ok" and "\<And>t. ok (hs_coroutines (w_hs w t))" and "migrate rt th c to w = Inr w'" and "r = ctrl_rc c"
  obtains h t where "co_handler_shared (w_cos w r) = Some h" and "get_sender_to_thread to (w_hs w h) = Inr t"
    and "mail (w_env w') = (mail (w_env w))(t := mail (w_env w) t @ [Migration (ctrl_new r)])"
    and "w_cos w' r = (w_cos w r)\<lparr>co_blocked_on := [], co_handler_shared := None\<rparr>"
    and "slab_get (rt_slab rt) (co_the_id (w_cos w r)) (hs_coroutines (w_hs w' h)) = None"
proof -
  from assms(3,4) obtain w1 h x s t where d: "deregister_all rt th r w = Inr w1"
    and h: "co_handler_shared (w_cos w1 r) = Some h"
    and rm: "slab_remove (rt_slab rt) (co_the_id (w_cos w1 r)) (hs_coroutines (w_hs w1 h)) = Some (x, s)"
    and t: "get_sender_to_thread to ((w_hs w1 h)\<lparr>hs_coroutines := s\<rparr>) = Inr t"
    and snd: "send_msg rt t (Migration (ctrl_new r))
       (upd_hs h (\<lambda>x. x\<lparr>hs_coroutines := s\<rparr>) (upd_co r (\<lambda>c. c\<lparr>co_handler_shared := None\<rparr>) w1)) = Inr w'"
    by (auto simp: migrate_def detach_from_def bindR_eq_Inr Let_def upd_co_def upd_hs_def)
  note D = deregister_all_frame [OF runtime_lawsD(1) [OF assms(1)] d]
  from assms(2) D(2) have "ok (hs_coroutines (w_hs w1 h))" by simp
  note s = slab_remove_laws [OF runtime_lawsD(2) [OF assms(1)] this rm]
  from snd obtain e where "sender_retry (rt_mio rt) t (Migration (ctrl_new r)) (w_env w1) = Inr e"
    and w': "w' = set_env e (upd_hs h (\<lambda>x. x\<lparr>hs_coroutines := s\<rparr>) (upd_co r (\<lambda>c. c\<lparr>co_handler_shared := None\<rparr>) w1))"
    by (auto simp: send_msg_def bindR_eq_Inr upd_co_def upd_hs_def)
  from sender_retry_mail [OF runtime_lawsD(1) [OF assms(1)] this(1)]
  have e: "mail e = (mail (w_env w1))(t := mail (w_env w1) t @ [Migration (ctrl_new r)])" .
  show thesis
  proof (rule that [of h t])
    show "co_handler_shared (w_cos w r) = Some h" using h D(1) by simp
    show "get_sender_to_thread to (w_hs w h) = Inr t" using t D(2) by (simp add: get_sender_to_thread_def split: if_splits)
    show "mail (w_env w') = (mail (w_env w))(t := mail (w_env w) t @ [Migration (ctrl_new r)])"
      using e D(3) by (simp add: w' set_env_def)
    show "w_cos w' r = (w_cos w r)\<lparr>co_blocked_on := [], co_handler_shared := None\<rparr>"
      using D(1) by (simp add: w' set_env_def upd_hs_def upd_co_def)
    show "slab_get (rt_slab rt) (co_the_id (w_cos w r)) (hs_coroutines (w_hs w' h)) = None"
      using s D(1) by (simp add: w' set_env_def upd_hs_def upd_co_def)
  qed
qed

lemma reattach_arrives:
  assumes "runtime_laws rt mail ok" and "ok (hs_coroutines (w_hs w th))" and "reattach_to rt th c w = Inr w'" and "r = ctrl_rc c"
    and "co_blocked_on (w_cos w r) = []"
  obtains i where "w_cos w' r = (w_cos w r)\<lparr>co_handler_shared := Some th, co_the_id := i\<rparr>"
    and "slab_get (rt_slab rt) i (hs_coroutines (w_hs w th)) = None"
    and "slab_get (rt_slab rt) i (hs_coroutines (w_hs w' th)) = Some r" and "w_env w' = w_env w"
proof -
  let ?sl = "rt_slab rt" and ?s = "hs_coroutines (w_hs w th)"
  note s_ok = assms(2)
  from assms(3,4) obtain i s' b where ins: "slab_insert ?sl r (slab_reserve ?sl ?s) = Some (i, s')"
    and reg: "register_all rt th r (upd_co r (\<lambda>c. c\<lparr>co_the_id := i, co_handler_shared := Some th\<rparr>)
        (upd_hs th (\<lambda>_. (w_hs w th)\<lparr>hs_coroutines := s'\<rparr>) w)) = Inr (b, w')"
    by (auto simp: reattach_to_def HandlerShared_attach_def attach_to_def bindR_eq_Inr split: option.splits)
  note laws = runtime_lawsD(2) [OF assms(1)]
  from slab_insert_laws(1) [OF laws slab_reserve_laws(1) [OF laws s_ok] ins]
  have s': "slab_get ?sl i ?s = None" "slab_get ?sl i s' = Some r" by (auto simp: slab_reserve_laws(2) [OF laws s_ok])
  from reg assms(5) have "w' = upd_co r (\<lambda>c. c\<lparr>co_the_id := i, co_handler_shared := Some th\<rparr>)
        (upd_hs th (\<lambda>_. (w_hs w th)\<lparr>hs_coroutines := s'\<rparr>) w)"
    by (simp add: register_all_def upd_co_def upd_hs_def)
  with s' show thesis by (intro that [of i]) (simp_all add: upd_co_def upd_hs_def)
qed

text \<open>
  C17: migrating a coroutine loses nothing of it. \<open>migrate\<close> takes it out of the slab of its thread and puts one
  \<open>Migration\<close> behind the other messages of the thread that the scheduler named. When that thread handles the
  message, whatever happened in between, the coroutine is in a free slot of its slab, with the id of the slot, and is
  otherwise as it was: state, context, user data, children and the event it saw last. It waits for nothing.
\<close>

theorem migration_round_trip:
  assumes "runtime_laws rt mail ok" and "\<And>t. ok (hs_coroutines (w_hs w t))" and "migrate rt th c to w = Inr w1" and "r = ctrl_rc c"
    and "ok (hs_coroutines (w_hs w2 t))" and "w_cos w2 r = w_cos w1 r" and "reattach_to rt t (ctrl_new r) w2 = Inr w3"
  shows "(\<exists>h t'. co_handler_shared (w_cos w r) = Some h \<and> get_sender_to_thread to (w_hs w h) = Inr t'
        \<and> mail (w_env w1) = (mail (w_env w))(t' := mail (w_env w) t' @ [Migration (ctrl_new r)])
        \<and> slab_get (rt_slab rt) (co_the_id (w_cos w r)) (hs_coroutines (w_hs w1 h)) = None)
    \<and> (\<exists>i. slab_get (rt_slab rt) i (hs_coroutines (w_hs w2 t)) = None
        \<and> slab_get (rt_slab rt) i (hs_coroutines (w_hs w3 t)) = Some r
        \<and> w_cos w3 r = (w_cos w r)\<lparr>co_blocked_on := [], co_handler_shared := Some t, co_the_id := i\<rparr>)"
proof -
  from migrate_departs [OF assms(1-4)] obtain h t' where m: "co_handler_shared (w_cos w r) = Some h"
    "get_sender_to_thread to (w_hs w h) = Inr t'"
    "mail (w_env w1) = (mail (w_env w))(t' := mail (w_env w) t' @ [Migration (ctrl_new r)])"
    "w_cos w1 r = (w_cos w r)\<lparr>co_blocked_on := [], co_handler_shared := None\<rparr>"
    "slab_get (rt_slab rt) (co_the_id (w_cos w r)) (hs_coroutines (w_hs w1 h)) = None" .
  have c: "r = ctrl_rc (ctrl_new r)" "co_blocked_on (w_cos w2 r) = []" using assms(6) m(4) by (simp_all add: ctrl_new_def)
  from reattach_arrives [OF assms(1,5,7) c] obtain i where
    "w_cos w3 r = (w_cos w2 r)\<lparr>co_handler_shared := Some t, co_the_id := i\<rparr>"
    "slab_get (rt_slab rt) i (hs_coroutines (w_hs w2 t)) = None"
    "slab_get (rt_slab rt) i (hs_coroutines (w_hs w3 t)) = Some r" .
  with assms(6) m show ?thesis by auto
qed

text \<open>The coroutine of the example, ready on thread 0 and sent to thread 1.\<close>

theorem migration_round_trip_witness:
  "\<exists>w1 w3. migrate ex_rt 0 (ctrl_new 0) 1 ex_yielded = Inr w1 \<and> ex_mail (w_env w1) 1 = [Migration (ctrl_new 0)]
    \<and> reattach_to ex_rt 1 (ctrl_new 0) w1 = Inr w3
    \<and> (\<exists>i. slab_get (rt_slab ex_rt) i (hs_coroutines (w_hs w3 1)) = Some 0
        \<and> w_cos w3 0 = (w_cos ex_yielded 0)\<lparr>co_blocked_on := [], co_handler_shared := Some 1, co_the_id := i\<rparr>)"
proof -
  obtain w1 w3 where a: "migrate ex_rt 0 (ctrl_new 0) 1 ex_yielded = Inr w1" "reattach_to ex_rt 1 (ctrl_new 0) w1 = Inr w3"
    "ex_ok (hs_coroutines (w_hs w1 1))" "ex_mail (w_env w1) 1 = [Migration (ctrl_new 0)]"
    by (simp add: ex_yielded_def migrate_def detach_from_def reattach_to_def HandlerShared_attach_def attach_to_def
        get_sender_to_thread_def ex_mail_def ex_ok_def ex_eval ex_run ex_end)
  have "ex_ok (hs_coroutines (w_hs ex_yielded t))" for t by (simp add: ex_ok_def ex_eval)
  from migration_round_trip [OF ex_runtime_laws this a(1) _ a(3) refl a(2)] a show ?thesis by (auto simp: ctrl_new_def)
qed

end
