(* ===== verification/Offload.thy ===== *)
theory Offload
  imports Lifecycle
begin

text \<open>
  \<open>offload\<close> (\<^verbatim>\<open>src/src/mod.rs\<close>): a coroutine hands a closure to an operating system thread of its own and waits
  on a channel until that thread is done.
\<close>

text \<open>The channel of \<open>offload\<close>, made at its first use by a coroutine and kept.\<close>

definition offload_channel ::
  "thread_id \<Rightarrow> ('el, 'sl, 'k, 'sg, 'sc) world \<Rightarrow> ((chan_ref \<times> src_ref) \<times> ('el, 'sl, 'k, 'sg, 'sc) world) res" where
  "offload_channel th w =
     bindR (tl_current_coroutine th w) (\<lambda>co.
       case co_sync_channel (w_cos w co) of
         Some cs \<Rightarrow> Inr (cs, w)
       | None \<Rightarrow> (let (cs, w1) = new_channel w in Inr (cs, upd_co co (\<lambda>c. c\<lparr>co_sync_channel := Some cs\<rparr>) w1)))"

text \<open>
  The helper thread, from the end of the closure: a result is announced through the clone of the sender, a
  panic is not, and the clone is dropped either way. \<open>notify\<close> wakes the receiver of the channel.
\<close>

definition offload_notify ::
  "('el, 'sl, 'k, 'sg, 'sc) rt \<Rightarrow> thread_id \<Rightarrow> token \<Rightarrow> ('el, 'sl, 'k, 'sg, 'sc) world \<Rightarrow> ('el, 'sl, 'k, 'sg, 'sc) world res" where
  "offload_notify rt t token w = bindR (notify_token rt t token (w_env w)) (\<lambda>e. Inr (set_env e w))"

definition offload_helper ::
  "(thread_id \<Rightarrow> token \<Rightarrow> 'w \<Rightarrow> 'w res) \<Rightarrow> panic + nat \<Rightarrow> val chan \<Rightarrow> 'w \<Rightarrow> (val chan \<times> 'w) res" where
  "offload_helper notify res ch w =
     bindR (case res of
              Inr _ \<Rightarrow> bindR (Sender_send notify VUnit ch w) (\<lambda>(sent, ch1, w1).
                         if sent = SendDone then Inr (ch1, w1) else Inl UnwrapNone)
            | Inl _ \<Rightarrow> Inr (ch, w))
       (\<lambda>(ch1, w1). Sender_drop notify ch1 w1)"

text \<open>
  The coroutine blocks (\<open>pause\<close>: what everything else does meanwhile), and the helper thread may end during
  the wait: \<open>Some n\<close> says that it ends in the wait after \<open>n\<close> more, \<open>None\<close> that it has ended.
\<close>

definition offload_wait ::
  "(thread_id \<Rightarrow> token \<Rightarrow> 'w \<Rightarrow> 'w res) \<Rightarrow> (val chan \<Rightarrow> 'w \<Rightarrow> (val chan \<times> 'w) res) \<Rightarrow> panic + nat \<Rightarrow>
   val chan \<Rightarrow> 'w \<times> nat option \<Rightarrow> (val chan \<times> 'w \<times> nat option) res" where
  "offload_wait notify pause res ch = (\<lambda>(w, helper).
     bindR (pause ch w) (\<lambda>(ch1, w1).
       case helper of
         None \<Rightarrow> Inr (ch1, w1, None)
       | Some 0 \<Rightarrow> bindR (offload_helper notify res ch1 w1) (\<lambda>(ch2, w2). Inr (ch2, w2, None))
       | Some (Suc n) \<Rightarrow> Inr (ch1, w1, Some n)))"

text \<open>
  The whole call. The closure ends with \<open>res\<close>, before the coroutine looks for the first time when \<open>delay\<close> is
  0 and in its wait number \<open>delay\<close> otherwise. The channel is taken out of its cell for the call, which
  only the coroutine and the helper use.
\<close>

definition offload ::
  "('el, 'sl, 'k, 'sg, 'sc) rt \<Rightarrow> thread_id \<Rightarrow>
   (val chan \<Rightarrow> ('el, 'sl, 'k, 'sg, 'sc) world \<Rightarrow> (val chan \<times> ('el, 'sl, 'k, 'sg, 'sc) world) res) \<Rightarrow> panic + nat \<Rightarrow> nat \<Rightarrow>
   ('el, 'sl, 'k, 'sg, 'sc) world \<Rightarrow> (nat \<times> ('el, 'sl, 'k, 'sg, 'sc) world) res option" where
  "offload rt th pause res delay w =
     bindO (Some (offload_channel th w)) (\<lambda>((tx, rx), w1).
     bindO (Some (let ch = Sender_clone (w_chans w1 tx)
                  in case delay of
                       0 \<Rightarrow> bindR (offload_helper (offload_notify rt) res ch w1) (\<lambda>(ch2, w2). Inr (ch2, w2, None))
                     | Suc n \<Rightarrow> Inr (ch, w1, Some n))) (\<lambda>(ch, s).
     bindO (Receiver_recv (rt_dbg rt) True (offload_wait (offload_notify rt) pause res) (\<lambda>ch s. Inr (ch, s)) ch s)
       (\<lambda>(received, ch2, w2, helper).
          if received = None then Some (Inl UnwrapNone)
          else case res of
                 Inl cause \<Rightarrow> Some (Inl cause)
               | Inr r \<Rightarrow> Some (Inr (r, set_chan tx ch2 w2)))))"

text \<open>The channel of a coroutine that offloads, before the helper ended and after.\<close>

lemmas offload_ops = offload_helper_def Sender_clone_def Sender_send_def Sender_drop_def drop_shared_def drop_std_def
  count_and_notify_def counter_fetch_add_def counter_fetch_sub_def maybe_notify_receiver_def std_push_def try_recv_def
  std_try_recv_def channel_def empty_shared_token_def debug_assert_def

lemma helper_announces: "offload_helper notify (Inr r) (Sender_clone channel) w = Inr (std_push VUnit (channel\<lparr>ch_counter := 1\<rparr>), w)"
  by (simp add: offload_ops Let_def)

lemma helper_panics: "offload_helper notify (Inl p) (Sender_clone channel) w = Inr (channel, w)"
  by (simp add: offload_ops Let_def)

lemma recv_announced: "recv_round dbg block (std_push VUnit (channel\<lparr>ch_counter := 1\<rparr>), s) = Inl (Inr (Some VUnit, channel, s))"
  by (simp add: recv_round_def offload_ops Let_def)

lemma loop_announced:
  "rust_loop (recv_round dbg block) (std_push VUnit (channel\<lparr>ch_counter := 1\<rparr>), s) = Some (Inr (Some VUnit, channel, s))"
  by (rule rust_loop_first) (rule recv_announced)

lemma recv_waits:
  assumes "pause (Sender_clone channel) w = Inr (Sender_clone channel, w')"
  shows "recv_round dbg (offload_wait notify pause res) (Sender_clone channel, w, Some (Suc n)) = Inr (Sender_clone channel, w', Some n)"
  using assms by (simp add: recv_round_def offload_wait_def offload_ops)

lemma recv_waits_ended:
  assumes "pause channel w = Inr (channel, w')"
  shows "recv_round dbg (offload_wait notify pause res) (channel, w, None) = Inr (channel, w', None)"
  using assms by (simp add: recv_round_def offload_wait_def offload_ops)

lemma recv_helper_ends:
  assumes "pause (Sender_clone channel) w = Inr (Sender_clone channel, w')"
    and "offload_helper notify res (Sender_clone channel) w' = Inr (ch, w'')" and "ch_token ch = None"
  shows "recv_round dbg (offload_wait notify pause res) (Sender_clone channel, w, Some 0) = Inr (ch, w'', None)"
proof -
  have "try_recv (Sender_clone channel :: val chan) = (RecvEmpty, Sender_clone channel)" by (simp add: offload_ops)
  with assms show ?thesis by (simp add: recv_round_def offload_wait_def empty_shared_token_def debug_assert_def)
qed

lemma recv_after_result:
  assumes "\<forall>ch u. \<exists>u'. pause ch u = Inr (ch, u')"
  shows "\<exists>u'. rust_loop (recv_round dbg (offload_wait notify pause (Inr r))) (Sender_clone channel, u, Some n)
    = Some (Inr (Some VUnit, channel, u', None))"
proof (induction n arbitrary: u)
  case 0
  obtain v where p: "pause (Sender_clone channel) u = Inr (Sender_clone channel, v)" using assms by blast
  have "ch_token (std_push VUnit (channel\<lparr>ch_counter := 1\<rparr>)) = None" by (simp add: std_push_def channel_def)
  note r = recv_helper_ends [of pause, OF p helper_announces [where r = r and notify = notify] this, where dbg = dbg]
  show ?case by (simp add: rust_loop_again [of "recv_round dbg (offload_wait notify pause (Inr r))", OF r] loop_announced)
next
  case (Suc n)
  obtain v where p: "pause (Sender_clone channel) u = Inr (Sender_clone channel, v)" using assms by blast
  from rust_loop_again [of "recv_round dbg (offload_wait notify pause (Inr r))", OF recv_waits [of pause, OF p]] Suc.IH [of v] show ?case by simp
qed

lemma recv_after_panic:
  assumes "\<forall>ch u. \<exists>u'. pause ch u = Inr (ch, u')" and "h = None \<and> ch = channel \<or> h \<noteq> None \<and> ch = Sender_clone channel"
  shows "rust_loop (recv_round dbg (offload_wait notify pause (Inl p))) (ch, u, h) = None"
proof (rule rust_loop_diverges [where P = "\<lambda>(ch, u, h). h = None \<and> ch = channel \<or> h \<noteq> None \<and> ch = Sender_clone channel"])
  show "case (ch, u, h) of (ch, u, h) \<Rightarrow> h = None \<and> ch = channel \<or> h \<noteq> None \<and> ch = Sender_clone channel"
    using assms(2) by simp
  fix s :: "val chan \<times> 'a \<times> nat option"
  assume P: "case s of (ch, u, h) \<Rightarrow> h = None \<and> ch = channel \<or> h \<noteq> None \<and> ch = Sender_clone channel"
  obtain c u0 h0 where s: "s = (c, u0, h0)" by (cases s)
  obtain v where v: "pause c u0 = Inr (c, v)" using assms(1) by blast
  have t: "ch_token (channel :: val chan) = None" by (simp add: channel_def)
  show "\<exists>s'. recv_round dbg (offload_wait notify pause (Inl p)) s = Inr s'
      \<and> (case s' of (ch, u, h) \<Rightarrow> h = None \<and> ch = channel \<or> h \<noteq> None \<and> ch = Sender_clone channel)"
  proof (cases h0)
    case None
    with P have c: "c = channel" by (simp add: s)
    from recv_waits_ended [of pause, OF v [unfolded c]] s c None show ?thesis by simp
  next
    case (Some n)
    with P s have c: "c = Sender_clone channel" by simp
    show ?thesis
    proof (cases n)
      case 0
      with recv_helper_ends [of pause, OF v [unfolded c] helper_panics t] s c Some show ?thesis by simp
    next
      case (Suc m)
      with recv_waits [of pause, OF v [unfolded c]] s c Some show ?thesis by simp
    qed
  qed
qed

text \<open>
  \<open>offload\<close> returns the result of the closure, whenever the helper thread ends: before the coroutine looks
  or during any of its waits. It leaves the channel as it was, so the next call finds it ready.
\<close>

theorem offload_returns:
  assumes "offload_channel th w = Inr ((tx, rx), w1)" and "w_chans w1 tx = channel"
    and "\<forall>ch u. \<exists>u'. pause ch u = Inr (ch, u')"
  shows "\<exists>w'. offload rt th pause (Inr r) delay w = Some (Inr (r, w')) \<and> w_chans w' tx = channel"
proof (cases delay)
  case 0
  with assms(1,2)
  show ?thesis by (simp add: loop_announced offload_def helper_announces Receiver_recv_def set_chan_def)
next
  case (Suc n)
  from recv_after_result [OF assms(3), where dbg = "rt_dbg rt" and notify = "offload_notify rt" and r = r and u = w1 and n = n] Suc assms(1,2)
  show ?thesis by (auto simp: offload_def Receiver_recv_def set_chan_def)
qed

text \<open>
  C30: a closure that panics hangs the coroutine that offloaded it. The helper thread unwinds without sending,
  and dropping its clone of the sender disconnects nothing, since the coroutine keeps the original in
  \<open>sync_channel\<close>: \<open>recv\<close> waits for ever, and the panic, which \<open>join\<close> would pass on, never arrives.
\<close>

theorem offload_panic_hangs:
  assumes "offload_channel th w = Inr ((tx, rx), w1)" and "w_chans w1 tx = channel"
    and "\<forall>ch u. \<exists>u'. pause ch u = Inr (ch, u')"
  shows "offload rt th pause (Inl p) delay w = None"
proof (cases delay)
  case 0
  from recv_after_panic [OF assms(3), of None channel] 0 assms(1,2)
  show ?thesis by (simp add: offload_def helper_panics Receiver_recv_def)
next
  case (Suc n)
  from recv_after_panic [OF assms(3), of "Some n" "Sender_clone channel"] Suc assms(1,2)
  show ?thesis by (simp add: offload_def Receiver_recv_def)
qed

text \<open>The channel is made at the first use and kept for the next.\<close>

lemma offload_channel_kept:
  assumes "w_current w th = Some co" and "co_sync_channel (w_cos w co) = None"
  shows "\<exists>w1. offload_channel th w = Inr ((w_nchan w, w_nsrc w), w1) \<and> w_chans w1 (w_nchan w) = channel
    \<and> offload_channel th w1 = Inr ((w_nchan w, w_nsrc w), w1)"
  using assms by (simp add: offload_channel_def tl_current_coroutine_def new_channel_def alloc_channel_def Let_def upd_co_def
        set_chan_def set_src_def)

lemma ex_offload_channel:
  "\<exists>w1. offload_channel 0 ex_running = Inr ((1, 1), w1) \<and> w_chans w1 1 = channel"
proof -
  have "w_current ex_running 0 = Some 0" "co_sync_channel (w_cos ex_running 0) = None" "w_nchan ex_running = 1" "w_nsrc ex_running = 1"
    by (simp_all add: ex_running_eval)
  with offload_channel_kept [of ex_running 0 0] show ?thesis by auto
qed

theorem offload_returns_witness:
  "\<exists>w'. offload ex_rt 0 (\<lambda>ch u. Inr (ch, u)) (Inr 5) 2 ex_running = Some (Inr (5, w')) \<and> w_chans w' 1 = channel"
  using ex_offload_channel offload_returns [of 0 ex_running 1 1 _ "\<lambda>ch u. Inr (ch, u)" ex_rt 5 2] by auto

theorem offload_panic_hangs_witness:
  "offload ex_rt 0 (\<lambda>ch u. Inr (ch, u)) (Inl (UserPanic 3)) 2 ex_running = None"
  using ex_offload_channel offload_panic_hangs [of 0 ex_running 1 1 _ "\<lambda>ch u. Inr (ch, u)" ex_rt "UserPanic 3" 2] by auto

text \<open>
  \<open>offload\<close> makes its channel once and leaves it ready for the next time: a second call in the same coroutine
  uses the same channel and returns as well.
\<close>

theorem offload_reuses_channel:
  assumes "w_current w th = Some co" and "co_sync_channel (w_cos w co) = None"
  shows "\<exists>w1 w2. offload_channel th w = Inr ((w_nchan w, w_nsrc w), w1)
    \<and> offload rt th (\<lambda>ch u. Inr (ch, u)) (Inr r) 0 w = Some (Inr (r, w1)) \<and> w_chans w1 (w_nchan w) = channel
    \<and> offload rt th (\<lambda>ch u. Inr (ch, u)) (Inr r2) 0 w1 = Some (Inr (r2, w2)) \<and> w2 = w1"
proof -
  from offload_channel_kept [OF assms] obtain w1 where
    c: "offload_channel th w = Inr ((w_nchan w, w_nsrc w), w1)" "w_chans w1 (w_nchan w) = channel"
      "offload_channel th w1 = Inr ((w_nchan w, w_nsrc w), w1)" by blast
  have "set_chan (w_nchan w) channel w1 = w1" using c(2) by (simp add: set_chan_def fun_upd_idem)
  with c show ?thesis
    by (simp add: loop_announced offload_def helper_announces Receiver_recv_def)
qed

theorem offload_reuses_channel_witness:
  "\<exists>w'. offload ex_rt 0 (\<lambda>ch u. Inr (ch, u)) (Inr 1) 0 ex_running = Some (Inr (1, w')) \<and> w_chans w' 1 = channel
    \<and> offload ex_rt 0 (\<lambda>ch u. Inr (ch, u)) (Inr 2) 0 w' = Some (Inr (2, w'))"
proof -
  have "w_current ex_running 0 = Some 0" "co_sync_channel (w_cos ex_running 0) = None" "w_nchan ex_running = 1"
    by (simp_all add: ex_running_eval)
  with offload_reuses_channel [of ex_running 0 0 ex_rt 1 2] show ?thesis by auto
qed

end
