(* ===== verification/Start.thy ===== *)
theory Start
  imports Lifecycle
begin

text \<open>
  \<open>Mioco::start\<close> (\<^verbatim>\<open>src/src/mod.rs\<close>) from the call to the result it returns: the exit channel, \<open>run\<close>, the event loops
  of all threads up to their end, the join of the threads and the join of the first coroutine.
\<close>

text \<open>
  The event loops of an instance together, with the threads whose loop was told to end: that is what the handler
  does with \<open>Terminate\<close>. The loops that go on take the steps of the instance.
\<close>

inductive loop_step ::
  "('el, 'sl, 'k, 'sg, 'sc) rt \<Rightarrow> ('el \<Rightarrow> thread_id \<Rightarrow> Message list) \<Rightarrow>
   ('el, 'sl, 'k, 'sg, 'sc) world \<times> thread_id set \<Rightarrow> ('el, 'sl, 'k, 'sg, 'sc) world \<times> thread_id set \<Rightarrow> bool"
  for rt mail where
  LRun: "istep rt mail w w' \<Longrightarrow> loop_step rt mail (w, T) (w', T)"
| LStop: "mail (w_env w) th = Terminate # ms \<Longrightarrow> mail e = (mail (w_env w))(th := ms) \<Longrightarrow>
    Handler_notify rt th Terminate (set_env e w) = Some (Inr w') \<Longrightarrow> loop_step rt mail (w, T) (w', insert th T)"

text \<open>The end of \<open>run\<close>: the handles of the threads are joined and gone.\<close>

definition join_threads :: "'sg mioco \<Rightarrow> 'sg mioco" where
  "join_threads m = m\<lparr>m_join_handles := 0\<rparr>"

text \<open>The exit channel \<open>c\<close> of the first coroutine, in a fresh cell, with its receiver's event source \<open>s\<close>.\<close>

definition exit_channel :: "chan_ref \<Rightarrow> src_ref \<Rightarrow> ('el, val) io_world \<Rightarrow> ('el, val) io_world" where
  "exit_channel c s io = set_src s (RcEventSource_new (ReceiverIo c)) (set_chan c channel io)"

text \<open>
  \<open>start\<close> returns \<open>r\<close>, and leaves the world \<open>w'\<close>, when every thread's loop has ended. The receive of the result is
  the native one, since the caller is no coroutine, and nothing can arrive any more while it waits.
\<close>

inductive Mioco_start ::
  "('el, 'sl, 'k, 'sg, 'sc) rt \<Rightarrow> ('el \<Rightarrow> thread_id \<Rightarrow> Message list) \<Rightarrow> 'sg mioco \<Rightarrow> thread_id list \<Rightarrow> 'k \<Rightarrow>
   ('el, val) io_world \<Rightarrow> chan_ref \<Rightarrow> src_ref \<Rightarrow> 'sg mioco \<Rightarrow> join_result \<Rightarrow> ('el, 'sl, 'k, 'sg, 'sc) world \<Rightarrow> bool"
  for rt mail m order f io c s where
  "Mioco_run rt m order f c (exit_channel c s io) (Suc c) (Suc s) = Inr (m1, w) \<Longrightarrow>
   (loop_step rt mail)\<^sup>*\<^sup>* (w, {}) (w', {..<cfg_thread_num (m_config m)}) \<Longrightarrow>
   Receiver_recv (rt_dbg rt) False (\<lambda>ch e. Inr (ch, e)) (\<lambda>ch e. Inr (ch, e)) (w_chans w' c) () = Some (Inr (v, ch, e)) \<Longrightarrow>
   join v = Some r \<Longrightarrow>
   Mioco_start rt mail m order f io c s (join_threads m1) r w'"

text \<open>The free functions \<open>start\<close> and \<open>start_threads\<close>.\<close>

definition start where
  "start rt mail num_cpus = Mioco_start rt mail (Mioco_new num_cpus)"

definition start_threads where
  "start_threads rt mail num_cpus n = Mioco_start rt mail (start_threads_config num_cpus n)"

text \<open>The number of coroutines ever spawned only grows.\<close>

lemma lsteps_next: "lstep\<^sup>*\<^sup>* L L' \<Longrightarrow> lg_next L \<le> lg_next L'"
  by (induction rule: rtranclp_induct) (auto dest: lstep_next)

lemma reachable_nco:
  assumes "reachable rt mail ok w" and "istep rt mail w w'"
  shows "w_nco w \<le> w_nco w'"
  using lsteps_next [OF reachable_lsteps [OF assms]] by (simp add: ledger_of_def)

lemma reachable_done:
  assumes "reachable rt mail ok w" and "istep rt mail w w'" and "{q. alive w q} = {}"
  shows "{q. alive w' q} = {}"
  using lsteps_done [OF reachable_lsteps [OF assms(1,2)]] assms(3) by simp

lemma booted_nco:
  assumes "booted rt mail ok w"
  shows "0 < w_nco w"
  using assms
proof (rule booted_start)
  fix ud f ex cfg order io nchan nsrc
  assume L: "runtime_laws rt mail ok" and "lmail mail (w_env io) = (\<lambda>t. [])"
    "thread_loop_start rt ud f ex (fresh_world rt cfg order io nchan nsrc) = Inr w"
  from boot_shape(2) [OF this] show ?thesis by (auto simp: linit_def ledger_of_def led_spawn_def)
qed

text \<open>A loop that ended did so after the last coroutine, and none came after it.\<close>

lemma loop_run:
  assumes "(loop_step rt mail)\<^sup>*\<^sup>* (w, {}) p" and "reachable rt mail ok w"
  shows "reachable rt mail ok (fst p) \<and> w_nco w \<le> w_nco (fst p) \<and> (w_nco (fst p) < 2 ^ 64 \<longrightarrow> snd p \<noteq> {} \<longrightarrow> {q. alive (fst p) q} = {})"
  using assms(1)
proof (induction rule: rtranclp_induct)
  case base
  then show ?case using assms(2) by simp
next
  case (step p p')
  obtain u T where p: "p = (u, T)" by (cases p)
  obtain u' T' where p': "p' = (u', T')" by (cases p')
  from step.IH p have R: "reachable rt mail ok u" and D: "w_nco u < 2 ^ 64 \<Longrightarrow> T \<noteq> {} \<Longrightarrow> {q. alive u q} = {}" by auto
  have i: "istep rt mail u u' \<and> (T' = T \<or> (\<exists>th. Terminate \<in> set (mail (w_env u) th)))"
    using step.hyps(2) unfolding p p'
  proof cases
    case LRun
    then show ?thesis by simp
  next
    case (LStop th ms e)
    from LStop(2) have "Terminate \<in> set (mail (w_env u) th)" by simp
    with INotify [OF LStop(2,3,4)] show ?thesis by blast
  qed
  note n = reachable_nco [OF R conjunct1 [OF i]]
  have "{q. alive u' q} = {}" if b: "w_nco u' < 2 ^ 64" and "T' \<noteq> {}"
  proof (rule reachable_done [OF R conjunct1 [OF i]])
    from b n have s: "w_nco u < 2 ^ 64" by simp
    show "{q. alive u q} = {}"
    proof (cases "T' = T")
      case True
      with D s that show ?thesis by blast
    next
      case False
      with i obtain th where "Terminate \<in> set (mail (w_env u) th)" by blast
      with linv_term [OF reachable_linv [OF R], of th] s show ?thesis by (simp add: reachable_Terminate)
    qed
  qed
  moreover have "w_nco w \<le> w_nco u" using step.IH p by simp
  ultimately show ?case using R i n p' by (auto intro: reach.intros(2))
qed

text \<open>
  C10: \<open>start\<close> blocks until there are no more coroutines to run. When it returns, every coroutine that was ever
  spawned in the instance has finished, the first one among them, none is in flight between threads, and all
  threads were joined.
\<close>

theorem start_returns_when_done:
  assumes "Mioco_start rt mail m order f io c s m' r w'" and "runtime_laws rt mail ok" and "code_unwinds rt"
    and "mset order = mset [1..<cfg_thread_num (m_config m)]" and "lmail mail (w_env io) = (\<lambda>t. [])" and "w_nco w' < 2 ^ 64"
  shows "(\<forall>q. co_state (w_cos w' q) = Finished) \<and> 0 < w_nco w' \<and> w_num w' = 0 \<and> m_join_handles m' = 0
    \<and> (\<forall>t. flying_of (mail (w_env w') t) = [])"
  using assms(1)
proof cases
  case (1 m1 w v ch e)
  have b: "booted rt mail ok w"
    unfolding booted_def using assms(2-5) 1(2)
    by (intro conjI exI [of _ m] exI [of _ order] exI [of _ f] exI [of _ c] exI [of _ "exit_channel c s io"] exI [of _ "Suc c"]
        exI [of _ "Suc s"] exI [of _ m1]) (simp_all add: exit_channel_def set_src_def set_chan_def)
  then have R0: "reachable rt mail ok w" by (rule reach.intros(1))
  note W = loop_run [OF 1(3) R0]
  then have R: "reachable rt mail ok w'" by simp
  have "cfg_thread_num (m_config m) \<noteq> 0" using 1(2) by (auto simp: Mioco_run_def Let_def split: if_splits)
  then have "{..<cfg_thread_num (m_config m)} \<noteq> {}" by auto
  with W assms(6) have d: "{q. alive w' q} = {}" by simp
  note L = reachable_linv [OF R]
  have "w_num w' = 0" using linv_count [OF L] d by (simp add: count_ok_def)
  moreover have "flying_of (mail (w_env w') t) = []" for t
    using flight_live [OF L, of _ t] d by (cases "flying_of (mail (w_env w') t)") (auto simp: lmail_def)
  moreover have "0 < w_nco w'" using booted_nco [OF b] W by simp
  ultimately show ?thesis using d 1(1) by (auto simp: alive_def join_threads_def)
qed

text \<open>The example instance from its start to the result.\<close>

definition ex_all_stopped :: "(thread_id \<Rightarrow> Message list, ex_cells, nat, nat, unit fifo_ext) world" where
  "ex_all_stopped = set_env (\<lambda>t. []) ex_done"

lemma ex_loops: "(loop_step ex_rt ex_mail)\<^sup>*\<^sup>* (ex_boot, {}) (ex_all_stopped, {..<2})"
proof -
  have 1: "loop_step ex_rt ex_mail (ex_boot, {}) (ex_yielded, {})" by (rule LRun [OF ex_yielded_step])
  have 2: "loop_step ex_rt ex_mail (ex_yielded, {}) (ex_done, {})" by (rule LRun [OF ITick [OF ex_tick2]])
  have 3: "loop_step ex_rt ex_mail (ex_done, {}) (ex_stopped, {0})"
    by (rule LStop [where ms = "[]" and e = "w_env ex_stopped"])
      (simp_all add: ex_stopped_def ex_done_def ex_world_def set_env_def ex_rt_def ex_mio_def ex_mail_def debug_assert_def
        fun_eq_iff Let_def)
  have 4: "loop_step ex_rt ex_mail (ex_stopped, {0}) (ex_all_stopped, insert 1 {0})"
    by (rule LStop [where ms = "[]" and e = "w_env ex_all_stopped"])
      (simp_all add: ex_all_stopped_def ex_stopped_def ex_done_def ex_world_def set_env_def ex_rt_def ex_mio_def ex_mail_def
        debug_assert_def fun_eq_iff Let_def)
  have 5: "insert 1 {0} = {..<2 :: nat}" by auto
  note into = converse_rtranclp_into_rtranclp [of "loop_step ex_rt ex_mail"]
  show ?thesis unfolding 5 [symmetric] by (rule into [OF 1 into [OF 2 into [OF 3 into [OF 4 rtranclp.rtrancl_refl]]]])
qed

lemma ex_start: "\<exists>m'. Mioco_start ex_rt ex_mail (new_configured ex_config) [1] 1 ex_io 0 0 m' (Joined 7) ex_all_stopped"
proof -
  have io: "exit_channel 0 0 ex_io = ex_io" by (simp add: exit_channel_def ex_io_def set_src_def set_chan_def fun_eq_iff)
  obtain m1 where "Mioco_run ex_rt (new_configured ex_config) [1] 1 0 (exit_channel 0 0 ex_io) (Suc 0) (Suc 0) = Inr (m1, ex_boot)"
    using ex_boot_runs by (auto simp: io)
  moreover have "(loop_step ex_rt ex_mail)\<^sup>*\<^sup>* (ex_boot, {}) (ex_all_stopped, {..<cfg_thread_num (m_config (new_configured ex_config))})"
    using ex_loops by (simp add: new_configured_def ex_config_def set_thread_num_def)
  moreover have "Receiver_recv (rt_dbg ex_rt) False (\<lambda>ch e. Inr (ch, e)) (\<lambda>ch e. Inr (ch, e)) (w_chans ex_all_stopped 0) ()
      = Some (Inr (Some (VExit (Inr 7)), (ex_exit_channel (Inr 7))\<lparr>ch_queue := []\<rparr>, ()))"
    unfolding Receiver_recv_def
    by (simp, rule rust_loop_first)
      (simp add: native_recv_round_def std_try_recv_def ex_all_stopped_def ex_done_def ex_world_def ex_exit_channel_def Let_def set_env_def)
  ultimately have "Mioco_start ex_rt ex_mail (new_configured ex_config) [1] 1 ex_io 0 0 (join_threads m1) (Joined 7) ex_all_stopped"
    by (rule Mioco_start.intros) (simp add: join_def)
  then show ?thesis by blast
qed

theorem start_returns_when_done_witness:
  "\<exists>m' w'. Mioco_start ex_rt ex_mail (new_configured ex_config) [1] 1 ex_io 0 0 m' (Joined 7) w' \<and> m_join_handles m' = 0
    \<and> (\<forall>q. co_state (w_cos w' q) = Finished) \<and> w_num w' = 0"
proof -
  obtain m' where s: "Mioco_start ex_rt ex_mail (new_configured ex_config) [1] 1 ex_io 0 0 m' (Joined 7) ex_all_stopped"
    using ex_start by blast
  have "mset [1] = mset [1..<cfg_thread_num (m_config (new_configured ex_config))]"
    by (simp add: new_configured_def ex_config_def set_thread_num_def numeral_2_eq_2)
  moreover have "lmail ex_mail (w_env ex_io) = (\<lambda>t. [])" by (simp add: lmail_def ex_io_def ex_mail_def fun_eq_iff)
  moreover have "w_nco ex_all_stopped < 2 ^ 64"
    by (simp add: ex_all_stopped_def ex_done_def ex_world_def set_env_def Let_def)
  ultimately show ?thesis using start_returns_when_done [OF s ex_runtime_laws ex_code_unwinds] s by blast
qed

end
