(* ===== verification/Termination_Protocol.thy ===== *)
theory Termination_Protocol
  imports Refinement
begin

text \<open>
  How an instance ends, under every interleaving of its threads. The count of coroutines is one atomic counter
  for all threads (\<^verbatim>\<open>src/src/thread.rs\<close>): spawning inserts into the slab and then increments it
  (\<open>Coroutine::spawn\<close>, \<^verbatim>\<open>src/src/coroutine.rs\<close>), a coroutine that ends leaves the slab, then decrements it, and when
  it was the last one sends \<open>Terminate\<close> to one event loop after the other (\<open>coroutines_dec\<close>). Theory \<open>World\<close> runs each
  of these as a whole; here the steps between the atomic operations interleave.
\<close>

text \<open>
  Where a coroutine is: not there, in a slab but not counted, running (the thread it is on runs it or may), about to
  count the child it inserted, out of the slab but counted, sending to the thread of the given index, gone.
\<close>

datatype tphase = TUnborn | TInserted | TRunning | TSpawning nat | TLeaving | TSending nat | TGone

record tstate =
  ts_num :: usize
  ts_next :: nat
  ts_phase :: "nat \<Rightarrow> tphase"
  ts_mail :: "thread_id \<Rightarrow> nat"
  ts_ended :: "thread_id \<Rightarrow> nat"

text \<open>The atomic operations of \<open>coroutines_inc\<close> and \<open>coroutines_dec\<close>.\<close>

definition num_fetch_add :: "tstate \<Rightarrow> tstate" where
  "num_fetch_add s = s\<lparr>ts_num := ts_num s + 1\<rparr>"

definition num_fetch_sub :: "tstate \<Rightarrow> usize \<times> tstate" where
  "num_fetch_sub s = (ts_num s, s\<lparr>ts_num := ts_num s - 1\<rparr>)"

definition set_phase :: "nat \<Rightarrow> tphase \<Rightarrow> tstate \<Rightarrow> tstate" where
  "set_phase c p s = s\<lparr>ts_phase := (ts_phase s)(c := p)\<rparr>"

text \<open>
  The steps on \<open>N\<close> threads. The guard of \<open>insert\<close> bounds the coroutines ever spawned; \<open>ended\<close> is what
  \<open>Handler::notify\<close> does with \<open>Terminate\<close>. Messages in a mailbox are counted, as they are all alike.
\<close>

inductive tstep :: "nat \<Rightarrow> tstate \<Rightarrow> tstate \<Rightarrow> bool" for N where
  insert: "ts_phase s p = TRunning \<Longrightarrow> ts_next s + 1 < 2 ^ 64 \<Longrightarrow>
    tstep N s ((set_phase p (TSpawning (ts_next s)) (set_phase (ts_next s) TInserted s))\<lparr>ts_next := ts_next s + 1\<rparr>)"
| inc: "ts_phase s p = TSpawning c \<Longrightarrow> tstep N s (set_phase p TRunning (set_phase c TRunning (num_fetch_add s)))"
| remove: "ts_phase s p = TRunning \<Longrightarrow> tstep N s (set_phase p TLeaving s)"
| dec: "ts_phase s p = TLeaving \<Longrightarrow> num_fetch_sub s = (prev, s1) \<Longrightarrow>
    tstep N s (set_phase p (if prev = 1 then TSending 0 else TGone) s1)"
| send: "ts_phase s p = TSending k \<Longrightarrow> k < N \<Longrightarrow>
    tstep N s ((set_phase p (TSending (k + 1)) s)\<lparr>ts_mail := (ts_mail s)(k := ts_mail s k + 1)\<rparr>)"
| sent: "ts_phase s p = TSending k \<Longrightarrow> N \<le> k \<Longrightarrow> tstep N s (set_phase p TGone s)"
| ended: "0 < ts_mail s t \<Longrightarrow>
    tstep N s (s\<lparr>ts_mail := (ts_mail s)(t := ts_mail s t - 1), ts_ended := (ts_ended s)(t := ts_ended s t + 1)\<rparr>)"

text \<open>The start: the main thread has spawned the first coroutine before the other threads are let go.\<close>

definition tinit :: "tstate \<Rightarrow> bool" where
  "tinit s \<longleftrightarrow> s = \<lparr>ts_num = 1, ts_next = 1, ts_phase = (\<lambda>c. TUnborn)(0 := TRunning), ts_mail = (\<lambda>t. 0), ts_ended = (\<lambda>t. 0)\<rparr>"

text \<open>The coroutines that the counter counts, and the \<open>Terminate\<close> messages a thread was ever sent.\<close>

fun counts :: "tphase \<Rightarrow> bool" where
  "counts TRunning = True"
| "counts (TSpawning c) = True"
| "counts TLeaving = True"
| "counts _ = False"

definition counted :: "tstate \<Rightarrow> nat set" where
  "counted s = {c. counts (ts_phase s c)}"

definition told :: "tstate \<Rightarrow> thread_id \<Rightarrow> nat" where
  "told s t = ts_mail s t + ts_ended s t"

text \<open>The last coroutine is at thread \<open>k\<close> of its broadcast; or it is done and every thread was told.\<close>

definition broadcasting :: "nat \<Rightarrow> tstate \<Rightarrow> bool" where
  "broadcasting N s \<longleftrightarrow>
     (\<exists>p k. ts_phase s p = TSending k \<and> k \<le> N \<and> (\<forall>q j. ts_phase s q = TSending j \<longrightarrow> q = p)
        \<and> (\<forall>t. told s t = (if t < k then 1 else 0)))"

definition all_told :: "nat \<Rightarrow> tstate \<Rightarrow> bool" where
  "all_told N s \<longleftrightarrow> (\<forall>q j. ts_phase s q \<noteq> TSending j) \<and> (\<forall>t. told s t = (if t < N then 1 else 0))"

definition tinv :: "nat \<Rightarrow> tstate \<Rightarrow> bool" where
  "tinv N s \<longleftrightarrow>
     ts_next s < 2 ^ 64 \<and> (\<forall>c \<ge> ts_next s. ts_phase s c = TUnborn)
   \<and> ts_num s = of_nat (card (counted s))
   \<and> (\<forall>c. ts_phase s c = TInserted \<longrightarrow> (\<exists>p. ts_phase s p = TSpawning c))
   \<and> (\<forall>p c. ts_phase s p = TSpawning c \<longrightarrow> ts_phase s c = TInserted)
   \<and> (\<forall>p q c. ts_phase s p = TSpawning c \<longrightarrow> ts_phase s q = TSpawning c \<longrightarrow> p = q)
   \<and> (if counted s \<noteq> {} then (\<forall>q j. ts_phase s q \<noteq> TSending j) \<and> (\<forall>t. told s t = 0)
      else broadcasting N s \<or> all_told N s)"

lemma set_phase_simps [simp]:
  "ts_phase (set_phase c p s) = (ts_phase s)(c := p)" "ts_num (set_phase c p s) = ts_num s"
  "ts_next (set_phase c p s) = ts_next s" "ts_mail (set_phase c p s) = ts_mail s" "ts_ended (set_phase c p s) = ts_ended s"
  "told (set_phase c p s) = told s"
  by (simp_all add: set_phase_def told_def fun_eq_iff)

lemma num_fetch_add_simps [simp]:
  "ts_phase (num_fetch_add s) = ts_phase s" "ts_next (num_fetch_add s) = ts_next s" "ts_num (num_fetch_add s) = ts_num s + 1"
  "told (num_fetch_add s) = told s" "counted (num_fetch_add s) = counted s"
  by (simp_all add: num_fetch_add_def told_def counted_def fun_eq_iff)

lemma counted_update [simp]: "counted (s\<lparr>ts_next := n\<rparr>) = counted s" "counted (s\<lparr>ts_num := m\<rparr>) = counted s"
  "counted (s\<lparr>ts_mail := f\<rparr>) = counted s" "counted (s\<lparr>ts_ended := g\<rparr>) = counted s"
  by (simp_all add: counted_def)

lemma counted_set_phase:
  "counted (set_phase c p s) = (if counts p then insert c (counted s) else counted s - {c})"
  by (auto simp: counted_def)

lemma counted_iff: "c \<in> counted s \<longleftrightarrow> counts (ts_phase s c)"
  by (simp add: counted_def)

lemma counted_bound:
  assumes "tinv N s"
  shows "finite (counted s) \<and> card (counted s) \<le> ts_next s"
proof -
  have "counted s \<subseteq> {..<ts_next s}"
  proof
    fix c assume "c \<in> counted s"
    with assms show "c \<in> {..<ts_next s}" by (cases "c < ts_next s") (auto simp: tinv_def counted_iff)
  qed
  then show ?thesis using card_mono [of "{..<ts_next s}" "counted s"] finite_subset by fastforce
qed

lemma counted_zero:
  assumes "tinv N s"
  shows "ts_num s = of_nat n \<and> n < 2 ^ 64 \<longrightarrow> card (counted s) = n"
proof -
  have "ts_num s = of_nat (card (counted s))" "card (counted s) < 2 ^ 64"
    using assms counted_bound [OF assms] by (auto simp: tinv_def)
  then show ?thesis using usize_of_nat_inject [of "card (counted s)" n] by auto
qed

lemma tinvD:
  assumes "tinv N s"
  shows "ts_next s < 2 ^ 64" and "\<And>c. ts_next s \<le> c \<Longrightarrow> ts_phase s c = TUnborn" and "ts_num s = of_nat (card (counted s))"
    and "\<And>c. ts_phase s c = TInserted \<Longrightarrow> \<exists>p. ts_phase s p = TSpawning c"
    and "\<And>p c. ts_phase s p = TSpawning c \<Longrightarrow> ts_phase s c = TInserted"
    and "\<And>p q c. ts_phase s p = TSpawning c \<Longrightarrow> ts_phase s q = TSpawning c \<Longrightarrow> p = q"
    and "counted s \<noteq> {} \<Longrightarrow> ts_phase s q \<noteq> TSending j" and "counted s \<noteq> {} \<Longrightarrow> told s t = 0"
    and "counted s = {} \<Longrightarrow> broadcasting N s \<or> all_told N s"
  using assms unfolding tinv_def by (simp_all split: if_splits)

lemma tinv_sending:
  assumes "tinv N s" and "ts_phase s p = TSending k"
  shows "counted s = {}" and "k \<le> N" and "\<And>q j. ts_phase s q = TSending j \<Longrightarrow> q = p"
    and "\<And>t. told s t = (if t < k then 1 else 0)"
proof -
  show e: "counted s = {}" using tinvD(7) [OF assms(1), of p k] assms(2) by blast
  from tinvD(9) [OF assms(1) e] assms(2) have "broadcasting N s" by (auto simp: all_told_def)
  then obtain p' k' where b: "ts_phase s p' = TSending k'" "k' \<le> N" "\<And>q j. ts_phase s q = TSending j \<Longrightarrow> q = p'"
      "\<And>t. told s t = (if t < k' then 1 else 0)"
    unfolding broadcasting_def by blast
  from b(3) [OF assms(2)] b(1) assms(2) have p: "p' = p" "k' = k" by simp_all
  show "k \<le> N" "\<And>q j. ts_phase s q = TSending j \<Longrightarrow> q = p" "\<And>t. told s t = (if t < k then 1 else 0)"
    using b(2-4) unfolding p by blast+
qed

lemma tinv_init: "tinit s \<Longrightarrow> tinv N s"
proof -
  assume s: "tinit s"
  then have "counted s = {0}" by (auto simp: tinit_def counted_def)
  with s show ?thesis by (auto simp: tinit_def tinv_def told_def split: if_splits)
qed

text \<open>Each step keeps the invariant; one lemma per step of a coroutine.\<close>

lemma tinv_insert:
  assumes I: "tinv N s" and p: "ts_phase s p = TRunning" and n: "ts_next s + 1 < 2 ^ 64"
  shows "tinv N ((set_phase p (TSpawning (ts_next s)) (set_phase (ts_next s) TInserted s))\<lparr>ts_next := ts_next s + 1\<rparr>)"
    (is "tinv N ?t")
proof -
  note D = tinvD [OF I]
  have u: "ts_phase s (ts_next s) = TUnborn" by (rule D(2)) simp
  have ne: "p \<noteq> ts_next s" using p u by auto
  have f: "ts_phase ?t = (ts_phase s)(ts_next s := TInserted, p := TSpawning (ts_next s))" by simp
  have "ts_next s \<notin> counted s" "p \<in> counted s" using p u by (simp_all add: counted_iff)
  then have c: "counted ?t = counted s" "counted s \<noteq> {}" by (auto simp: counted_set_phase)
  have told: "told ?t = told s" by (simp add: told_def fun_eq_iff)
  have fresh: "ts_phase s q \<noteq> TSpawning (ts_next s)" for q using D(5) [of q "ts_next s"] u by auto
  show ?thesis
    unfolding tinv_def c told if_P [OF c(2)]
  proof (intro conjI allI impI)
    show "ts_phase ?t x = TUnborn" if "ts_next ?t \<le> x" for x
      using that D(2) [of x] p by (auto simp: f)
    show "\<exists>q. ts_phase ?t q = TSpawning x" if "ts_phase ?t x = TInserted" for x
    proof (cases "x = ts_next s")
      case True
      have "ts_phase ?t p = TSpawning (ts_next s)" by (simp add: f)
      with True show ?thesis by blast
    next
      case False
      with that ne have "ts_phase s x = TInserted" by (auto simp: f split: if_splits)
      from D(4) [OF this] obtain q where q: "ts_phase s q = TSpawning x" by blast
      with p u have "q \<noteq> p" "q \<noteq> ts_next s" by auto
      with q show ?thesis by (auto simp: f)
    qed
    show "ts_phase ?t x = TInserted" if "ts_phase ?t q = TSpawning x" for q x
      using that D(5) [of q x] p ne by (auto simp: f split: if_splits)
    show "q = q'" if "ts_phase ?t q = TSpawning x" "ts_phase ?t q' = TSpawning x" for q q' x
      using that D(6) [of q x q'] fresh by (auto simp: f split: if_splits)
    show "ts_phase ?t q \<noteq> TSending j" for q j using D(7) [OF c(2), of q j] by (simp add: f)
  qed (use D(3,8) c n in \<open>simp_all\<close>)
qed

lemma tinv_inc:
  assumes I: "tinv N s" and p: "ts_phase s p = TSpawning c"
  shows "tinv N (set_phase p TRunning (set_phase c TRunning (num_fetch_add s)))" (is "tinv N ?t")
proof -
  note D = tinvD [OF I]
  have c: "ts_phase s c = TInserted" by (rule D(5) [OF p])
  have ne: "p \<noteq> c" using p c by auto
  have f: "ts_phase ?t = (ts_phase s)(c := TRunning, p := TRunning)" by simp
  have pc: "p \<in> counted s" "c \<notin> counted s" using p c by (simp_all add: counted_iff)
  then have ct: "counted ?t = insert c (counted s)" and ne0: "counted s \<noteq> {}"
    by (auto simp: counted_set_phase num_fetch_add_def)
  have told: "told ?t = told s" by (simp add: told_def num_fetch_add_def fun_eq_iff)
  have num: "ts_num ?t = of_nat (card (counted ?t))"
    using D(3) pc(2) counted_bound [OF I] unfolding ct by (simp add: num_fetch_add_def)
  have ne1: "counted ?t \<noteq> {}" by (simp add: ct)
  show ?thesis
    unfolding tinv_def told if_P [OF ne1]
  proof (intro conjI allI impI)
    show "ts_phase ?t x = TUnborn" if "ts_next ?t \<le> x" for x
      using that D(2) [of x] p c by (auto simp: f num_fetch_add_def)
    show "\<exists>q. ts_phase ?t q = TSpawning x" if "ts_phase ?t x = TInserted" for x
    proof -
      from that have x: "x \<noteq> c" "x \<noteq> p" "ts_phase s x = TInserted" by (auto simp: f split: if_splits)
      from D(4) [OF x(3)] obtain q where q: "ts_phase s q = TSpawning x" by blast
      have "q \<noteq> p"
      proof
        assume "q = p"
        with p q x(1) show False by simp
      qed
      moreover have "q \<noteq> c"
      proof
        assume "q = c"
        with c q show False by simp
      qed
      ultimately have "ts_phase ?t q = TSpawning x" using q unfolding f by simp
      then show ?thesis by blast
    qed
    show "ts_phase ?t x = TInserted" if "ts_phase ?t q = TSpawning x" for q x
      using that D(5) [of q x] D(6) [of q x p] p c by (auto simp: f split: if_splits)
    show "q = q'" if "ts_phase ?t q = TSpawning x" "ts_phase ?t q' = TSpawning x" for q q' x
      using that D(6) [of q x q'] by (auto simp: f split: if_splits)
    show "ts_phase ?t q \<noteq> TSending j" for q j using D(7) [OF ne0, of q j] by (simp add: f)
  qed (use D(1,8) num ne0 in \<open>simp_all add: num_fetch_add_def\<close>)
qed

text \<open>The steps of a coroutine that ends change its own phase only, from one that is neither inserted nor spawning.\<close>

lemma tinv_phase:
  assumes I: "tinv N s" and p: "ts_phase s p \<noteq> TInserted" "\<And>c. ts_phase s p \<noteq> TSpawning c" "ts_phase s p \<noteq> TUnborn"
    and x: "x \<noteq> TInserted" "\<And>c. x \<noteq> TSpawning c" and t: "ts_phase t = (ts_phase s)(p := x)" "ts_next t = ts_next s"
    and num: "ts_num t = of_nat (card (counted t))"
    and rest: "if counted t \<noteq> {} then (\<forall>q j. ts_phase t q \<noteq> TSending j) \<and> (\<forall>u. told t u = 0) else broadcasting N t \<or> all_told N t"
  shows "tinv N t"
proof -
  note D = tinvD [OF I]
  show ?thesis
    unfolding tinv_def
  proof (intro conjI allI impI)
    show "ts_phase t c = TUnborn" if "ts_next t \<le> c" for c using that D(2) [of c] p(3) t by auto
    show "\<exists>q. ts_phase t q = TSpawning c" if "ts_phase t c = TInserted" for c
    proof -
      from that x t have "ts_phase s c = TInserted" by (auto split: if_splits)
      from D(4) [OF this] obtain q where "ts_phase s q = TSpawning c" by blast
      with p(2) t show ?thesis by (metis fun_upd_other)
    qed
    show "ts_phase t c = TInserted" if "ts_phase t q = TSpawning c" for q c
      using that D(5) [of q c] p(1) x t by (auto split: if_splits)
    show "q = q'" if "ts_phase t q = TSpawning c" "ts_phase t q' = TSpawning c" for q q' c
      using that D(6) [of q c q'] x t by (auto split: if_splits)
  qed (use D(1) t num rest in simp_all)
qed

lemma tinv_remove:
  assumes I: "tinv N s" and p: "ts_phase s p = TRunning"
  shows "tinv N (set_phase p TLeaving s)"
proof -
  have "p \<in> counted s" using p by (simp add: counted_iff)
  then have c: "counted (set_phase p TLeaving s) = counted s" "counted s \<noteq> {}" by (auto simp: counted_set_phase)
  note D = tinvD [OF I]
  show ?thesis
    by (rule tinv_phase [OF I, of p TLeaving]) (use p c D(3,7,8) in auto)
qed

lemma tinv_dec:
  assumes I: "tinv N s" and p: "ts_phase s p = TLeaving" and d: "num_fetch_sub s = (prev, s1)"
  shows "tinv N (set_phase p (if prev = 1 then TSending 0 else TGone) s1)" (is "tinv N ?t")
proof -
  note D = tinvD [OF I]
  from d have prev: "prev = ts_num s" and s1: "s1 = s\<lparr>ts_num := ts_num s - 1\<rparr>" by (auto simp: num_fetch_sub_def)
  have pc: "p \<in> counted s" using p by (simp add: counted_iff)
  then have ne: "counted s \<noteq> {}" by blast
  have ct: "counted ?t = counted s - {p}" by (simp add: counted_set_phase s1)
  have fin: "finite (counted s)" using counted_bound [OF I] by blast
  from pc fin have card: "card (counted s) = Suc (card (counted ?t))" unfolding ct by (simp only: card.remove [OF fin pc])
  have one: "prev = 1 \<longleftrightarrow> counted ?t = {}"
  proof -
    have "card (counted s) < 2 ^ 64" using counted_bound [OF I] D(1) by simp
    then have "prev = 1 \<longleftrightarrow> card (counted s) = 1"
      using usize_of_nat_inject [of "card (counted s)" 1] by (simp add: prev D(3))
    also have "\<dots> \<longleftrightarrow> counted ?t = {}" using card fin by (auto simp: ct)
    finally show ?thesis .
  qed
  have told: "told ?t = told s" by (simp add: told_def s1 fun_eq_iff)
  show ?thesis
  proof (rule tinv_phase [OF I, of p "if prev = 1 then TSending 0 else TGone"])
    have "ts_num s - 1 = of_nat (card (counted ?t))" using D(3) unfolding card by simp
    then show "ts_num ?t = of_nat (card (counted ?t))" by (simp add: s1 del: of_nat_Suc)
    show "if counted ?t \<noteq> {} then (\<forall>q j. ts_phase ?t q \<noteq> TSending j) \<and> (\<forall>u. told ?t u = 0) else broadcasting N ?t \<or> all_told N ?t"
    proof (cases "counted ?t = {}")
      case True
      with one have "ts_phase ?t = (ts_phase s)(p := TSending 0)" by (simp add: s1)
      with D(7,8) [OF ne] told have "broadcasting N ?t" unfolding broadcasting_def
        by (intro exI [of _ p] exI [of _ 0]) auto
      with True show ?thesis by simp
    next
      case False
      with one D(7,8) [OF ne] told show ?thesis by (simp add: s1)
    qed
  qed (use p in \<open>auto simp: s1\<close>)
qed

lemma tinv_send:
  assumes I: "tinv N s" and p: "ts_phase s p = TSending k" and k: "k < N"
  shows "tinv N ((set_phase p (TSending (k + 1)) s)\<lparr>ts_mail := (ts_mail s)(k := ts_mail s k + 1)\<rparr>)" (is "tinv N ?t")
proof -
  note b = tinv_sending [OF I p]
  have ct: "counted ?t = {}" using b(1) by (simp add: counted_set_phase)
  have "told ?t t = (if t < k + 1 then 1 else 0)" for t
    using b(4) [of t] by (auto simp: told_def less_Suc_eq)
  then have "broadcasting N ?t" unfolding broadcasting_def
    using b(3) k by (intro exI [of _ p] exI [of _ "k + 1"]) auto
  with ct show ?thesis using tinvD(3) [OF I] b(1) p by (intro tinv_phase [OF I, of p "TSending (k + 1)"]) auto
qed

lemma tinv_sent:
  assumes I: "tinv N s" and p: "ts_phase s p = TSending k" and k: "N \<le> k"
  shows "tinv N (set_phase p TGone s)" (is "tinv N ?t")
proof -
  note b = tinv_sending [OF I p]
  have ct: "counted ?t = {}" using b(1) by (simp add: counted_set_phase)
  from b(2) k have "k = N" by simp
  with b(3,4) have "all_told N ?t" by (auto simp: all_told_def)
  with ct show ?thesis using tinvD(3) [OF I] b(1) p by (intro tinv_phase [OF I, of p TGone]) auto
qed

lemma tinv_ended:
  assumes I: "tinv N s" and m: "0 < ts_mail s t"
  shows "tinv N (s\<lparr>ts_mail := (ts_mail s)(t := ts_mail s t - 1), ts_ended := (ts_ended s)(t := ts_ended s t + 1)\<rparr>)" (is "tinv N ?t")
proof -
  have "told ?t = told s" using m by (auto simp: told_def fun_eq_iff)
  then have "broadcasting N ?t = broadcasting N s" "all_told N ?t = all_told N s" "told ?t = told s"
    by (simp_all add: broadcasting_def all_told_def)
  with I show ?thesis by (simp add: tinv_def)
qed

lemma tinv_step: "tinv N s \<Longrightarrow> tstep N s t \<Longrightarrow> tinv N t"
  by (erule tstep.cases) (simp_all only: tinv_insert tinv_inc tinv_remove tinv_dec tinv_send tinv_sent tinv_ended)

interpretation term_proto: invariant_system tinit "tstep N" "tinv N" for N
  by unfold_locales (rule tinv_init, assumption, rule tinv_step)

text \<open>
  The operation \<open>coroutines_dec\<close> of theory \<open>World\<close> is the run of these steps in which no other thread takes one: the
  decrement, then, for the last coroutine, the messages to all threads in turn.
\<close>

lemma broadcast_atomic:
  assumes "mio_laws (rt_mio rt) mail" and "foldR (\<lambda>t. send_msg rt t Terminate) [k..<N] w = Inr w'" and "ts_phase s p = TSending k" and "k \<le> N"
  shows "\<exists>s'. (tstep N)\<^sup>*\<^sup>* s s' \<and> ts_num s' = ts_num s \<and> ts_phase s' p = TGone \<and> w_num w' = w_num w
    \<and> (\<forall>t. ts_mail s' t = ts_mail s t + (if k \<le> t \<and> t < N then 1 else 0)
         \<and> mail (w_env w') t = mail (w_env w) t @ (if k \<le> t \<and> t < N then [Terminate] else []))"
  using assms(2-4)
proof (induction "N - k" arbitrary: k w s)
  case 0
  then have "w' = w" "N \<le> k" by simp_all
  with r_into_rtranclp [of "tstep N", OF sent [OF 0(3)]] show ?case by (intro exI [of _ "set_phase p TGone s"]) auto
next
  case (Suc n)
  then have k: "k < N" and l: "[k..<N] = k # [Suc k..<N]" by (simp_all add: upt_rec)
  from Suc.prems(1) obtain w1 where m: "send_msg rt k Terminate w = Inr w1"
    and r: "foldR (\<lambda>t. send_msg rt t Terminate) [Suc k..<N] w1 = Inr w'" by (auto simp: l bindR_eq_Inr)
  have w1: "w_num w1 = w_num w" "mail (w_env w1) = (mail (w_env w))(k := mail (w_env w) k @ [Terminate])"
    using m sender_retry_mail [OF assms(1)] by (auto simp: send_msg_def bindR_eq_Inr set_env_def)
  let ?s = "(set_phase p (TSending (k + 1)) s)\<lparr>ts_mail := (ts_mail s)(k := ts_mail s k + 1)\<rparr>"
  have n: "n = N - Suc k" using Suc.hyps(2) by simp
  have "ts_phase ?s p = TSending (Suc k)" by simp
  from Suc.hyps(1) [OF n r this Suc_leI [OF k]] obtain s' where s': "(tstep N)\<^sup>*\<^sup>* ?s s'" "ts_num s' = ts_num ?s" "ts_phase s' p = TGone"
      "w_num w' = w_num w1"
      "\<And>t. ts_mail s' t = ts_mail ?s t + (if Suc k \<le> t \<and> t < N then 1 else 0)"
      "\<And>t. mail (w_env w') t = mail (w_env w1) t @ (if Suc k \<le> t \<and> t < N then [Terminate] else [])" by auto
  from converse_rtranclp_into_rtranclp [of "tstep N", OF send [OF Suc.prems(2) k] s'(1)] s'(2-6) w1 k show ?case
    by (intro exI [of _ s']) (auto simp: not_less_eq_eq le_less)
qed

lemma coroutines_dec_atomic:
  assumes "mio_laws (rt_mio rt) mail" and "hs_senders (w_hs w h) = [0..<N]" and "coroutines_dec rt h w = Inr w'"
    and "ts_num s = w_num w" and "ts_phase s p = TLeaving"
  shows "\<exists>s'. (tstep N)\<^sup>*\<^sup>* s s' \<and> ts_num s' = w_num w' \<and> ts_phase s' p = TGone
    \<and> (\<forall>t. ts_mail s t \<le> ts_mail s' t
         \<and> mail (w_env w') t = mail (w_env w) t @ replicate (ts_mail s' t - ts_mail s t) Terminate)"
proof -
  let ?w = "w\<lparr>w_num := w_num w - 1\<rparr>" and ?s = "set_phase p (if ts_num s = 1 then TSending 0 else TGone) (s\<lparr>ts_num := ts_num s - 1\<rparr>)"
  have st: "tstep N s ?s" by (rule dec [OF assms(5)]) (simp add: num_fetch_sub_def)
  show ?thesis
  proof (cases "w_num w = 1")
    case True
    with assms(2,3) have b: "foldR (\<lambda>t. send_msg rt t Terminate) [0..<N] ?w = Inr w'"
      by (auto simp: coroutines_dec_def broadcast_terminate_def broadcast_def Let_def bindR_eq_Inr)
    have "ts_phase ?s p = TSending 0" using True assms(4) by simp
    from broadcast_atomic [OF assms(1) b this] obtain s' where s': "(tstep N)\<^sup>*\<^sup>* ?s s'" "ts_num s' = ts_num ?s" "ts_phase s' p = TGone"
      "w_num w' = w_num ?w" "\<And>t. ts_mail s' t = ts_mail ?s t + (if t < N then 1 else 0)"
      "\<And>t. mail (w_env w') t = mail (w_env ?w) t @ (if t < N then [Terminate] else [])" by auto
    from converse_rtranclp_into_rtranclp [of "tstep N", OF st s'(1)] s'(2-6) assms(4) show ?thesis by (intro exI [of _ s']) simp
  next
    case False
    with assms(3) have "w' = ?w" by (auto simp: coroutines_dec_def Let_def bindR_eq_Inr)
    with r_into_rtranclp [of "tstep N", OF st] False assms(4) show ?thesis by (intro exI [of _ ?s]) simp
  qed
qed

text \<open>
  C5: an instance ends exactly once, in every interleaving of its threads. No event loop is ever sent more than one
  \<open>Terminate\<close>; once one was sent, no coroutine is left, none is being spawned and the counter is zero, as the handler
  asserts; and when the last coroutine is done, every event loop was sent one.
\<close>

theorem terminate_exactly_once:
  assumes "reach tinit (tstep N) s"
  shows "told s t \<le> 1
    \<and> (0 < told s t \<longrightarrow> (\<forall>c. \<not> counts (ts_phase s c) \<and> ts_phase s c \<noteq> TInserted) \<and> ts_num s = 0)
    \<and> ((\<forall>c. ts_phase s c = TUnborn \<or> ts_phase s c = TGone) \<longrightarrow> told s t = (if t < N then 1 else 0))"
proof -
  note I = term_proto.reach_inv [OF assms]
  note D = tinvD [OF I]
  show ?thesis
  proof (cases "counted s = {}")
    case True
    then have c: "\<not> counts (ts_phase s c)" for c by (auto simp: counted_def)
    then have "ts_phase s c \<noteq> TInserted" for c using D(4) [of c] by (metis counts.simps(2))
    moreover have "told s t \<le> 1" using D(9) [OF True] by (auto simp: broadcasting_def all_told_def)
    moreover have "told s t = (if t < N then 1 else 0)" if "\<forall>c. ts_phase s c = TUnborn \<or> ts_phase s c = TGone"
      using D(9) [OF True] that by (auto simp: broadcasting_def all_told_def) (metis tphase.distinct)+
    ultimately show ?thesis using c D(3) True by simp
  next
    case False
    then obtain c where "counts (ts_phase s c)" by (auto simp: counted_def)
    then have "ts_phase s c \<noteq> TUnborn \<and> ts_phase s c \<noteq> TGone" by (cases "ts_phase s c") simp_all
    with D(8) [OF False] show ?thesis by auto
  qed
qed

text \<open>What is left to do when no coroutine is left: messages to send, messages to handle, and the end of the broadcast.\<close>

definition tleft :: "nat \<Rightarrow> tstate \<Rightarrow> nat" where
  "tleft N s = (if \<exists>p k. ts_phase s p = TSending k then 1 else 0) + (\<Sum>t<N. 2 * (1 - told s t) + ts_mail s t)"

lemma sum_smaller:
  fixes f g :: "nat \<Rightarrow> nat"
  assumes "k < N" and "f k < g k" and "\<And>t. t \<noteq> k \<Longrightarrow> f t = g t"
  shows "(\<Sum>t<N. f t) < (\<Sum>t<N. g t)"
proof (rule sum_strict_mono_ex1)
  show "\<forall>t \<in> {..<N}. f t \<le> g t"
  proof
    fix t show "f t \<le> g t" using assms(2) assms(3) [of t] by (cases "t = k") simp_all
  qed
  show "\<exists>t \<in> {..<N}. f t < g t" using assms(1,2) by blast
qed simp

lemma tleft_decreases:
  assumes I: "tinv N s" and e: "counted s = {}" and st: "tstep N s s'"
  shows "tleft N s' < tleft N s \<and> counted s' = {}"
  using st
proof cases
  case (send p k)
  have b: "told s k = 0" using tinv_sending(4) [OF I send(2), of k] by simp
  then have m: "ts_mail s k = 0" "told s' k = 1" "ts_mail s' k = 1"
    by (simp_all add: send(1) told_def)
  have "(\<Sum>t<N. 2 * (1 - told s' t) + ts_mail s' t) < (\<Sum>t<N. 2 * (1 - told s t) + ts_mail s t)"
    by (rule sum_smaller [OF send(3)]) (use b m in \<open>simp_all add: send(1) told_def\<close>)
  moreover have "ts_phase s' p = TSending (k + 1)" by (simp add: send(1))
  ultimately have "tleft N s' < tleft N s" unfolding tleft_def using send(2) by auto
  with e show ?thesis by (simp add: send(1) counted_set_phase)
next
  case (sent p k)
  have "\<forall>q j. ts_phase s q = TSending j \<longrightarrow> q = p" using tinv_sending(3) [OF I sent(2)] by blast
  then have "\<not> (\<exists>q j. ts_phase s' q = TSending j)" by (auto simp: sent(1))
  moreover have "\<exists>q j. ts_phase s q = TSending j" using sent(2) by blast
  ultimately have "tleft N s' < tleft N s" unfolding tleft_def by (simp add: sent(1))
  with e show ?thesis by (simp add: sent(1) counted_set_phase)
next
  case (ended t)
  have "t < N"
  proof (rule ccontr)
    assume "\<not> t < N"
    then have "told s t = 0" using tinvD(9) [OF I e] unfolding broadcasting_def all_told_def by (metis order_less_le_trans)
    with ended(2) show False by (simp add: told_def)
  qed
  have "told s' = told s" using ended(2) by (auto simp: ended(1) told_def fun_eq_iff)
  moreover have "(\<Sum>t<N. 2 * (1 - told s t) + ts_mail s' t) < (\<Sum>t<N. 2 * (1 - told s t) + ts_mail s t)"
    by (rule sum_smaller [OF \<open>t < N\<close>]) (use ended(2) in \<open>simp_all add: ended(1)\<close>)
  ultimately have "tleft N s' < tleft N s" unfolding tleft_def by (simp add: ended(1))
  with e show ?thesis by (simp add: ended(1))
qed (use e in \<open>simp_all add: counted_def\<close>, (metis counts.simps)+)

lemma tleft_enabled:
  assumes I: "tinv N s" and e: "counted s = {}"
  shows "(\<forall>t<N. ts_ended s t = 1) \<or> (\<exists>s'. tstep N s s')"
  using tinvD(9) [OF I e]
proof
  assume "broadcasting N s"
  then obtain p k where "ts_phase s p = TSending k" by (auto simp: broadcasting_def)
  then show ?thesis using send [of s p k N] sent [of s p k N] by (cases "k < N") auto
next
  assume a: "all_told N s"
  show ?thesis
  proof (cases "\<exists>t. 0 < ts_mail s t")
    case True
    then show ?thesis by (auto intro: ended)
  next
    case False
    with a have "\<forall>t<N. ts_ended s t = 1" by (auto simp: all_told_def told_def)
    then show ?thesis ..
  qed
qed

text \<open>
  C11: every event loop of an instance ends. Once no coroutine is left, the threads go on until each loop has handled
  its \<open>Terminate\<close>: some step is possible until then, and each step that is taken brings it nearer, whatever the
  order, so there are finitely many.
\<close>

theorem every_loop_ends:
  assumes "reach tinit (tstep N) s" and "\<forall>c. \<not> counts (ts_phase s c)"
  shows "((\<forall>t<N. ts_ended s t = 1) \<or> (\<exists>s'. tstep N s s'))
    \<and> (\<forall>s'. tstep N s s' \<longrightarrow> tleft N s' < tleft N s \<and> (\<forall>c. \<not> counts (ts_phase s' c)))"
proof -
  note I = term_proto.reach_inv [OF assms(1)]
  have e: "counted s = {}" using assms(2) by (simp add: counted_def)
  have "tleft N s' < tleft N s \<and> (\<forall>c. \<not> counts (ts_phase s' c))" if "tstep N s s'" for s'
    using tleft_decreases [OF I e that] by (simp add: counted_def)
  with tleft_enabled [OF I e] show ?thesis by blast
qed

text \<open>An instance of two threads whose only coroutine has told the first of them.\<close>

definition ex_half_told :: tstate where
  "ex_half_told = \<lparr>ts_num = 0, ts_next = 1, ts_phase = (\<lambda>c. TUnborn)(0 := TSending 1), ts_mail = (\<lambda>t. 0)(0 := 1), ts_ended = (\<lambda>t. 0)\<rparr>"

lemma ex_half_told_reachable: "reach tinit (tstep 2) ex_half_told"
proof -
  let ?s0 = "\<lparr>ts_num = 1, ts_next = 1, ts_phase = (\<lambda>c. TUnborn)(0 := TRunning), ts_mail = (\<lambda>t. 0), ts_ended = (\<lambda>t. 0)\<rparr>"
  let ?s1 = "set_phase 0 TLeaving ?s0"
  let ?s2 = "set_phase 0 (TSending 0) (snd (num_fetch_sub ?s1))"
  have 0: "reach tinit (tstep 2) ?s0" by (rule reach.intros(1)) (simp add: tinit_def)
  have 1: "tstep 2 ?s0 ?s1" by (rule remove) simp
  have "tstep 2 ?s1 (set_phase 0 (if 1 = (1 :: usize) then TSending 0 else TGone) (snd (num_fetch_sub ?s1)))"
    by (rule dec) (simp_all add: num_fetch_sub_def set_phase_def)
  then have 2: "tstep 2 ?s1 ?s2" by simp
  have "tstep 2 ?s2 ((set_phase 0 (TSending (0 + 1)) ?s2)\<lparr>ts_mail := (ts_mail ?s2)(0 := ts_mail ?s2 0 + 1)\<rparr>)"
    by (rule send) simp_all
  also have "(set_phase 0 (TSending (0 + 1)) ?s2)\<lparr>ts_mail := (ts_mail ?s2)(0 := ts_mail ?s2 0 + 1)\<rparr> = ex_half_told"
    by (simp add: ex_half_told_def set_phase_def num_fetch_sub_def)
  finally show ?thesis using reach.intros(2) [OF reach.intros(2) [OF reach.intros(2) [OF 0 1] 2]] by blast
qed

theorem terminate_exactly_once_witness:
  "told ex_half_told 0 = 1 \<and> ts_num ex_half_told = 0 \<and> (\<forall>c. \<not> counts (ts_phase ex_half_told c))"
proof -
  have "told ex_half_told 0 = 1" by (simp add: told_def ex_half_told_def)
  with terminate_exactly_once [OF ex_half_told_reachable, of 0] show ?thesis by simp
qed

theorem every_loop_ends_witness: "\<exists>s'. tstep 2 ex_half_told s' \<and> tleft 2 s' < tleft 2 ex_half_told"
proof -
  have "\<forall>c. \<not> counts (ts_phase ex_half_told c)" "ts_ended ex_half_told 0 \<noteq> 1" by (simp_all add: ex_half_told_def)
  with every_loop_ends [OF ex_half_told_reachable] show ?thesis by force
qed

end
