(* ===== verification/Locks.thy ===== *)
theory Locks
  imports Prelude
begin

text \<open>
  \<open>RwLock\<close> and \<open>Mutex\<close> (\<^verbatim>\<open>src/src/sync/mod.rs\<close>): the locks of the standard library, acquired inside a
  coroutine by trying and yielding. The state of a native lock is who holds it and whether it is
  poisoned; \<open>try_lock\<close> of a poisoned lock acquires it and reports the poison. In the loops \<open>yield_now\<close> is
  everything the other coroutines and threads do before the next attempt, to the lock included.

  The three loops have one contract, the locale \<open>yield_lock\<close>.
\<close>

record rwlock =
  rw_readers :: nat
  rw_writer :: bool
  rw_poisoned :: bool

record mutex =
  mx_locked :: bool
  mx_poisoned :: bool

datatype try_lock_result = Acquired | AcquiredPoisoned | WouldBlock

datatype lock_result = LockOk | LockPoisoned

definition RwLock_new :: rwlock where
  "RwLock_new = \<lparr>rw_readers = 0, rw_writer = False, rw_poisoned = False\<rparr>"

definition Mutex_new :: mutex where
  "Mutex_new = \<lparr>mx_locked = False, mx_poisoned = False\<rparr>"

definition is_poisoned :: "rwlock \<Rightarrow> bool" where
  "is_poisoned l = rw_poisoned l"

definition try_read :: "rwlock \<Rightarrow> try_lock_result \<times> rwlock" where
  "try_read l =
     (if rw_writer l then (WouldBlock, l)
      else (if rw_poisoned l then AcquiredPoisoned else Acquired, l\<lparr>rw_readers := rw_readers l + 1\<rparr>))"

definition try_write :: "rwlock \<Rightarrow> try_lock_result \<times> rwlock" where
  "try_write l =
     (if rw_writer l \<or> rw_readers l > 0 then (WouldBlock, l)
      else (if rw_poisoned l then AcquiredPoisoned else Acquired, l\<lparr>rw_writer := True\<rparr>))"

definition try_lock :: "mutex \<Rightarrow> try_lock_result \<times> mutex" where
  "try_lock l =
     (if mx_locked l then (WouldBlock, l)
      else (if mx_poisoned l then AcquiredPoisoned else Acquired, l\<lparr>mx_locked := True\<rparr>))"

text \<open>Dropping a guard; a write guard dropped while its thread panics poisons the lock.\<close>

definition drop_read :: "rwlock \<Rightarrow> rwlock" where
  "drop_read l = l\<lparr>rw_readers := rw_readers l - 1\<rparr>"

definition drop_write :: "bool \<Rightarrow> rwlock \<Rightarrow> rwlock" where
  "drop_write panicking l = l\<lparr>rw_writer := False, rw_poisoned := (rw_poisoned l \<or> panicking)\<rparr>"

definition drop_lock :: "bool \<Rightarrow> mutex \<Rightarrow> mutex" where
  "drop_lock panicking l = l\<lparr>mx_locked := False, mx_poisoned := (mx_poisoned l \<or> panicking)\<rparr>"

text \<open>One round of \<open>read_in_mioco\<close>, \<open>write_in_mioco\<close> and \<open>lock_in_mioco\<close>.\<close>

definition lock_round ::
  "('l \<Rightarrow> try_lock_result \<times> 'l) \<Rightarrow> ('l \<times> 'e \<Rightarrow> ('l \<times> 'e) res) \<Rightarrow>
   'l \<times> 'e \<Rightarrow> (lock_result \<times> 'l \<times> 'e) res + ('l \<times> 'e)" where
  "lock_round try_op yield_now = (\<lambda>(l, e).
     case try_op l of
       (Acquired, l') \<Rightarrow> Inl (Inr (LockOk, l', e))
     | (AcquiredPoisoned, l') \<Rightarrow> Inl (Inr (LockPoisoned, l', e))
     | (WouldBlock, l') \<Rightarrow> (case yield_now (l', e) of Inl p \<Rightarrow> Inl (Inl p) | Inr s \<Rightarrow> Inr s))"

definition read_in_mioco ::
  "(rwlock \<times> 'e \<Rightarrow> (rwlock \<times> 'e) res) \<Rightarrow> rwlock \<times> 'e \<Rightarrow> (lock_result \<times> rwlock \<times> 'e) res option" where
  "read_in_mioco yield_now s = rust_loop (lock_round try_read yield_now) s"

definition write_in_mioco ::
  "(rwlock \<times> 'e \<Rightarrow> (rwlock \<times> 'e) res) \<Rightarrow> rwlock \<times> 'e \<Rightarrow> (lock_result \<times> rwlock \<times> 'e) res option" where
  "write_in_mioco yield_now s = rust_loop (lock_round try_write yield_now) s"

definition lock_in_mioco ::
  "(mutex \<times> 'e \<Rightarrow> (mutex \<times> 'e) res) \<Rightarrow> mutex \<times> 'e \<Rightarrow> (lock_result \<times> mutex \<times> 'e) res option" where
  "lock_in_mioco yield_now s = rust_loop (lock_round try_lock yield_now) s"

text \<open>\<open>RwLock::read\<close>, \<open>RwLock::write\<close> and \<open>Mutex::lock\<close>; \<open>native\<close> is the blocking call of the standard library.\<close>

definition RwLock_read where
  "RwLock_read in_co yield_now native s = (if in_co then read_in_mioco yield_now s else native s)"

definition RwLock_write where
  "RwLock_write in_co yield_now native s = (if in_co then write_in_mioco yield_now s else native s)"

definition Mutex_lock where
  "Mutex_lock in_co yield_now native s = (if in_co then lock_in_mioco yield_now s else native s)"

text \<open>The states between the attempts that found the lock taken.\<close>

fun yields :: "('l \<Rightarrow> bool) \<Rightarrow> ('l \<times> 'e \<Rightarrow> ('l \<times> 'e) res) \<Rightarrow> nat \<Rightarrow> 'l \<times> 'e \<Rightarrow> ('l \<times> 'e) option" where
  "yields free yield_now 0 s = Some s"
| "yields free yield_now (Suc n) s =
     (if free (fst s) then None
      else case yield_now s of Inl p \<Rightarrow> None | Inr s' \<Rightarrow> yields free yield_now n s')"

locale yield_lock =
  fixes try_op :: "'l \<Rightarrow> try_lock_result \<times> 'l"
    and free :: "'l \<Rightarrow> bool"
    and poisoned :: "'l \<Rightarrow> bool"
    and taken :: "'l \<Rightarrow> 'l"
  assumes try_busy: "\<not> free l \<Longrightarrow> try_op l = (WouldBlock, l)"
    and try_free: "free l \<Longrightarrow> try_op l = (if poisoned l then AcquiredPoisoned else Acquired, taken l)"
begin

lemma round_free:
  "free l \<Longrightarrow> lock_round try_op yield_now (l, e) =
     Inl (Inr (if poisoned l then LockPoisoned else LockOk, taken l, e))"
  by (simp add: lock_round_def try_free)

lemma round_busy:
  "\<not> free l \<Longrightarrow> lock_round try_op yield_now (l, e) =
     (case yield_now (l, e) of Inl p \<Rightarrow> Inl (Inl p) | Inr s \<Rightarrow> Inr s)"
  by (simp add: lock_round_def try_busy)

lemma rounds_yields: "rounds (lock_round try_op yield_now) n s = yields free yield_now n s"
proof (induction n arbitrary: s)
  case (Suc n)
  show ?case
    by (cases s; cases "free (fst s)") (auto simp: round_free round_busy Suc.IH split: sum.splits)
qed simp

lemma acquires_iff:
  "rust_loop (lock_round try_op yield_now) s = Some (Inr (r, l, e)) \<longleftrightarrow>
   (\<exists>n l0. yields free yield_now n s = Some (l0, e) \<and> free l0
      \<and> r = (if poisoned l0 then LockPoisoned else LockOk) \<and> l = taken l0)"
proof -
  have "lock_round try_op yield_now s' = Inl (Inr (r, l, e)) \<longleftrightarrow>
      (\<exists>l0. s' = (l0, e) \<and> free l0 \<and> r = (if poisoned l0 then LockPoisoned else LockOk) \<and> l = taken l0)" for s'
    by (cases s'; cases "free (fst s')") (auto simp: round_free round_busy split: sum.splits)
  then show ?thesis unfolding rust_loop_Some_iff rounds_yields by auto
qed

lemma acquires_at_once: "free l \<Longrightarrow>
  rust_loop (lock_round try_op yield_now) (l, e) = Some (Inr (if poisoned l then LockPoisoned else LockOk, taken l, e))"
  by (rule rust_loop_first) (rule round_free)

end

interpretation rd: yield_lock try_read "\<lambda>l. \<not> rw_writer l" rw_poisoned "\<lambda>l. l\<lparr>rw_readers := rw_readers l + 1\<rparr>"
  by unfold_locales (simp_all add: try_read_def)

interpretation wr: yield_lock try_write "\<lambda>l. \<not> rw_writer l \<and> rw_readers l = 0" rw_poisoned "\<lambda>l. l\<lparr>rw_writer := True\<rparr>"
  by unfold_locales (auto simp: try_write_def)

interpretation mx: yield_lock try_lock "\<lambda>l. \<not> mx_locked l" mx_poisoned "\<lambda>l. l\<lparr>mx_locked := True\<rparr>"
  by unfold_locales (simp_all add: try_lock_def)


text \<open>The guards of one lock, as its owners see them: at any time readers or one writer.\<close>

definition rw_inv :: "rwlock \<Rightarrow> bool" where
  "rw_inv l \<longleftrightarrow> (rw_writer l \<longrightarrow> rw_readers l = 0)"

datatype rw_op = OpTryRead | OpTryWrite | OpDropRead | OpDropWrite bool

text \<open>A guard can be dropped only by who holds it: \<open>None\<close> where there is no such guard.\<close>

fun rw_step :: "rw_op \<Rightarrow> rwlock \<Rightarrow> rwlock option" where
  "rw_step OpTryRead l = Some (snd (try_read l))"
| "rw_step OpTryWrite l = Some (snd (try_write l))"
| "rw_step OpDropRead l = (if rw_readers l > 0 then Some (drop_read l) else None)"
| "rw_step (OpDropWrite p) l = (if rw_writer l then Some (drop_write p l) else None)"

fun rw_steps :: "rw_op list \<Rightarrow> rwlock \<Rightarrow> rwlock option" where
  "rw_steps [] l = Some l"
| "rw_steps (x # xs) l = (case rw_step x l of None \<Rightarrow> None | Some l' \<Rightarrow> rw_steps xs l')"

lemma rw_step_inv: "rw_inv l \<Longrightarrow> rw_step x l = Some l' \<Longrightarrow> rw_inv l'"
  by (cases x) (auto simp: rw_inv_def try_read_def try_write_def drop_read_def drop_write_def split: if_splits)

lemma rw_steps_inv: "rw_inv l \<Longrightarrow> rw_steps xs l = Some l' \<Longrightarrow> rw_inv l'"
  by (induction xs arbitrary: l) (auto split: option.splits intro: rw_step_inv)



text \<open>
  \<open>Mutex::lock\<close> inside a coroutine on a free mutex takes it at the first attempt, without yielding,
  and on a mutex that is never released meanwhile it yields for ever.
\<close>

theorem mutex_lock_free_or_waits:
  "lock_in_mioco yield_now (\<lparr>mx_locked = False, mx_poisoned = p\<rparr>, e)
     = Some (Inr (if p then LockPoisoned else LockOk, \<lparr>mx_locked = True, mx_poisoned = p\<rparr>, e))
   \<and> lock_in_mioco (\<lambda>s. Inr s) (\<lparr>mx_locked = True, mx_poisoned = p\<rparr>, e) = None"
proof
  show "lock_in_mioco yield_now (\<lparr>mx_locked = False, mx_poisoned = p\<rparr>, e)
     = Some (Inr (if p then LockPoisoned else LockOk, \<lparr>mx_locked = True, mx_poisoned = p\<rparr>, e))"
    unfolding lock_in_mioco_def
    using mx.acquires_at_once [of "\<lparr>mx_locked = False, mx_poisoned = p\<rparr>" yield_now e] by (cases p) simp_all
  show "lock_in_mioco (\<lambda>s. Inr s) (\<lparr>mx_locked = True, mx_poisoned = p\<rparr>, e) = None"
    unfolding lock_in_mioco_def
    by (rule rust_loop_diverges [where P = "\<lambda>s. mx_locked (fst s)"]) (auto simp: mx.round_busy)
qed

end
