(* ===== verification/Net.thy ===== *)
theory Net
  imports Evented
begin

text \<open>
  Sockets and pipes (\<^verbatim>\<open>src/src/tcp.rs\<close>, \<^verbatim>\<open>src/src/udp.rs\<close>, \<^verbatim>\<open>src/src/unix.rs\<close>): thin wrappers that put a mio object into
  an event source and turn its non-blocking operations into blocking ones. The operations of the
  mio objects are parameters, functions on the outside state \<open>'e\<close>; a result type \<open>'err + 'a\<close> is
  \<open>io::Result\<close>. The loops are those of \<open>MioAdapter\<close> (theory \<open>Evented\<close>).
\<close>

text \<open>\<open>.map(MioAdapter::new)\<close> on the result of a mio constructor: \<open>bind\<close>, \<open>try_clone\<close>, \<open>v4\<close>, \<open>stream\<close> and so on.\<close>

definition adapt :: "('err + raw_io) \<times> 'e \<Rightarrow> ('err + evsource) \<times> 'e" where
  "adapt r = (case r of (Inl err, e) \<Rightarrow> (Inl err, e) | (Inr t, e) \<Rightarrow> (Inr (MioAdapter_new t), e))"

text \<open>
  \<open>TcpStream::connect\<close> and \<open>connect_stream\<close>: start the connect, wait until the socket is writable, then
  ask the socket for the error the connect ended with.
\<close>

definition TcpStream_connect ::
  "('e \<Rightarrow> ('err + raw_io) \<times> 'e) \<Rightarrow> (raw_io \<Rightarrow> RW \<Rightarrow> 'e \<Rightarrow> 'e res) \<Rightarrow> (raw_io \<Rightarrow> 'e \<Rightarrow> ('err + unit) \<times> 'e) \<Rightarrow>
   'e \<Rightarrow> (('err + evsource) \<times> 'e) res" where
  "TcpStream_connect connect block_on take_socket_error e =
     (case connect e of
        (Inl err, e1) \<Rightarrow> Inr (Inl err, e1)
      | (Inr t, e1) \<Rightarrow>
          bindR (block_on t RW_write e1) (\<lambda>e2.
            case take_socket_error t e2 of
              (Inl err, e3) \<Rightarrow> Inr (Inl err, e3)
            | (Inr _, e3) \<Rightarrow> Inr (Inr (MioAdapter_new t), e3)))"

definition TcpStream_connect_stream ::
  "('e \<Rightarrow> ('err + raw_io) \<times> 'e) \<Rightarrow> (raw_io \<Rightarrow> RW \<Rightarrow> 'e \<Rightarrow> 'e res) \<Rightarrow> (raw_io \<Rightarrow> 'e \<Rightarrow> ('err + unit) \<times> 'e) \<Rightarrow>
   'e \<Rightarrow> (('err + evsource) \<times> 'e) res" where
  "TcpStream_connect_stream connect_stream block_on take_socket_error e =
     (case connect_stream e of
        (Inl err, e1) \<Rightarrow> Inr (Inl err, e1)
      | (Inr t, e1) \<Rightarrow>
          bindR (block_on t RW_write e1) (\<lambda>e2.
            case take_socket_error t e2 of
              (Inl err, e3) \<Rightarrow> Inr (Inl err, e3)
            | (Inr _, e3) \<Rightarrow> Inr (Inr (MioAdapter_new t), e3)))"

text \<open>UDP: a datagram and its origin, or the number of bytes sent.\<close>

definition UdpSocket_recv ::
  "('e \<Rightarrow> ('err + (usize \<times> 'addr) option) \<times> 'e) \<Rightarrow> (RW \<Rightarrow> 'e \<Rightarrow> 'e res) \<Rightarrow> 'e \<Rightarrow>
   (('err + usize \<times> 'addr) \<times> 'e) res option" where
  "UdpSocket_recv recv_from block_on e = rust_loop (blocking_round RW_read recv_from block_on) e"

definition UdpSocket_send ::
  "('e \<Rightarrow> ('err + usize option) \<times> 'e) \<Rightarrow> (RW \<Rightarrow> 'e \<Rightarrow> 'e res) \<Rightarrow> 'e \<Rightarrow> (('err + usize) \<times> 'e) res option" where
  "UdpSocket_send try_send block_on e = rust_loop (blocking_round RW_write try_send block_on) e"

text \<open>Unix streams that pass file descriptors along.\<close>

definition UnixStream_read_recv_fd ::
  "('e \<Rightarrow> ('err + (usize \<times> nat option) option) \<times> 'e) \<Rightarrow> (RW \<Rightarrow> 'e \<Rightarrow> 'e res) \<Rightarrow> 'e \<Rightarrow>
   (('err + usize \<times> nat option) \<times> 'e) res option" where
  "UnixStream_read_recv_fd try_read_recv_fd block_on e = rust_loop (blocking_round RW_read try_read_recv_fd block_on) e"

definition UnixStream_write_send_fd ::
  "('e \<Rightarrow> ('err + usize option) \<times> 'e) \<Rightarrow> (RW \<Rightarrow> 'e \<Rightarrow> 'e res) \<Rightarrow> 'e \<Rightarrow> (('err + usize) \<times> 'e) res option" where
  "UnixStream_write_send_fd try_write_send_fd block_on e = rust_loop (blocking_round RW_write try_write_send_fd block_on) e"

definition UnixSocket_connect ::
  "('e \<Rightarrow> ('err + raw_io) \<times> 'e) \<Rightarrow> (raw_io \<Rightarrow> 'e \<Rightarrow> ('err + raw_io \<times> bool) \<times> 'e) \<Rightarrow> 'e \<Rightarrow>
   ('err + evsource \<times> bool) \<times> 'e" where
  "UnixSocket_connect try_clone connect e =
     (case try_clone e of
        (Inl err, e1) \<Rightarrow> (Inl err, e1)
      | (Inr t, e1) \<Rightarrow>
          (case connect t e1 of
             (Inl err, e2) \<Rightarrow> (Inl err, e2)
           | (Inr (t', b), e2) \<Rightarrow> (Inr (MioAdapter_new t', b), e2)))"

definition unix_pipe ::
  "('e \<Rightarrow> ('err + raw_io \<times> raw_io) \<times> 'e) \<Rightarrow> 'e \<Rightarrow> ('err + evsource \<times> evsource) \<times> 'e" where
  "unix_pipe mio_pipe e =
     (case mio_pipe e of
        (Inl err, e1) \<Rightarrow> (Inl err, e1)
      | (Inr (raw_reader, raw_writer), e1) \<Rightarrow>
          (Inr (MioAdapter_new raw_reader, MioAdapter_new raw_writer), e1))"

text \<open>
  The calls of a socket that only forward to mio, on the socket in cell \<open>self\<close>. Each takes the method of the
  mio type as a parameter. \<open>clone_io\<close> is the common body of the \<open>try_clone\<close>s.
\<close>

definition clone_io ::
  "(raw_io \<Rightarrow> 'el \<Rightarrow> ('err + raw_io) \<times> 'el) \<Rightarrow> src_ref \<Rightarrow> ('el, 'v, 'z) io_world_scheme \<Rightarrow>
   (('err + evsource) \<times> ('el, 'v, 'z) io_world_scheme) res" where
  "clone_io try_clone self w =
     bindR (with_io try_clone self w) (\<lambda>(r, w'). Inr (map_sum id MioAdapter_new r, w'))"

definition TcpListener_bind where
  "TcpListener_bind bind addr e = adapt (bind addr e)"

definition TcpListener_from_listener where
  "TcpListener_from_listener from_listener listener addr e = adapt (from_listener listener addr e)"

definition TcpListener_local_addr where
  "TcpListener_local_addr local_addr self w = with_io local_addr self w"

definition TcpListener_take_socket_error where
  "TcpListener_take_socket_error take_socket_error self w = with_io take_socket_error self w"

definition TcpListener_try_clone where
  "TcpListener_try_clone try_clone self w = clone_io try_clone self w"

definition TcpStream_local_addr where
  "TcpStream_local_addr local_addr self w = with_io local_addr self w"

definition TcpStream_peer_addr where
  "TcpStream_peer_addr peer_addr self w = with_io peer_addr self w"

definition TcpStream_shutdown where
  "TcpStream_shutdown shutdown self how w = with_io (\<lambda>r. shutdown r how) self w"

definition TcpStream_set_nodelay where
  "TcpStream_set_nodelay set_nodelay self nodelay w = with_io (\<lambda>r. set_nodelay r nodelay) self w"

definition TcpStream_set_keepalive where
  "TcpStream_set_keepalive set_keepalive self seconds w = with_io (\<lambda>r. set_keepalive r seconds) self w"

definition TcpStream_take_socket_error where
  "TcpStream_take_socket_error take_socket_error self w = with_io take_socket_error self w"

definition TcpStream_try_clone where
  "TcpStream_try_clone try_clone self w = clone_io try_clone self w"

definition UdpSocket_v4 where
  "UdpSocket_v4 v4 e = adapt (v4 e)"

definition UdpSocket_v6 where
  "UdpSocket_v6 v6 e = adapt (v6 e)"

definition UdpSocket_bound where
  "UdpSocket_bound bound addr e = adapt (bound addr e)"

definition UdpSocket_bind where
  "UdpSocket_bind bind self addr w = with_io (\<lambda>r. bind r addr) self w"

definition UdpSocket_local_addr where
  "UdpSocket_local_addr local_addr self w = with_io local_addr self w"

definition UdpSocket_try_clone where
  "UdpSocket_try_clone try_clone self w = clone_io try_clone self w"

definition UdpSocket_try_recv where
  "UdpSocket_try_recv recv_from self buf w = with_io (\<lambda>r. recv_from r buf) self w"

definition UdpSocket_try_send where
  "UdpSocket_try_send send_to self buf target w = with_io (\<lambda>r. send_to r buf target) self w"

definition UdpSocket_set_broadcast where
  "UdpSocket_set_broadcast set_broadcast self on w = with_io (\<lambda>r. set_broadcast r on) self w"

definition UdpSocket_set_multicast_loop where
  "UdpSocket_set_multicast_loop set_multicast_loop self on w = with_io (\<lambda>r. set_multicast_loop r on) self w"

definition UdpSocket_join_multicast where
  "UdpSocket_join_multicast join_multicast self multi w = with_io (\<lambda>r. join_multicast r multi) self w"

definition UdpSocket_leave_multicast where
  "UdpSocket_leave_multicast leave_multicast self multi w = with_io (\<lambda>r. leave_multicast r multi) self w"

definition UdpSocket_set_multicast_time_to_live where
  "UdpSocket_set_multicast_time_to_live set_ttl self ttl w = with_io (\<lambda>r. set_ttl r ttl) self w"

definition UnixListener_bind where
  "UnixListener_bind bind addr e = adapt (bind addr e)"

definition UnixListener_try_clone where
  "UnixListener_try_clone try_clone self w = clone_io try_clone self w"

definition UnixSocket_stream where
  "UnixSocket_stream stream e = adapt (stream e)"

definition UnixSocket_bind where
  "UnixSocket_bind bind self addr w = with_io (\<lambda>r. bind r addr) self w"

definition UnixSocket_try_clone where
  "UnixSocket_try_clone try_clone self w = clone_io try_clone self w"

definition UnixStream_connect where
  "UnixStream_connect connect path e = adapt (connect path e)"

definition UnixStream_try_clone where
  "UnixStream_try_clone try_clone self w = clone_io try_clone self w"

definition UnixStream_try_read_recv_fd where
  "UnixStream_try_read_recv_fd try_read_recv_fd self buf w = with_io (\<lambda>r. try_read_recv_fd r buf) self w"

definition UnixStream_try_write_send_fd where
  "UnixStream_try_write_send_fd try_write_send_fd self buf fd w = with_io (\<lambda>r. try_write_send_fd r buf fd) self w"

text \<open>
  A clone is a source of its own: the clone of a socket starts with no id and blocked on nothing even while
  the socket is registered, and cloning changes no source, no channel and no registration. So blocking on
  one of the two never renumbers or rearms the other.
\<close>

theorem clone_is_independent:
  assumes "clone_io try_clone s w = Inr (Inr x, w')" and "s' \<noteq> s"
  shows "io_view w' = io_view w \<and> es_common x = \<lparr>ec_id = None, ec_blocked_on = RW_none, ec_peer_hup = False\<rparr>
    \<and> rc_id s (mark_blocked s' n rw (set_src s' x w')) = rc_id s w
    \<and> rc_blocked_on s (mark_blocked s' n rw (set_src s' x w')) = rc_blocked_on s w"
proof -
  from assms(1) obtain r w1 where c: "with_io try_clone s w = Inr (r, w1)" and x: "map_sum id MioAdapter_new r = Inr x"
    and w': "w' = w1" by (auto simp: clone_io_def bindR_eq_Inr)
  from x obtain t where "x = MioAdapter_new t" by (cases r) auto
  moreover have v: "io_view w' = io_view w" using with_io_view [OF c] w' by simp
  then have "es_common (w_srcs w' s) = es_common (w_srcs w s)" by (auto simp: io_view_def fun_eq_iff)
  ultimately show ?thesis
    using v assms(2)
    by (simp add: MioAdapter_new_def RcEventSource_new_def rc_id_def rc_blocked_on_def mark_blocked_def set_src_def Let_def)
qed

theorem clone_is_independent_witness:
  "\<exists>x w'. clone_io (\<lambda>r e. (Inr (r + 1) :: nat + raw_io, e)) 0 one_source = Inr (Inr x, w')
     \<and> rc_id 0 (mark_blocked 2 7 RW_write (set_src 2 x w')) = Some (EventSourceId 3)"
proof -
  have c: "clone_io (\<lambda>r e. (Inr (r + 1) :: nat + raw_io, e)) 0 one_source = Inr (Inr (MioAdapter_new 5), one_source)"
    by (simp add: clone_io_def with_io_def one_source_def RcEventSource_new_def set_env_def)
  have "rc_id 0 one_source = Some (EventSourceId 3)" by (simp add: rc_id_def one_source_def)
  with clone_is_independent [OF c, of 2 7 RW_write] c show ?thesis by auto
qed

text \<open>
  \<open>TcpStream::connect\<close> hands out a stream exactly when mio could start the connect, the wait for
  writability returned, and the socket then reported no error. It waits once, for writing only,
  and whatever the socket reports is the error of the call.
\<close>

theorem tcp_connect_outcomes:
  "(TcpStream_connect connect block_on take_socket_error e = Inr (Inr x, e')) =
     (\<exists>t e1 e2. connect e = (Inr t, e1) \<and> block_on t RW_write e1 = Inr e2
        \<and> take_socket_error t e2 = (Inr (), e') \<and> x = MioAdapter_new t)
   \<and> (TcpStream_connect connect block_on take_socket_error e = Inr (Inl err, e')) =
     (connect e = (Inl err, e')
     \<or> (\<exists>t e1 e2. connect e = (Inr t, e1) \<and> block_on t RW_write e1 = Inr e2
          \<and> take_socket_error t e2 = (Inl err, e')))"
proof -
  obtain c e1 where c: "connect e = (c, e1)" by (cases "connect e")
  show ?thesis
  proof (cases c)
    case (Inl err')
    with c show ?thesis by (auto simp: TcpStream_connect_def)
  next
    case (Inr t)
    with c have con: "connect e = (Inr t, e1)" by simp
    show ?thesis
    proof (cases "block_on t RW_write e1")
      case (Inl p)
      with con show ?thesis by (simp add: TcpStream_connect_def)
    next
      case e2: (Inr e2)
      obtain o3 e3 where e3: "take_socket_error t e2 = (o3, e3)" by (cases "take_socket_error t e2")
      show ?thesis
        unfolding TcpStream_connect_def by (cases o3) (auto simp: con e2 e3)
    qed
  qed
qed

text \<open>
  The datagram \<open>UdpSocket::recv\<close> returns is the one of the first attempt that found one, and each
  attempt before it was followed by one wait for a read event.
\<close>

theorem udp_recv_first_datagram:
  "UdpSocket_recv recv_from block_on e = Some (Inr (Inr (n, addr), e')) \<longleftrightarrow>
   (\<exists>m e1. attempts RW_read recv_from block_on m e = Some e1 \<and> recv_from e1 = (Inr (Some (n, addr)), e'))"
  unfolding UdpSocket_recv_def blocking_loop_iff by auto

end
