(* ===== verification/Mpsc_Protocol.thy ===== *)
theory Mpsc_Protocol
  imports Mpsc
begin

text \<open>
  The wake-up protocol of a channel under every interleaving. The senders of
  \<^verbatim>\<open>src/src/sync/mpsc.rs\<close> run on any threads, so the steps between their atomic operations can
  interleave with each other, with the drop of the last sender and with the receiver: a send
  pushes into the native queue, then increments the counter, then perhaps notifies; the receiver
  pops, then decrements, and registers its token when it found the queue empty. Each rule below is
  one atomic operation of the code (an operation of the native channel, of the atomic counter, or
  a critical section of the lock) applied to the channel record of the previous theory.

  The main result is that no wake-up is lost: a receiver that waits although a message is queued,
  or although the last sender is gone, either has a message for its token in its event loop's
  mailbox or some sender has yet to finish the operation that puts it there.
\<close>

text \<open>Where a sender clone, the drop of the last sender, and the receiver are.\<close>

datatype spc = SIdle | SPushed | SNotify
datatype dpc = DAlive | DNotify | DCounted | DGone
datatype rpc = RRun | RPopped | RBlocked | RWaiting

record 'v cstate =
  cs_chan :: "'v chan"
  cs_mail :: "token list"
  cs_spc :: "nat \<Rightarrow> spc"
  cs_dpc :: dpc
  cs_rpc :: rpc

text \<open>\<open>sender_retry\<close> into the mailbox of the receiver's event loop.\<close>

definition post :: "thread_id \<Rightarrow> token \<Rightarrow> token list \<Rightarrow> token list res" where
  "post th tk mail = Inr (mail @ [tk])"

definition same_coroutine :: "token \<Rightarrow> token \<Rightarrow> bool" where
  "same_coroutine a b \<longleftrightarrow> fst (token_to_ids a) = fst (token_to_ids b)"

text \<open>
  The steps, for \<open>N\<close> clones of the sender. \<open>room\<close> is the memory bound: the queue and the senders
  together stay below what a \<open>usize\<close> counts.
\<close>

definition room :: "nat \<Rightarrow> 'v chan \<Rightarrow> bool" where
  "room N ch \<longleftrightarrow> length (ch_queue ch) + N + 3 < 2 ^ 64"

inductive cstep :: "nat \<Rightarrow> 'v cstate \<Rightarrow> 'v cstate \<Rightarrow> bool" for N where
  push: "i < N \<Longrightarrow> cs_spc s i = SIdle \<Longrightarrow> cs_dpc s = DAlive \<Longrightarrow> room N (cs_chan s) \<Longrightarrow>
    cstep N s (s\<lparr>cs_chan := std_push v (cs_chan s), cs_spc := (cs_spc s)(i := SPushed)\<rparr>)"
| count: "i < N \<Longrightarrow> cs_spc s i = SPushed \<Longrightarrow> counter_fetch_add (cs_chan s) = (prev, ch) \<Longrightarrow>
    cstep N s (s\<lparr>cs_chan := ch, cs_spc := (cs_spc s)(i := (if prev = 0 then SNotify else SIdle))\<rparr>)"
| notify: "i < N \<Longrightarrow> cs_spc s i = SNotify \<Longrightarrow>
    maybe_notify_receiver post (cs_chan s) (cs_mail s) = Inr mail \<Longrightarrow>
    cstep N s (s\<lparr>cs_mail := mail, cs_spc := (cs_spc s)(i := SIdle)\<rparr>)"
| drop_count: "cs_dpc s = DAlive \<Longrightarrow> (\<And>i. i < N \<Longrightarrow> cs_spc s i = SIdle) \<Longrightarrow>
    counter_fetch_add ((cs_chan s)\<lparr>ch_arc := 0\<rparr>) = (prev, ch) \<Longrightarrow>
    cstep N s (s\<lparr>cs_chan := ch, cs_dpc := (if prev = 0 then DNotify else DCounted)\<rparr>)"
| drop_notify: "cs_dpc s = DNotify \<Longrightarrow>
    maybe_notify_receiver post (cs_chan s) (cs_mail s) = Inr mail \<Longrightarrow>
    cstep N s (s\<lparr>cs_mail := mail, cs_dpc := DCounted\<rparr>)"
| drop_native: "cs_dpc s = DCounted \<Longrightarrow>
    cstep N s (s\<lparr>cs_chan := (cs_chan s)\<lparr>ch_std := 0\<rparr>, cs_dpc := DGone\<rparr>)"
| pop: "cs_rpc s = RRun \<Longrightarrow> std_try_recv (cs_chan s) = (RecvOk v, ch) \<Longrightarrow>
    cstep N s (s\<lparr>cs_chan := ch, cs_rpc := RPopped\<rparr>)"
| uncount: "cs_rpc s = RPopped \<Longrightarrow>
    cstep N s (s\<lparr>cs_chan := counter_fetch_sub (cs_chan s), cs_rpc := RRun\<rparr>)"
| found_empty: "cs_rpc s = RRun \<Longrightarrow> std_try_recv (cs_chan s) = (RecvEmpty, ch) \<Longrightarrow>
    cstep N s (s\<lparr>cs_rpc := RBlocked\<rparr>)"
| register_ready: "cs_rpc s = RBlocked \<Longrightarrow>
    Receiver_register dbg th tk EventSet_readable (cs_chan s) = Inr (True, ch) \<Longrightarrow>
    cstep N s (s\<lparr>cs_chan := Receiver_deregister ch, cs_rpc := RRun\<rparr>)"
| register_wait: "cs_rpc s = RBlocked \<Longrightarrow>
    Receiver_register dbg th tk EventSet_readable (cs_chan s) = Inr (False, ch) \<Longrightarrow>
    cstep N s (s\<lparr>cs_chan := ch, cs_rpc := RWaiting\<rparr>)"
| deliver: "cs_mail s = tk # ms \<Longrightarrow> cs_rpc s = RWaiting \<Longrightarrow> ch_token (cs_chan s) = Some cur \<Longrightarrow>
    same_coroutine tk cur \<Longrightarrow>
    cstep N s (s\<lparr>cs_chan := Receiver_deregister (cs_chan s), cs_mail := ms, cs_rpc := RRun\<rparr>)"
| ignore: "cs_mail s = tk # ms \<Longrightarrow>
    cs_rpc s \<noteq> RWaiting \<or> (\<exists>cur. ch_token (cs_chan s) = Some cur \<and> \<not> same_coroutine tk cur) \<Longrightarrow>
    cstep N s (s\<lparr>cs_mail := ms\<rparr>)"
| other_wake: "cs_rpc s = RWaiting \<Longrightarrow>
    cstep N s (s\<lparr>cs_chan := Receiver_deregister (cs_chan s), cs_rpc := RRun\<rparr>)"

definition cinit :: "nat \<Rightarrow> 'v cstate \<Rightarrow> bool" where
  "cinit N s \<longleftrightarrow> N + 3 < 2 ^ 64
     \<and> s = \<lparr>cs_chan = channel\<lparr>ch_arc := N, ch_std := N\<rparr>, cs_mail = [], cs_spc = (\<lambda>_. SIdle),
            cs_dpc = DAlive, cs_rpc = RRun\<rparr>"

text \<open>
  Senders that pushed and have not counted yet, and the value the counter stands for: queued
  messages and the one popped but not yet taken off, plus the drop, less the pushes not counted.
\<close>

definition pushed :: "nat \<Rightarrow> (nat \<Rightarrow> spc) \<Rightarrow> nat" where
  "pushed N f = card {i. i < N \<and> f i = SPushed}"

definition cnt :: "nat \<Rightarrow> 'v cstate \<Rightarrow> int" where
  "cnt N s = int (length (ch_queue (cs_chan s))) + (if cs_rpc s = RPopped then 1 else 0)
     + (if cs_dpc s \<noteq> DAlive then 1 else 0) - int (pushed N (cs_spc s))"

definition wake_pending :: "nat \<Rightarrow> 'v cstate \<Rightarrow> bool" where
  "wake_pending N s \<longleftrightarrow> (\<exists>tk. ch_token (cs_chan s) = Some tk \<and> tk \<in> set (cs_mail s))
     \<or> (\<exists>i < N. cs_spc s i = SNotify) \<or> cs_dpc s = DNotify"

definition cinv :: "nat \<Rightarrow> 'v cstate \<Rightarrow> bool" where
  "cinv N s \<longleftrightarrow>
     length (ch_queue (cs_chan s)) + N + 2 < 2 ^ 64
   \<and> ch_counter (cs_chan s) = word_of_int (cnt N s)
   \<and> (ch_token (cs_chan s) \<noteq> None \<longleftrightarrow> cs_rpc s = RWaiting)
   \<and> (ch_token (cs_chan s) \<noteq> None \<longrightarrow> ch_sender (cs_chan s) \<noteq> None)
   \<and> (cs_dpc s \<noteq> DAlive \<longrightarrow> (\<forall>i < N. cs_spc s i = SIdle))
   \<and> (cs_rpc s = RWaiting \<longrightarrow> wake_pending N s \<or> cnt N s \<le> 0)"

lemma pushed_bound: "pushed N f \<le> N"
proof -
  have "card {i. i < N \<and> f i = SPushed} \<le> card {..<N}" by (rule card_mono) auto
  then show ?thesis by (simp add: pushed_def)
qed

lemma pushed_enter: "i < N \<Longrightarrow> f i \<noteq> SPushed \<Longrightarrow> pushed N (f(i := SPushed)) = Suc (pushed N f)"
proof -
  assume a: "i < N" "f i \<noteq> SPushed"
  then have "{j. j < N \<and> (f(i := SPushed)) j = SPushed} = insert i {j. j < N \<and> f j = SPushed}" by auto
  then show ?thesis using a by (simp add: pushed_def)
qed

lemma pushed_leave: "i < N \<Longrightarrow> f i = SPushed \<Longrightarrow> x \<noteq> SPushed \<Longrightarrow> Suc (pushed N (f(i := x))) = pushed N f"
  using pushed_enter [of i N "f(i := x)"] by (simp add: fun_upd_idem)

lemma pushed_other: "f i \<noteq> SPushed \<Longrightarrow> x \<noteq> SPushed \<Longrightarrow> pushed N (f(i := x)) = pushed N f"
proof -
  assume "f i \<noteq> SPushed" "x \<noteq> SPushed"
  then have "{j. j < N \<and> (f(i := x)) j = SPushed} = {j. j < N \<and> f j = SPushed}" by auto
  then show ?thesis by (simp add: pushed_def)
qed

lemma pushed_idle: "\<forall>i < N. f i = SIdle \<Longrightarrow> pushed N f = 0"
  by (auto simp: pushed_def)

lemmas pushed_simps = pushed_enter pushed_leave pushed_other

lemma cnt_zero:
  assumes "cinv N s"
  shows "ch_counter (cs_chan s) = 0 \<longleftrightarrow> cnt N s = 0"
proof -
  have "\<bar>cnt N s\<bar> < 2 ^ 64"
    using assms pushed_bound [of N "cs_spc s"] by (auto simp: cinv_def cnt_def)
  then have "(word_of_int (cnt N s) :: usize) = 0 \<longleftrightarrow> cnt N s = 0"
    using dvd_imp_le_int [of "cnt N s" "2 ^ 64"] by (auto simp: word_of_int_eq_0_iff)
  with assms show ?thesis by (simp add: cinv_def)
qed

lemma cinv_init: "cinit N s \<Longrightarrow> cinv N s"
  by (auto simp: cinit_def cinv_def cnt_def channel_def pushed_def)

lemma notify_post:
  "maybe_notify_receiver post ch mail = Inr mail' \<longleftrightarrow>
   (case ch_token ch of None \<Rightarrow> mail' = mail
    | Some tk \<Rightarrow> ch_sender ch \<noteq> None \<and> mail' = mail @ [tk])"
  by (auto simp: maybe_notify_receiver_def post_def bindR_eq_Inr split: option.splits)

lemma same_coroutine_refl [simp]: "same_coroutine tk tk"
  by (simp add: same_coroutine_def)

text \<open>Each step keeps the invariant; one lemma per group of steps.\<close>

lemma cinv_push:
  assumes "cinv N s" "i < N" "cs_spc s i = SIdle" "cs_dpc s = DAlive" "room N (cs_chan s)"
  shows "cinv N (s\<lparr>cs_chan := std_push v (cs_chan s), cs_spc := (cs_spc s)(i := SPushed)\<rparr>)"
    (is "cinv N ?t")
proof -
  have c: "cnt N ?t = cnt N s" using assms by (simp add: cnt_def std_push_def pushed_enter)
  have w: "wake_pending N s \<Longrightarrow> wake_pending N ?t"
    using assms(3) by (auto simp: wake_pending_def std_push_def) (metis spc.distinct(3))
  show ?thesis using assms c w by (auto simp: cinv_def room_def std_push_def)
qed

lemma cinv_count:
  assumes "cinv N s" "i < N" "cs_spc s i = SPushed" "counter_fetch_add (cs_chan s) = (prev, ch)"
  shows "cinv N (s\<lparr>cs_chan := ch, cs_spc := (cs_spc s)(i := (if prev = 0 then SNotify else SIdle))\<rparr>)"
    (is "cinv N ?t")
proof -
  let ?f = "(cs_spc s)(i := (if prev = 0 then SNotify else SIdle))"
  from assms(4) have p: "prev = ch_counter (cs_chan s)" and ch: "ch = (cs_chan s)\<lparr>ch_counter := prev + 1\<rparr>"
    by (auto simp: counter_fetch_add_def)
  have "Suc (pushed N ?f) = pushed N (cs_spc s)" using assms(2,3) by (intro pushed_leave) auto
  then have c: "cnt N ?t = cnt N s + 1" by (simp add: cnt_def ch)
  have w: "wake_pending N s \<Longrightarrow> wake_pending N ?t"
    using assms(3) by (auto simp: wake_pending_def ch) (metis spc.distinct(5))
  have z: "prev = 0 \<Longrightarrow> wake_pending N ?t" using assms(2) by (auto simp: wake_pending_def)
  have "cnt N s < 0" if "prev \<noteq> 0" "cnt N s \<le> 0" using that cnt_zero [OF assms(1)] p by simp
  moreover have "cs_dpc s = DAlive" using assms(1,2,3) by (auto simp: cinv_def)
  ultimately show ?thesis using assms(1) c w z by (auto simp: cinv_def ch p)
qed

lemma cinv_notify:
  assumes "cinv N s" "i < N" "cs_spc s i = SNotify"
    "maybe_notify_receiver post (cs_chan s) (cs_mail s) = Inr mail"
  shows "cinv N (s\<lparr>cs_mail := mail, cs_spc := (cs_spc s)(i := SIdle)\<rparr>)" (is "cinv N ?t")
proof -
  have c: "cnt N ?t = cnt N s" using assms(3) by (simp add: cnt_def pushed_other)
  have "wake_pending N ?t" if "cs_rpc s = RWaiting"
    using that assms(1,4) by (auto simp: cinv_def wake_pending_def notify_post split: option.splits)
  with assms c show ?thesis by (auto simp: cinv_def)
qed

lemma cinv_drop_count:
  assumes "cinv N s" "cs_dpc s = DAlive" "\<And>i. i < N \<Longrightarrow> cs_spc s i = SIdle"
    "counter_fetch_add ((cs_chan s)\<lparr>ch_arc := 0\<rparr>) = (prev, ch)"
  shows "cinv N (s\<lparr>cs_chan := ch, cs_dpc := (if prev = 0 then DNotify else DCounted)\<rparr>)" (is "cinv N ?t")
proof -
  from assms(4) have p: "prev = ch_counter (cs_chan s)"
    and ch: "ch = (cs_chan s)\<lparr>ch_arc := 0, ch_counter := prev + 1\<rparr>"
    by (auto simp: counter_fetch_add_def)
  have c: "cnt N ?t = cnt N s + 1" using assms(2) by (simp add: cnt_def ch)
  have w: "wake_pending N s \<Longrightarrow> wake_pending N ?t" using assms(2) by (auto simp: wake_pending_def ch)
  have z: "prev = 0 \<Longrightarrow> wake_pending N ?t" by (simp add: wake_pending_def)
  have "cnt N s < 0" if "prev \<noteq> 0" "cnt N s \<le> 0" using that cnt_zero [OF assms(1)] p by simp
  then show ?thesis using assms(1,3) c w z by (auto simp: cinv_def ch p)
qed

lemma cinv_drop_notify:
  assumes "cinv N s" "cs_dpc s = DNotify"
    "maybe_notify_receiver post (cs_chan s) (cs_mail s) = Inr mail"
  shows "cinv N (s\<lparr>cs_mail := mail, cs_dpc := DCounted\<rparr>)" (is "cinv N ?t")
proof -
  have c: "cnt N ?t = cnt N s" using assms(2) by (simp add: cnt_def)
  have "wake_pending N ?t" if "cs_rpc s = RWaiting"
    using that assms(1,3) by (auto simp: cinv_def wake_pending_def notify_post split: option.splits)
  with assms c show ?thesis by (auto simp: cinv_def)
qed

lemma cinv_drop_native:
  assumes "cinv N s" "cs_dpc s = DCounted"
  shows "cinv N (s\<lparr>cs_chan := (cs_chan s)\<lparr>ch_std := 0\<rparr>, cs_dpc := DGone\<rparr>)"
  using assms by (auto simp: cinv_def cnt_def wake_pending_def)

lemma cinv_receiver:
  assumes "cinv N s"
  shows "cs_rpc s = RRun \<Longrightarrow> std_try_recv (cs_chan s) = (RecvOk v, ch) \<Longrightarrow>
      cinv N (s\<lparr>cs_chan := ch, cs_rpc := RPopped\<rparr>)"
    and "cs_rpc s = RPopped \<Longrightarrow>
      cinv N (s\<lparr>cs_chan := counter_fetch_sub (cs_chan s), cs_rpc := RRun\<rparr>)"
    and "cs_rpc s = RRun \<Longrightarrow> cinv N (s\<lparr>cs_rpc := RBlocked\<rparr>)"
  using assms
  by (auto simp: cinv_def cnt_def std_try_recv_def counter_fetch_sub_def algebra_simps
      split: list.splits if_splits)

lemma cinv_deregister:
  assumes "cinv N s" "cs_rpc s = RWaiting"
  shows "cinv N (s\<lparr>cs_chan := Receiver_deregister (cs_chan s), cs_mail := ms, cs_rpc := RRun\<rparr>)"
  using assms by (auto simp: cinv_def cnt_def Receiver_deregister_def)

lemma cinv_register_ready:
  assumes "cinv N s" "cs_rpc s = RBlocked"
    "Receiver_register dbg th tk EventSet_readable (cs_chan s) = Inr (b, ch)"
  shows "cinv N (s\<lparr>cs_chan := Receiver_deregister ch, cs_rpc := RRun\<rparr>)"
  using assms
  by (auto simp: cinv_def cnt_def Receiver_deregister_def Receiver_register_def bindR_eq_Inr Let_def
      split: if_splits)

lemma cinv_register_wait:
  assumes "cinv N s" "cs_rpc s = RBlocked"
    "Receiver_register dbg th tk EventSet_readable (cs_chan s) = Inr (False, ch)"
  shows "cinv N (s\<lparr>cs_chan := ch, cs_rpc := RWaiting\<rparr>)" (is "cinv N ?t")
proof -
  from assms(3) have ch: "ch = (cs_chan s)\<lparr>ch_token := Some tk, ch_sender := Some th\<rparr>"
    and z: "ch_counter (cs_chan s) = 0"
    by (auto simp: Receiver_register_def bindR_eq_Inr Let_def split: if_splits)
  have "cnt N ?t = cnt N s" using assms(2) by (simp add: cnt_def ch)
  moreover have "cnt N s = 0" using cnt_zero [OF assms(1)] z by simp
  ultimately show ?thesis using assms(1,2) by (simp add: cinv_def ch)
qed

lemma cinv_ignore:
  assumes "cinv N s" "cs_mail s = tk # ms"
    "cs_rpc s \<noteq> RWaiting \<or> (\<exists>cur. ch_token (cs_chan s) = Some cur \<and> \<not> same_coroutine tk cur)"
  shows "cinv N (s\<lparr>cs_mail := ms\<rparr>)" (is "cinv N ?t")
proof -
  have c: "cnt N ?t = cnt N s" by (simp add: cnt_def)
  have "wake_pending N ?t" if "cs_rpc s = RWaiting" "wake_pending N s"
    using that assms(2,3) by (auto simp: wake_pending_def)
  with assms(1) c show ?thesis by (auto simp: cinv_def)
qed

lemma cinv_step:
  assumes "cinv N s" and "cstep N s t"
  shows "cinv N t"
  using assms(2)
proof cases
  case (push i v)
  show ?thesis unfolding push(1) using assms(1) push(2-) by (rule cinv_push)
next
  case (count i prev ch)
  show ?thesis unfolding count(1) using assms(1) count(2-) by (rule cinv_count)
next
  case (notify i mail)
  show ?thesis unfolding notify(1) using assms(1) notify(2-) by (rule cinv_notify)
next
  case (drop_count prev ch)
  show ?thesis unfolding drop_count(1) using assms(1) drop_count(2-) by (rule cinv_drop_count)
next
  case (drop_notify mail)
  show ?thesis unfolding drop_notify(1) using assms(1) drop_notify(2-) by (rule cinv_drop_notify)
next
  case (ignore tk ms)
  show ?thesis unfolding ignore(1) using assms(1) ignore(2-) by (rule cinv_ignore)
next
  case other_wake
  with cinv_deregister [OF assms(1), of "cs_mail s"] show ?thesis by simp
qed (use assms(1) in \<open>auto intro: cinv_drop_native cinv_receiver cinv_register_ready
    cinv_register_wait cinv_deregister\<close>)

interpretation proto: invariant_system "cinit N" "cstep N" "cinv N" for N
  by unfold_locales (auto intro: cinv_init cinv_step)

lemma pending_message:
  assumes "reach (cinit N) (cstep N) s" and "cs_rpc s = RWaiting"
    and "\<forall>i < N. cs_spc s i = SIdle" and "cs_dpc s \<noteq> DNotify"
    and "ch_queue (cs_chan s) \<noteq> [] \<or> cs_dpc s \<noteq> DAlive"
  shows "\<exists>tk. ch_token (cs_chan s) = Some tk \<and> tk \<in> set (cs_mail s)"
proof -
  have inv: "cinv N s" using assms(1) by (rule proto.reach_inv)
  have "pushed N (cs_spc s) = 0" using assms(3) by (rule pushed_idle)
  then have "0 < cnt N s" using assms(5) by (auto simp: cnt_def)
  with inv assms(2) have "wake_pending N s" by (auto simp: cinv_def)
  with assms(3,4) show ?thesis by (auto simp: wake_pending_def)
qed

text \<open>
  C3: no wake-up is lost. In every state the protocol can reach, if the receiver waits although a
  message is queued or the last sender is gone, and no sender is in the middle of an operation,
  then a message for the receiver's current token is in its event loop's mailbox.
\<close>

theorem no_lost_wakeup:
  assumes "reach (cinit N) (cstep N) s" and "cs_rpc s = RWaiting"
    and "\<forall>i < N. cs_spc s i = SIdle" and "cs_dpc s \<noteq> DNotify"
    and "ch_queue (cs_chan s) \<noteq> [] \<or> cs_dpc s \<noteq> DAlive"
  shows "\<exists>tk. ch_token (cs_chan s) = Some tk \<and> tk \<in> set (cs_mail s)"
  using assms by (rule pending_message)

text \<open>The state after one send to a receiver that had registered and waits.\<close>

definition after_send_to_waiting :: "nat cstate" where
  "after_send_to_waiting =
     \<lparr>cs_chan = \<lparr>ch_token = Some 1024, ch_sender = Some 0, ch_counter = 1, ch_queue = [7],
        ch_bound = None, ch_arc = 1, ch_std = 1, ch_rx = True\<rparr>,
      cs_mail = [1024], cs_spc = (\<lambda>_. SIdle), cs_dpc = DAlive, cs_rpc = RWaiting\<rparr>"

lemma after_send_to_waiting_reach: "reach (cinit 1) (cstep 1) after_send_to_waiting"
proof -
  let ?c0 = "channel\<lparr>ch_arc := 1, ch_std := 1\<rparr> :: nat chan"
  let ?s0 = "\<lparr>cs_chan = ?c0, cs_mail = [], cs_spc = (\<lambda>_. SIdle), cs_dpc = DAlive, cs_rpc = RRun\<rparr>"
  let ?s1 = "?s0\<lparr>cs_rpc := RBlocked\<rparr>"
  let ?c2 = "?c0\<lparr>ch_token := Some 1024, ch_sender := Some 0\<rparr>"
  let ?s2 = "?s1\<lparr>cs_chan := ?c2, cs_rpc := RWaiting\<rparr>"
  let ?s3 = "?s2\<lparr>cs_chan := std_push 7 ?c2, cs_spc := (\<lambda>_. SIdle)(0 := SPushed)\<rparr>"
  let ?s4 = "?s3\<lparr>cs_chan := (std_push 7 ?c2)\<lparr>ch_counter := 1\<rparr>,
     cs_spc := ((\<lambda>_. SIdle)(0 := SPushed))(0 := SNotify)\<rparr>"
  let ?s5 = "?s4\<lparr>cs_mail := [1024], cs_spc := (((\<lambda>_. SIdle)(0 := SPushed))(0 := SNotify))(0 := SIdle)\<rparr>"
  have "reach (cinit 1) (cstep 1) ?s0" by (rule reach_init) (simp add: cinit_def)
  moreover have "cstep 1 ?s0 ?s1"
    using cstep.found_empty [of ?s0 ?c0 1] by (simp add: std_try_recv_def channel_def)
  moreover have "cstep 1 ?s1 ?s2"
    using cstep.register_wait [of ?s1 True 0 1024 ?c2 1]
    by (simp add: Receiver_register_def EventSet_readable_def channel_def)
  moreover have "cstep 1 ?s2 ?s3"
    using cstep.push [of 0 1 ?s2 7] by (simp add: room_def channel_def)
  moreover have "cstep 1 ?s3 ?s4"
    using cstep.count [of 0 1 ?s3 0 "(std_push 7 ?c2)\<lparr>ch_counter := 1\<rparr>"]
    by (simp add: counter_fetch_add_def std_push_def channel_def)
  moreover have "cstep 1 ?s4 ?s5"
    using cstep.notify [of 0 1 ?s4 "[1024]"]
    by (simp add: notify_post std_push_def channel_def)
  ultimately have "reach (cinit 1) (cstep 1) ?s5" by (meson reach_step)
  moreover have "?s5 = after_send_to_waiting"
    by (simp add: after_send_to_waiting_def std_push_def channel_def fun_eq_iff)
  ultimately show ?thesis by simp
qed

theorem no_lost_wakeup_witness:
  "cs_rpc after_send_to_waiting = RWaiting \<and> ch_queue (cs_chan after_send_to_waiting) \<noteq> []
   \<and> (\<exists>tk. ch_token (cs_chan after_send_to_waiting) = Some tk \<and> tk \<in> set (cs_mail after_send_to_waiting))"
  using no_lost_wakeup [OF after_send_to_waiting_reach]
  by (simp add: after_send_to_waiting_def)

text \<open>The event loop working off its mailbox reaches the message that wakes the receiver.\<close>

lemma mailbox_wakes:
  assumes "cs_rpc s = RWaiting" and "ch_token (cs_chan s) = Some tk" and "tk \<in> set (cs_mail s)"
  shows "\<exists>t. (cstep N)\<^sup>*\<^sup>* s t \<and> cs_rpc t = RRun \<and> ch_token (cs_chan t) = None
    \<and> ch_queue (cs_chan t) = ch_queue (cs_chan s)"
  using assms
proof (induction "cs_mail s" arbitrary: s)
  case Nil
  then show ?case by simp
next
  case (Cons m ms)
  note m = Cons.hyps(2) [symmetric]
  show ?case
  proof (cases "same_coroutine m tk")
    case True
    from cstep.deliver [OF m Cons.prems(1,2) True, of N] show ?thesis
      by (intro exI [of _ "s\<lparr>cs_chan := Receiver_deregister (cs_chan s), cs_mail := ms, cs_rpc := RRun\<rparr>"])
        (simp add: Receiver_deregister_def r_into_rtranclp)
  next
    case False
    let ?u = "s\<lparr>cs_mail := ms\<rparr>"
    have st: "cstep N s ?u" using cstep.ignore [OF m, of N] Cons.prems(2) False by blast
    have "tk \<in> set ms" using m Cons.prems(3) False by auto
    with Cons.hyps(1) [of ?u] Cons.prems obtain t where "(cstep N)\<^sup>*\<^sup>* ?u t" "cs_rpc t = RRun"
      "ch_token (cs_chan t) = None" "ch_queue (cs_chan t) = ch_queue (cs_chan s)" by auto
    with st show ?thesis by (meson converse_rtranclp_into_rtranclp)
  qed
qed





end
