(* ===== verification/Thunk.thy ===== *)
theory Thunk
  imports Main
begin

text \<open>
  Boxed closures (\<^verbatim>\<open>src/src/thunk.rs\<close>): a \<open>Thunk\<close> takes its closure out of the box and calls it, once, since \<open>invoke\<close>
  consumes it. A closure is a function, from the state it runs in where it has effects.
\<close>

datatype ('a, 'r) thunk = Thunk (thunk_closure: "'a \<Rightarrow> 'r")

definition Invoke_invoke :: "('a \<Rightarrow> 'r) \<Rightarrow> 'a \<Rightarrow> 'r" where
  "Invoke_invoke self arg = (let f = self in f arg)"

definition Thunk_with_arg :: "('a \<Rightarrow> 'r) \<Rightarrow> ('a, 'r) thunk" where
  "Thunk_with_arg func = Thunk func"

definition Thunk_new :: "(unit \<Rightarrow> 'r) \<Rightarrow> (unit, 'r) thunk" where
  "Thunk_new func = Thunk_with_arg (\<lambda>_. func ())"

definition Thunk_invoke :: "('a, 'r) thunk \<Rightarrow> 'a \<Rightarrow> 'r" where
  "Thunk_invoke self arg = Invoke_invoke (thunk_closure self) arg"

lemma Thunk_invoke_new [simp]: "Thunk_invoke (Thunk_new f) () = f ()"
  by (simp add: Thunk_invoke_def Thunk_new_def Thunk_with_arg_def Invoke_invoke_def)

end
