(* ===== verification/Spec2Isabelle.thy ===== *)
theory Spec2Isabelle
  imports Custom_Scheduler Sleep Migration_Round Offload Start Termination_Protocol Locks Net Mpsc_Protocol Thunk
begin

text \<open>
  A verification library for mioco (\<^verbatim>\<open>src/\<close>), a runtime that multiplexes coroutines over the event
  loops of mio, one per operating system thread.

  \<^bold>\<open>The program.\<close> A \<open>Mioco\<close> instance (\<^verbatim>\<open>src/src/mod.rs\<close>) starts a number of threads. Each thread runs a mio
  event loop with a \<open>Handler\<close> (\<^verbatim>\<open>src/src/thread.rs\<close>) and keeps its coroutines (\<^verbatim>\<open>src/src/coroutine.rs\<close>) in a
  slab. A coroutine runs until it blocks on event sources (\<^verbatim>\<open>src/src/evented.rs\<close>), yields, or ends; the
  handler then registers the sources with mio, and an event makes the coroutine ready again. The right to
  resume a coroutine is a \<open>CoroutineControl\<close>, which the handler hands to a scheduler. The default
  scheduler spreads new coroutines over the threads, so coroutines migrate between slabs in messages.
  Channels (\<^verbatim>\<open>src/src/sync/mpsc.rs\<close>), timers, sockets and locks are event sources or loops over them.

  \<^bold>\<open>The theories\<close>, in the order of their imports:

  \<^item> \<open>Prelude\<close>: panics, the \<open>res\<close> type of code that may panic, \<open>rust_loop\<close> (a loop whose divergence is
    \<open>None\<close>), reachability and the locale \<open>invariant_system\<close>, and word lemmas.
  \<^item> \<open>Tokens\<close>: \<open>RW\<close>, events, ids and their packing into 64-bit tokens.
  \<^item> \<open>Mio_Api\<close>: mio and the slab as parameters with their laws (\<open>mio_laws\<close>, \<open>slab_laws\<close>), and \<open>sender_retry\<close>.
  \<^item> \<open>Mpsc\<close>: the operations of channels; \<open>Mpsc_Protocol\<close>: senders and receiver interleaved at the
    granularity of the atomic operations, as the step relation \<open>cstep\<close>.
  \<^item> \<open>Scheduler\<close>: the traits as the record \<open>scheduler\<close>, the law that every scheduler obeys as the locale
    \<open>scheduler_thread\<close>, and \<open>FifoScheduler\<close>.
  \<^item> \<open>Timer\<close>: timers, \<open>sleep\<close> and \<open>sleep_ms\<close>.
  \<^item> \<open>Evented\<close>: event sources, their registration, and the operations of \<open>MioAdapter\<close>, blocking and not.
  \<^item> \<open>Locks\<close>: \<open>RwLock\<close> and \<open>Mutex\<close>, with the contract of their loops as the locale \<open>yield_lock\<close>.
  \<^item> \<open>Net\<close>: TCP, UDP and Unix sockets and pipes: constructors, blocking operations and the calls that forward to mio.
  \<^item> \<open>World\<close>: the state of a whole instance, and \<open>HandlerShared\<close>. \<open>Coroutine\<close>: coroutines and the library
    functions they call. \<open>Handler\<close>: \<open>CoroutineControl\<close> and the callbacks of the event loop.
  \<^item> \<open>Select\<close>: the \<open>select!\<close> macro.
  \<^item> \<open>Ledger\<close>: the abstract specification, a ledger of where every coroutine is. \<open>Refinement\<close>: the operations
    refine it. \<open>Controls\<close>: who may resume which coroutine. \<open>Callbacks\<close>: the invariant \<open>inst\<close> of an instance,
    its step relation \<open>istep\<close>, and that every callback keeps the invariant.
  \<^item> \<open>Instance\<close>: the configuration, \<open>Mioco::run\<close>, \<open>join\<close>, the initial states of an instance and
    the interpretation of \<open>invariant_system\<close> on it.
  \<^item> \<open>Example\<close>: a concrete runtime and six of its states; the witnesses use it.
  \<^item> \<open>Guarantees\<close>: what holds in every reachable state of an instance. \<open>Lifecycle\<close>: what single operations
    in the life of a coroutine promise.
  \<^item> \<open>Custom_Scheduler\<close>: schedulers of the user, and what dropping a control does. \<open>Wakeup\<close>: how registration,
    a send and the handler wake the receiver of a message. \<open>Sleep\<close>: the same for timers, with what the code relies on
    of mio's timeouts (\<open>timeout_laws\<close>). \<open>Migration_Round\<close>: a migration from one thread to the other. \<open>Offload\<close>: \<open>offload\<close> and its helper thread.
    \<open>Start\<close>: \<open>Mioco::start\<close> from the call to the result it returns.
  \<^item> \<open>Termination_Protocol\<close>: the count of coroutines and the broadcast of \<open>Terminate\<close>, with the threads interleaved
    between the single atomic operations and sends, as the step relation \<open>tstep\<close>; \<open>coroutines_dec\<close> is one run of these steps.
  \<^item> \<open>Thunk\<close>: boxed closures.

  \<^bold>\<open>How the state corresponds to the code.\<close> A world has one \<open>handler_shared\<close> record per thread (the fields of
    \<open>HandlerShared\<close>), the counters of \<open>HandlerThreadShared\<close>, the scheduler object and the shutdown flag of each
  \<open>Handler\<close>, the state the scheduler objects share, the thread-local pointer of each thread, a store of coroutines, and stores of channels and event
  sources. An \<open>Rc\<close> is an index into a store. Code that panics returns \<open>Inl\<close> of the panic. Each function takes
  the executing thread as an argument. A saved machine context is a continuation \<open>'k\<close> of user code; what user
  code does between two context switches is a finite segment of calls into the library (\<open>act\<close>), which the model
  executes. The scheduler of an instance is a parameter too (\<open>rt_sched\<close>, the trait object given to
  \<open>Config::set_scheduler\<close>): its callbacks see the user data of the controls and return what they do with them. \<open>istep\<close> lets the callbacks of the threads interleave as wholes with activity outside mioco:
  within a callback the only state that threads share are atomics and mailboxes, and the finer interleavings
  that matter are the subject of \<open>Mpsc_Protocol\<close> (the senders of a channel and its receiver) and \<open>Termination_Protocol\<close>.

  \<^bold>\<open>Loops.\<close> Loops that always end are recursive functions, \<open>sender_retry\<close> with its own bound of 20000
  attempts. The loops that may run for ever (delivery to the scheduler, blocking reads and receives, locks,
  waiting for the start) are \<open>rust_loop\<close>s with an option type; no fuel is used. Where a property says that such
  a loop returns, it says so with \<open>Some\<close>.

  \<^bold>\<open>Hypotheses.\<close> \<open>runtime_laws\<close> collects what is assumed of the code outside the repository: a send that
  succeeds appends to a mailbox and nothing else touches mailboxes; slab insertions use free slots, removals free
  them, and indices stay in range; a scheduler resumes, migrates, drops or keeps each control it was given, once, as
  the ownership of a value that cannot be copied enforces (\<open>sched_laws\<close>). \<open>code_unwinds\<close> says that user code told to unwind neither switches nor
  spawns on its way out. \<open>Example\<close> shows that all of them can hold together.

  \<^bold>\<open>What is shown.\<close>

  \<^item> Channels: no lost wake-up, exact counter, FIFO order, bounds; where the native receive and the channel of
    bound 0 deviate.
  \<^item> Scheduling, for every scheduler: each ready coroutine has exactly one control; nothing is lost or resumed
    twice; a tick leaves nothing runnable behind that the scheduler does not hold; a dropped control kills its coroutine
    and no other. For the default one: nothing is dropped; what is ready runs in the next tick; round robin, and when it is not fair.
  \<^item> Placement: each live coroutine is in exactly one slab slot or one message; the counter of coroutines is
    exact; termination is broadcast only after the last one ended; a coroutine that ended never comes back, and an
    instance without coroutines stays without; a coroutine that migrates arrives as it left; the runtime refines the ledger.
  \<^item> Termination, in every interleaving of the threads: each event loop is told to end exactly once, after the last
    coroutine is done, and ends.
  \<^item> Shutdown: every coroutine of a thread is killed, late arrivals included; with panics not caught each kill
    stops the event loop.
  \<^item> Coroutine life: exit status and \<open>join\<close>, events, user data, \<open>select!\<close> (one arm, and the case in which two
    run), starting an instance once and twice, \<open>offload\<close> and the panic that hangs it.
  \<^item> The whole run: when \<open>start\<close> returns, every coroutine of the instance has finished.
  \<^item> The parts together: a message sent to a coroutine that sleeps on a receiver wakes that coroutine,
    and so does the timeout of a timer; a timer that is due clears the timeout of another one when mio reuses its handle.
  \<^item> Tokens, timers, sockets, locks: round trips, bounds, termination and exclusion.

  \<^bold>\<open>Not modelled.\<close> Machine stacks and contexts (library context-rs), logging,
  the run-time borrow checks of \<open>RefCell\<close>, the configuration of the event loops (a value of a type of mio that
  mioco only passes on), an event source that wraps another one (nothing in the repository does that), what a scheduler does with the event loop it is passed other than
  resuming, migrating and dropping controls, and the examples.

  \<^bold>\<open>Beyond this development.\<close> The fairness of a whole instance under a fair mio, and the ownership of channel ends by user
  code, which would show that the result of \<open>start\<close> is that of the first coroutine whatever the others do, need
  assumptions about mio and user code that the sources do not state. The files left are crate attributes, re-exports and
  programs that use the library.
\<close>

end
